theory Spec2Isabelle
  imports Main "HOL-Library.Word"
begin

unbundle bit_operations_syntax

section \<open>C strings\<close>

text \<open>
  A C string is modelled by the list of its characters; a pointer into it is an index.
  Reading at or behind the end of the list yields the terminating NUL, and an embedded
  NUL ends the string as it does in C.
\<close>

definition c_at :: "string \<Rightarrow> nat \<Rightarrow> char" where
  "c_at s i = (if i < length s then s ! i else CHR 0x00)"

definition strlen :: "string \<Rightarrow> nat" where
  "strlen s = length (takeWhile (\<lambda>c. c \<noteq> CHR 0x00) s)"

section \<open>lib/compat/path\_sep.c\<close>

text \<open>
  The macro \<open>__is_windows_path_sep\<close> depends on the build: the flag \<open>windows\<close> stands
  for \<open>defined(_WIN32) || defined(__WINDOWS__)\<close>.
\<close>

definition is_windows_path_sep :: "bool \<Rightarrow> char \<Rightarrow> bool" where
  "is_windows_path_sep windows arg = (if windows then arg = CHR 0x5C else False)"

definition is_path_sep :: "bool \<Rightarrow> char \<Rightarrow> bool" where
  "is_path_sep windows c = (c = CHR ''/'' \<and> is_windows_path_sep windows c)"

function skip_path_seps_from :: "bool \<Rightarrow> string \<Rightarrow> nat \<Rightarrow> nat" where
  "skip_path_seps_from windows s cur =
     (if c_at s cur \<noteq> CHR 0x00
      then (if is_path_sep windows (c_at s cur)
            then skip_path_seps_from windows s (Suc cur)
            else cur)
      else cur)"
  by pat_completeness auto
termination
  by (relation "measure (\<lambda>(windows, s, cur). length s - cur)")
     (auto simp: c_at_def split: if_splits)

declare skip_path_seps_from.simps [simp del]

definition skip_path_seps :: "bool \<Rightarrow> string \<Rightarrow> nat" where
  "skip_path_seps windows s = skip_path_seps_from windows s 0"

function next_path_sep_from :: "bool \<Rightarrow> string \<Rightarrow> nat \<Rightarrow> nat" where
  "next_path_sep_from windows s cur =
     (if c_at s cur \<noteq> CHR 0x00
      then (if is_path_sep windows (c_at s cur)
            then cur
            else next_path_sep_from windows s (Suc cur))
      else cur)"
  by pat_completeness auto
termination
  by (relation "measure (\<lambda>(windows, s, cur). length s - cur)")
     (auto simp: c_at_def split: if_splits)

declare next_path_sep_from.simps [simp del]

definition next_path_sep :: "bool \<Rightarrow> string \<Rightarrow> nat" where
  "next_path_sep windows s = next_path_sep_from windows s 0"

section \<open>lib/compat/getopt.c and lib/compat/getopt\_long.c\<close>

text \<open>
  The globals of getopt.c: the static pointer \<open>current\<close> into the option cluster being
  read (modelled by the characters it still points at), \<open>optind\<close>, \<open>optarg\<close>
  (\<open>None\<close> is NULL), and the lines these functions write to \<open>stderr\<close> (each \<open>fprintf\<close> or
  \<open>fputs\<close> adds one line, its trailing newline left out).
\<close>

record getopt_state =
  current :: string
  optind :: nat
  optarg :: "string option"
  opt_stderr :: "string list"

definition getopt_init :: getopt_state where
  "getopt_init = \<lparr>current = [], optind = 1, optarg = None, opt_stderr = []\<rparr>"

text \<open>\<open>strchr\<close>: the suffix at the first occurrence; NUL is found at the terminator.\<close>

definition strchr :: "string \<Rightarrow> char \<Rightarrow> string option" where
  "strchr s c =
     (if c = CHR 0x00 then Some []
      else (case dropWhile (\<lambda>x. x \<noteq> c) s of [] \<Rightarrow> None | r # rs \<Rightarrow> Some (r # rs)))"

text \<open>\<open>strncmp\<close>: the difference of the first two bytes that differ among the first \<open>n\<close>.\<close>

fun strncmp :: "string \<Rightarrow> string \<Rightarrow> nat \<Rightarrow> int" where
  "strncmp a b 0 = 0"
| "strncmp a b (Suc n) =
     (if c_at a 0 \<noteq> c_at b 0
      then int (of_char (c_at a 0)) - int (of_char (c_at b 0))
      else if c_at a 0 = CHR 0x00 then 0
      else strncmp (tl a) (tl b) n)"

text \<open>
  The result of \<open>getopt\<close> and \<open>getopt_long\<close> is an \<open>int\<close> that is either \<open>-1\<close>
  (\<open>None\<close>) or a character (\<open>Some c\<close>; the failure result is \<open>Some CHR ''?''\<close>).
  \<open>argc\<close> is the length of \<open>argv\<close>; \<open>argv[optind]\<close> is read only below \<open>argc\<close>.
\<close>

definition getopt :: "string list \<Rightarrow> string \<Rightarrow> getopt_state \<Rightarrow> char option \<times> getopt_state" where
  "getopt argv optstr st =
     (let argc = length argv; arg = argv ! optind st in
      if c_at (current st) 0 = CHR 0x00 \<and>
         (optind st \<ge> argc \<or> c_at arg 0 \<noteq> CHR ''-'')
      then (None, st)
      else if c_at (current st) 0 = CHR 0x00 \<and>
         c_at arg 1 = CHR ''-'' \<and> c_at arg 2 = CHR 0x00
      then (None, st\<lparr>optind := optind st + 1\<rparr>)
      else if c_at (current st) 0 = CHR 0x00 \<and> c_at arg 1 = CHR 0x00
      then (None, st)
      else
        let cur0 = (if c_at (current st) 0 = CHR 0x00 then drop 1 arg else current st);
            optchr = c_at cur0 0;
            cur = drop 1 cur0;
            ptr = (if optchr = CHR '':'' then None else strchr optstr optchr)
        in case ptr of
             None \<Rightarrow>
               (Some CHR ''?'',
                st\<lparr>current := cur,
                   opt_stderr := opt_stderr st @ [argv ! 0 @ '': unknown option -'' @ [optchr]]\<rparr>)
           | Some p \<Rightarrow>
               if c_at p 1 = CHR '':'' then
                 (if c_at cur 0 \<noteq> CHR 0x00
                  then (Some optchr,
                        st\<lparr>current := [], optind := optind st + 1, optarg := Some cur\<rparr>)
                  else if optind st + 1 \<ge> argc
                  then (Some CHR ''?'',
                        st\<lparr>current := cur, optind := optind st + 1,
                           opt_stderr := opt_stderr st @
                             [argv ! 0 @ '': missing argument for option -'' @ [optchr]]\<rparr>)
                  else (Some optchr,
                        st\<lparr>current := [], optind := optind st + 2,
                           optarg := Some (argv ! (optind st + 1))\<rparr>))
               else
                 (Some optchr,
                  st\<lparr>current := cur,
                     optind := (if c_at cur 0 = CHR 0x00 then optind st + 1 else optind st),
                     optarg := None\<rparr>))"

text \<open>
  \<open>struct option\<close>: \<open>o_name\<close> (the field \<open>name\<close>) is a string or NULL, \<open>has_arg\<close> is \<open>no_argument\<close> (0)
  or \<open>required_argument\<close> (1); the \<open>flag\<close> pointer is NULL in every entry of this
  program and is left out; \<open>o_val\<close> is the field \<open>val\<close>.
\<close>

record option_entry =
  o_name :: "string option"
  has_arg :: nat
  o_val :: char

definition no_argument :: nat where
  "no_argument = 0"

definition required_argument :: nat where
  "required_argument = 1"

text \<open>
  A C array has no bounds check: reading \<open>longopts[i]\<close> at or behind the end of the
  array is undefined behaviour, which the model reports as a fault. The other fault of
  the program is a failed \<open>assert\<close>.
\<close>

datatype fault = OutOfBounds nat | AssertionFailed

definition array_read :: "'a list \<Rightarrow> nat \<Rightarrow> fault + 'a" where
  "array_read xs i = (if i < length xs then Inr (xs ! i) else Inl (OutOfBounds i))"

text \<open>The length of the option name: up to the terminator or the first \<open>=\<close>.\<close>

definition long_name_len :: "string \<Rightarrow> nat" where
  "long_name_len ptr = length (takeWhile (\<lambda>c. c \<noteq> CHR 0x00 \<and> c \<noteq> CHR ''='') ptr)"

text \<open>
  The lookup loop \<open>for (i = 0; longopts[i].name != NULL; ++i)\<close>: it returns the index
  it stops at, either by \<open>break\<close> (a name that matches) or at an entry whose name is NULL.
\<close>

function long_lookup :: "option_entry list \<Rightarrow> string \<Rightarrow> nat \<Rightarrow> nat \<Rightarrow> fault + nat" where
  "long_lookup longopts ptr len i =
     (case array_read longopts i of
        Inl f \<Rightarrow> Inl f
      | Inr e \<Rightarrow>
          (case o_name e of
             None \<Rightarrow> Inr i
           | Some nm \<Rightarrow>
               if strncmp nm ptr len \<noteq> 0 then long_lookup longopts ptr len (Suc i)
               else if c_at nm len = CHR 0x00 then Inr i
               else long_lookup longopts ptr len (Suc i)))"
  by pat_completeness auto
termination
  by (relation "measure (\<lambda>(longopts, ptr, len, i). length longopts - i)")
     (auto simp: array_read_def split: if_splits)

declare long_lookup.simps [simp del]

definition getopt_long ::
  "string list \<Rightarrow> string \<Rightarrow> option_entry list \<Rightarrow> getopt_state
     \<Rightarrow> fault + (char option \<times> getopt_state)" where
  "getopt_long argv optstr longopts st =
     (let argc = length argv; arg = argv ! optind st in
      if optind st \<ge> argc \<or> c_at arg 0 \<noteq> CHR ''-'' \<or> c_at arg 1 \<noteq> CHR ''-'' \<or>
         c_at arg 2 = CHR 0x00
      then Inr (getopt argv optstr st)
      else
        let ptr = drop 2 arg;
            len = long_name_len ptr
        in case long_lookup longopts ptr len 0 of
             Inl f \<Rightarrow> Inl f
           | Inr i \<Rightarrow>
              (case array_read longopts i of
                 Inl f \<Rightarrow> Inl f
               | Inr e \<Rightarrow>
                   if o_name e = None
                   then Inr (Some CHR ''?'',
                             st\<lparr>optarg := None,
                                opt_stderr := opt_stderr st @ [argv ! 0 @ '': unknown option --'' @ ptr]\<rparr>)
                   else if c_at ptr len = CHR ''=''
                   then (if has_arg e = 0
                         then Inr (Some CHR ''?'',
                                   st\<lparr>optarg := None,
                                      opt_stderr := opt_stderr st @
                                        [argv ! 0 @ '': no argument expected for option --'' @ ptr]\<rparr>)
                         else Inr (Some (o_val e),
                                   st\<lparr>optarg := Some (drop (len + 1) ptr),
                                      optind := optind st + 1\<rparr>))
                   else if has_arg e \<noteq> 0
                   then (if optind st + 1 \<ge> argc
                         then Inr (Some CHR ''?'',
                                   st\<lparr>optarg := None, optind := optind st + 1,
                                      opt_stderr := opt_stderr st @
                                        [argv ! 0 @ '': missing argument for option --'' @ ptr]\<rparr>)
                         else Inr (Some (o_val e),
                                   st\<lparr>optarg := Some (argv ! (optind st + 1)),
                                      optind := optind st + 2\<rparr>))
                   else Inr (Some (o_val e), st\<lparr>optarg := None, optind := optind st + 1\<rparr>)))"

section \<open>tar/tar2sqfs.c: the option tables\<close>

definition long_opts :: "option_entry list" where
  "long_opts =
     [\<lparr>o_name = Some ''compressor'', has_arg = required_argument, o_val = CHR ''c''\<rparr>,
      \<lparr>o_name = Some ''block-size'', has_arg = required_argument, o_val = CHR ''b''\<rparr>,
      \<lparr>o_name = Some ''dev-block-size'', has_arg = required_argument, o_val = CHR ''B''\<rparr>,
      \<lparr>o_name = Some ''defaults'', has_arg = required_argument, o_val = CHR ''d''\<rparr>,
      \<lparr>o_name = Some ''num-jobs'', has_arg = required_argument, o_val = CHR ''j''\<rparr>,
      \<lparr>o_name = Some ''queue-backlog'', has_arg = required_argument, o_val = CHR ''Q''\<rparr>,
      \<lparr>o_name = Some ''comp-extra'', has_arg = required_argument, o_val = CHR ''X''\<rparr>,
      \<lparr>o_name = Some ''no-skip'', has_arg = no_argument, o_val = CHR ''s''\<rparr>,
      \<lparr>o_name = Some ''no-xattr'', has_arg = no_argument, o_val = CHR ''x''\<rparr>,
      \<lparr>o_name = Some ''keep-time'', has_arg = no_argument, o_val = CHR ''k''\<rparr>,
      \<lparr>o_name = Some ''exportable'', has_arg = no_argument, o_val = CHR ''e''\<rparr>,
      \<lparr>o_name = Some ''force'', has_arg = no_argument, o_val = CHR ''f''\<rparr>,
      \<lparr>o_name = Some ''quiet'', has_arg = no_argument, o_val = CHR ''q''\<rparr>,
      \<lparr>o_name = Some ''help'', has_arg = no_argument, o_val = CHR ''h''\<rparr>,
      \<lparr>o_name = Some ''version'', has_arg = no_argument, o_val = CHR ''V''\<rparr>]"

definition short_opts :: string where
  "short_opts = ''c:b:B:d:X:j:Q:sxekfqhV''"


section \<open>tar/tar2sqfs.c: process\_args\<close>

text \<open>
  The file's globals that \<open>process_args\<close> sets. \<open>block_size\<close> and \<open>outmode\<close> are
  \<open>int\<close> (read a 32-bit word with \<open>sint\<close>), \<open>num_jobs\<close> is \<open>unsigned int\<close>,
  \<open>devblksize\<close> and \<open>max_backlog\<close> are \<open>size_t\<close>; \<open>comp_id\<close> is the enum
  \<open>E_SQFS_COMPRESSOR\<close>.
\<close>

record options =
  filename :: "string option"
  block_size :: "32 word"
  devblksize :: "64 word"
  quiet :: bool
  outmode :: "32 word"
  num_jobs :: "32 word"
  max_backlog :: "64 word"
  comp_id :: nat
  comp_extra :: "string option"
  fs_defaults :: "string option"
  dont_skip :: bool
  no_xattr :: bool
  exportable :: bool
  keep_time :: bool

text \<open>
  What \<open>process_args\<close> uses and this repository's files do not define: \<open>strtol\<close>
  of the C library (called with base 0 and no end pointer; its result is a \<open>long\<close>), the
  compressor helpers of the library, and three constants of its headers.
\<close>

record args_env =
  strtol :: "string \<Rightarrow> int"
  compressor_get_default :: nat
  sqfs_compressor_id_from_name :: "string \<Rightarrow> nat option"
  sqfs_compressor_exists :: "nat \<Rightarrow> bool"
  SQFS_DEFAULT_BLOCK_SIZE :: "32 word"
  SQFS_DEVBLK_SIZE :: "64 word"
  SQFS_FILE_OPEN_OVERWRITE :: "32 word"

definition EXIT_SUCCESS :: int where
  "EXIT_SUCCESS = 0"

definition EXIT_FAILURE :: int where
  "EXIT_FAILURE = 1"

text \<open>
  A function of the program ends by a fault (undefined behaviour of the C code), by
  \<open>exit(status)\<close>, or by returning.
\<close>

datatype 'a outcome = Fault fault | Exit int | Returned 'a

text \<open>The initialisers of the globals.\<close>

definition initial_options :: "args_env \<Rightarrow> options" where
  "initial_options env =
     \<lparr>filename = None, block_size = SQFS_DEFAULT_BLOCK_SIZE env,
      devblksize = SQFS_DEVBLK_SIZE env, quiet = False, outmode = 0, num_jobs = 1,
      max_backlog = 0, comp_id = 0, comp_extra = None, fs_defaults = None,
      dont_skip = False, no_xattr = False, exportable = False, keep_time = False\<rparr>"

text \<open>
  The body of the \<open>switch\<close>: \<open>Inl status\<close> is \<open>exit(status)\<close> (also through
  \<open>fail_arg\<close>), \<open>Inr\<close> carries on with the loop. \<open>getopt\<close> and \<open>getopt_long\<close> set
  \<open>optarg\<close> whenever they return an option that takes an argument; \<open>strtol(NULL)\<close> would
  be a fault, written as the argument \<open>[]\<close> never reached below.
\<close>

definition handle_option ::
  "args_env \<Rightarrow> char \<Rightarrow> getopt_state \<Rightarrow> options \<Rightarrow> int + (options \<times> getopt_state)" where
  "handle_option env i st opts =
     (let arg = (case optarg st of Some a \<Rightarrow> a | None \<Rightarrow> []) in
      if i = CHR ''b'' then Inr (opts\<lparr>block_size := word_of_int (strtol env arg)\<rparr>, st)
      else if i = CHR ''B'' then
        (let d = (word_of_int (strtol env arg) :: 64 word) in
         if d < 1024 then Inl EXIT_FAILURE else Inr (opts\<lparr>devblksize := d\<rparr>, st))
      else if i = CHR ''c'' then
        (let found = sqfs_compressor_id_from_name env arg;
             cid = (case found of Some c \<Rightarrow> c | None \<Rightarrow> comp_id opts);
             have_compressor = (found \<noteq> None \<and> sqfs_compressor_exists env cid)
         in if \<not> have_compressor then Inl EXIT_FAILURE
            else Inr (opts\<lparr>comp_id := cid\<rparr>, st))
      else if i = CHR ''j'' then Inr (opts\<lparr>num_jobs := word_of_int (strtol env arg)\<rparr>, st)
      else if i = CHR ''Q'' then Inr (opts\<lparr>max_backlog := word_of_int (strtol env arg)\<rparr>, st)
      else if i = CHR ''X'' then Inr (opts\<lparr>comp_extra := optarg st\<rparr>, st)
      else if i = CHR ''d'' then Inr (opts\<lparr>fs_defaults := optarg st\<rparr>, st)
      else if i = CHR ''x'' then Inr (opts\<lparr>no_xattr := True\<rparr>, st)
      else if i = CHR ''k'' then Inr (opts\<lparr>keep_time := True\<rparr>, st)
      else if i = CHR ''s'' then Inr (opts\<lparr>dont_skip := True\<rparr>, st)
      else if i = CHR ''e'' then Inr (opts\<lparr>exportable := True\<rparr>, st)
      else if i = CHR ''f'' then
        Inr (opts\<lparr>outmode := outmode opts OR SQFS_FILE_OPEN_OVERWRITE env\<rparr>, st)
      else if i = CHR ''q'' then Inr (opts\<lparr>quiet := True\<rparr>, st)
      else if i = CHR ''h'' then Inl EXIT_SUCCESS
      else if i = CHR ''V'' then Inl EXIT_SUCCESS
      else Inl EXIT_FAILURE)"

text \<open>
  The measure of the option loop: the arguments not yet passed by \<open>optind\<close>, then the
  characters left in the option cluster being read.
\<close>

definition args_todo :: "string list \<Rightarrow> getopt_state \<Rightarrow> nat" where
  "args_todo argv st = length argv - optind st"

definition cluster_todo :: "string list \<Rightarrow> getopt_state \<Rightarrow> nat" where
  "cluster_todo argv st =
     (if c_at (current st) 0 = CHR 0x00
      then (if optind st < length argv then length (argv ! optind st) + 1 else 0)
      else length (current st))"

lemma handle_option_not_query:
  "handle_option env i st opts = Inr r \<Longrightarrow> i \<noteq> CHR ''?''"
  by (auto simp: handle_option_def Let_def split: if_splits)

lemma handle_option_state:
  "handle_option env i st opts = Inr (opts', st') \<Longrightarrow> st' = st"
  by (auto simp: handle_option_def Let_def split: if_splits)

lemma c_at_nonempty: "c_at s 0 \<noteq> CHR 0x00 \<Longrightarrow> s \<noteq> []"
  by (auto simp: c_at_def)

lemma getopt_progress:
  assumes "getopt argv optstr st = (Some c, st')" and "c \<noteq> CHR ''?''"
  shows "args_todo argv st' < args_todo argv st \<or>
         (args_todo argv st' = args_todo argv st \<and> cluster_todo argv st' < cluster_todo argv st)"
proof (cases "c_at (current st) 0 = CHR 0x00")
  case True
  with assms show ?thesis
    unfolding getopt_def args_todo_def cluster_todo_def Let_def
    by (auto split: if_splits option.splits dest: c_at_nonempty)
next
  case False
  then have "current st \<noteq> []" by (rule c_at_nonempty)
  with False assms show ?thesis
    unfolding getopt_def args_todo_def cluster_todo_def Let_def
    by (auto split: if_splits option.splits dest: c_at_nonempty)
qed

lemma getopt_long_progress:
  assumes "getopt_long argv optstr longopts st = Inr (Some c, st')" and "c \<noteq> CHR ''?''"
  shows "args_todo argv st' < args_todo argv st \<or>
         (args_todo argv st' = args_todo argv st \<and> cluster_todo argv st' < cluster_todo argv st)"
proof (cases "optind st \<ge> length argv \<or> c_at (argv ! optind st) 0 \<noteq> CHR ''-'' \<or>
              c_at (argv ! optind st) 1 \<noteq> CHR ''-'' \<or> c_at (argv ! optind st) 2 = CHR 0x00")
  case True
  with assms(1) have "getopt argv optstr st = (Some c, st')"
    unfolding getopt_long_def Let_def by (simp split: if_splits)
  with assms(2) show ?thesis using getopt_progress by blast
next
  case False
  with assms have "args_todo argv st' < args_todo argv st"
    unfolding getopt_long_def Let_def args_todo_def
    by (auto split: if_splits sum.splits)
  then show ?thesis ..
qed

lemma loop_progress:
  assumes "getopt_long argv optstr longopts st = Inr (Some i, st')"
    and "handle_option env i st' opts = Inr (opts', st'')"
  shows "args_todo argv st'' < args_todo argv st \<or>
         (args_todo argv st'' = args_todo argv st \<and> cluster_todo argv st'' < cluster_todo argv st)"
proof -
  from assms(2) have "st'' = st'" by (rule handle_option_state)
  moreover from assms(2) have "i \<noteq> CHR ''?''" by (rule handle_option_not_query)
  ultimately show ?thesis using assms(1) getopt_long_progress by blast
qed

function process_args_loop ::
  "args_env \<Rightarrow> string list \<Rightarrow> getopt_state \<Rightarrow> options \<Rightarrow> (options \<times> getopt_state) outcome" where
  "process_args_loop env argv st opts =
     (case getopt_long argv short_opts long_opts st of
        Inl f \<Rightarrow> Fault f
      | Inr (None, st') \<Rightarrow> Returned (opts, st')
      | Inr (Some i, st') \<Rightarrow>
          (case handle_option env i st' opts of
             Inl status \<Rightarrow> Exit status
           | Inr (opts', st'') \<Rightarrow> process_args_loop env argv st'' opts'))"
  by pat_completeness auto
termination
proof (relation "measures [\<lambda>(env, argv, st, opts). args_todo argv st,
                            \<lambda>(env, argv, st, opts). cluster_todo argv st]", goal_cases)
  case 1
  show ?case by simp
next
  case 2
  then show ?case
    using loop_progress by fastforce
qed

declare process_args_loop.simps [simp del]

definition process_args :: "args_env \<Rightarrow> string list \<Rightarrow> (options \<times> getopt_state) outcome" where
  "process_args env argv =
     (case process_args_loop env argv getopt_init
             ((initial_options env)\<lparr>comp_id := compressor_get_default env\<rparr>) of
        Fault f \<Rightarrow> Fault f
      | Exit status \<Rightarrow> Exit status
      | Returned (opts, st) \<Rightarrow>
          (let opts1 = (if num_jobs opts < 1 then opts\<lparr>num_jobs := 1\<rparr> else opts);
               opts2 = (if max_backlog opts1 < 1
                        then opts1\<lparr>max_backlog := ucast (10 * num_jobs opts1)\<rparr> else opts1)
           in if comp_extra opts2 = Some ''help'' then Exit EXIT_SUCCESS
              else if optind st \<ge> length argv then Exit EXIT_FAILURE
              else if optind st + 1 < length argv then Exit EXIT_FAILURE
              else Returned (opts2\<lparr>filename := Some (argv ! optind st)\<rparr>,
                             st\<lparr>optind := optind st + 1\<rparr>)))"


text \<open>
  An instance of what \<open>process_args\<close> takes from outside, for running it on concrete
  command lines: \<open>strtol\<close> on a string of decimal digits, one compressor, and the
  constants with the defaults of the spec (blocks of 128 KiB, device blocks of 4096).
\<close>

definition strtol_digits :: "string \<Rightarrow> int" where
  "strtol_digits s =
     foldl (\<lambda>acc c. 10 * acc + (int (of_char c) - 48)) 0
           (takeWhile (\<lambda>c. (48::nat) \<le> of_char c \<and> of_char c \<le> (57::nat)) s)"

definition example_args_env :: args_env where
  "example_args_env =
     \<lparr>strtol = strtol_digits, compressor_get_default = 1,
      sqfs_compressor_id_from_name = (\<lambda>n. if n = ''gzip'' then Some 1 else None),
      sqfs_compressor_exists = (\<lambda>c. c = 1),
      SQFS_DEFAULT_BLOCK_SIZE = 131072, SQFS_DEVBLK_SIZE = 4096,
      SQFS_FILE_OPEN_OVERWRITE = 1\<rparr>"


section \<open>tar/tar2sqfs.c: reading the archive\<close>

type_synonym byte = "8 word"

text \<open>
  The decoded header of lib/tar (\<open>tar_header_decoded_t\<close>): \<open>sparse\<close> and \<open>xattr\<close> are
  linked lists (NULL is the empty list), \<open>name\<close> and \<open>link_target\<close> are strings or NULL.
  The fields \<open>offset\<close>, \<open>count\<close> of \<open>sqfs_sparse_map_t\<close> are \<open>sp_offset\<close>,
  \<open>sp_count\<close>; \<open>key\<close>, \<open>value\<close> of \<open>tar_xattr_t\<close> are \<open>x_key\<close>, \<open>x_value\<close>.
\<close>

record sparse_map =
  sp_offset :: "64 word"
  sp_count :: "64 word"

record stat =
  st_mode :: "32 word"
  st_uid :: "32 word"
  st_gid :: "32 word"
  st_size :: "64 word"
  st_mtime :: "64 word"

record tar_xattr =
  x_key :: string
  x_value :: string

record tar_header_decoded =
  sb :: stat
  name :: "string option"
  link_target :: "string option"
  sparse :: "sparse_map list"
  actual_size :: "64 word"
  record_size :: "64 word"
  unknown_record :: bool
  xattr :: "tar_xattr list"

definition S_IFMT :: "32 word" where
  "S_IFMT = 0xF000"

definition S_IFREG :: "32 word" where
  "S_IFREG = 0x8000"

definition S_ISREG :: "32 word \<Rightarrow> bool" where
  "S_ISREG m = (m AND S_IFMT = S_IFREG)"

text \<open>
  The process reads the archive from \<open>stdin\<close> (the bytes not yet read) and writes lines
  to \<open>stderr\<close> and \<open>stdout\<close>; \<open>world\<close> is everything else the functions work on
  through pointers: the filesystem tree, the data writer and the image it writes to.
\<close>

record 'w tar_state =
  stdin :: "byte list"
  stderr :: "string list"
  stdout :: "string list"
  world :: 'w

text \<open>
  What the functions below call and this repository's files do not define. \<open>'n\<close> is a
  pointer to a tree node. A function that returns \<open>int\<close> gives its result with the
  world it leaves; \<open>fstree_add_generic\<close> returns the node or NULL. \<open>canonicalize_name\<close>
  rewrites its buffer in place. \<open>defaults_mtime\<close> reads \<open>fs->defaults.st_mtime\<close> and
  \<open>file_size\<close> reads \<open>size\<close> of the node's \<open>data.file\<close>. The data writer is handed
  the bytes that its input file, a window on \<open>stdin\<close>, holds;
  \<open>sqfs_get_stdin_file\<close> gives such a window or NULL.
\<close>

record ('w, 'n) tar_env =
  read_header :: "byte list \<Rightarrow> int \<times> tar_header_decoded \<times> byte list"
  canonicalize_name :: "string \<Rightarrow> int \<times> string"
  fstree_add_generic :: "'w \<Rightarrow> string \<Rightarrow> stat \<Rightarrow> string option \<Rightarrow> 'n option \<times> 'w"
  sqfs_has_xattr :: "string \<Rightarrow> bool"
  fstree_add_xattr :: "'w \<Rightarrow> 'n \<Rightarrow> string \<Rightarrow> string \<Rightarrow> int \<times> 'w"
  defaults_mtime :: "'w \<Rightarrow> 64 word"
  file_size :: "'w \<Rightarrow> 'n \<Rightarrow> 64 word"
  sqfs_get_stdin_file :: "64 word \<Rightarrow> bool"
  write_data_from_file :: "'w \<Rightarrow> 'n \<Rightarrow> byte list \<Rightarrow> int \<times> 'w"
  write_data_from_file_condensed :: "'w \<Rightarrow> 'n \<Rightarrow> byte list \<Rightarrow> sparse_map list \<Rightarrow> int \<times> 'w"

subsection \<open>Consuming the stream\<close>

text \<open>
  Modelled from the spec: \<open>skip_padding\<close>, \<open>skip_entry\<close> and the reads of the window on
  \<open>stdin\<close> are code of lib/tar and lib/sqfs that is not among the files. The spec (4.3,
  body consumption): each file body is followed by padding to the next 512-byte
  boundary; after each file the decoder advances past that padding; on skip, it
  consumes the same padded length. Reading or skipping more bytes than the stream holds
  fails.
\<close>

definition skip_bytes :: "byte list \<Rightarrow> nat \<Rightarrow> byte list option" where
  "skip_bytes input n = (if n \<le> length input then Some (drop n input) else None)"

definition padded_size :: "64 word \<Rightarrow> nat" where
  "padded_size sz = (if unat sz mod 512 = 0 then unat sz
                     else unat sz - unat sz mod 512 + 512)"

definition skip_padding :: "byte list \<Rightarrow> 64 word \<Rightarrow> byte list option" where
  "skip_padding input sz =
     (if unat sz mod 512 \<noteq> 0 then skip_bytes input (512 - unat sz mod 512)
      else Some input)"

definition skip_entry :: "byte list \<Rightarrow> 64 word \<Rightarrow> byte list option" where
  "skip_entry input sz = skip_bytes input (padded_size sz)"

definition read_window :: "byte list \<Rightarrow> 64 word \<Rightarrow> (byte list \<times> byte list) option" where
  "read_window input sz =
     (if unat sz \<le> length input
      then Some (take (unat sz) input, drop (unat sz) input) else None)"

subsection \<open>write\_file, copy\_xattr, create\_node\_and\_repack\_data\<close>

definition write_file ::
  "('w, 'n, 'z) tar_env_scheme \<Rightarrow> tar_header_decoded \<Rightarrow> 'n \<Rightarrow> 'w tar_state
     \<Rightarrow> int \<times> 'w tar_state" where
  "write_file env hdr fi st =
     (if sparse hdr \<noteq> [] then
        (let total = sum_list (map sp_count (sparse hdr)) in
         if \<not> sqfs_get_stdin_file env total
         then (-1, st\<lparr>stderr := stderr st @ [''packing files'']\<rparr>)
         else
           (case read_window (stdin st) total of
              None \<Rightarrow> (-1, st\<lparr>stdin := []\<rparr>)
            | Some (body, rest) \<Rightarrow>
                (case write_data_from_file_condensed env (world st) fi body (sparse hdr) of
                   (ret, w) \<Rightarrow>
                     if ret \<noteq> 0 then (-1, st\<lparr>stdin := rest, world := w\<rparr>)
                     else
                       (case skip_padding rest (record_size hdr) of
                          None \<Rightarrow> (-1, st\<lparr>stdin := [], world := w\<rparr>)
                        | Some rest' \<Rightarrow> (0, st\<lparr>stdin := rest', world := w\<rparr>)))))
      else
        (let sz = file_size env (world st) fi in
         if \<not> sqfs_get_stdin_file env sz
         then (-1, st\<lparr>stderr := stderr st @ [''packing files'']\<rparr>)
         else
           (case read_window (stdin st) sz of
              None \<Rightarrow> (-1, st\<lparr>stdin := []\<rparr>)
            | Some (body, rest) \<Rightarrow>
                (case write_data_from_file env (world st) fi body of
                   (ret, w) \<Rightarrow>
                     if ret \<noteq> 0 then (-1, st\<lparr>stdin := rest, world := w\<rparr>)
                     else
                       (case skip_padding rest (file_size env w fi) of
                          None \<Rightarrow> (-1, st\<lparr>stdin := [], world := w\<rparr>)
                        | Some rest' \<Rightarrow> (0, st\<lparr>stdin := rest', world := w\<rparr>))))))"

fun copy_xattr ::
  "('w, 'n, 'z) tar_env_scheme \<Rightarrow> options \<Rightarrow> 'n \<Rightarrow> tar_xattr list \<Rightarrow> 'w tar_state
     \<Rightarrow> int \<times> 'w tar_state" where
  "copy_xattr env opts node [] st = (0, st)"
| "copy_xattr env opts node (x # xs) st =
     (if \<not> sqfs_has_xattr env (x_key x) then
        (if dont_skip opts
         then (-1, st\<lparr>stderr := stderr st @
                        [''Cannot encode xattr key '' @ x_key x @ '' in squashfs'']\<rparr>)
         else copy_xattr env opts node xs
                (st\<lparr>stderr := stderr st @
                   [''WARNING: squashfs does not support xattr prefix of '' @ x_key x]\<rparr>))
      else
        (case fstree_add_xattr env (world st) node (x_key x) (x_value x) of
           (ret, w) \<Rightarrow>
             if ret \<noteq> 0 then (-1, st\<lparr>world := w\<rparr>)
             else copy_xattr env opts node xs (st\<lparr>world := w\<rparr>)))"

text \<open>
  \<open>hdr->name\<close> is not NULL when \<open>create_node_and_repack_data\<close> is called; the model
  reads a NULL name as the empty string there.
\<close>

definition name_str :: "tar_header_decoded \<Rightarrow> string" where
  "name_str hdr = (case name hdr of None \<Rightarrow> [] | Some n \<Rightarrow> n)"

definition create_node_and_repack_data ::
  "('w, 'n, 'z) tar_env_scheme \<Rightarrow> options \<Rightarrow> tar_header_decoded \<Rightarrow> 'w tar_state
     \<Rightarrow> int \<times> 'w tar_state" where
  "create_node_and_repack_data env opts hdr0 st =
     (let hdr = (if \<not> keep_time opts
                 then hdr0\<lparr>sb := (sb hdr0)\<lparr>st_mtime := defaults_mtime env (world st)\<rparr>\<rparr>
                 else hdr0)
      in case fstree_add_generic env (world st) (name_str hdr) (sb hdr) (link_target hdr) of
           (None, w) \<Rightarrow> (-1, st\<lparr>world := w, stderr := stderr st @ [name_str hdr]\<rparr>)
         | (Some node, w) \<Rightarrow>
             (let st1 = st\<lparr>world := w\<rparr>;
                  st2 = (if \<not> quiet opts
                         then st1\<lparr>stdout := stdout st1 @ [''Packing '' @ name_str hdr]\<rparr>
                         else st1);
                  (r3, st3) = (if \<not> no_xattr opts then copy_xattr env opts node (xattr hdr) st2
                               else (0, st2))
              in if r3 \<noteq> 0 then (-1, st3)
                 else if S_ISREG (st_mode (sb hdr)) then
                   (case write_file env hdr node st3 of
                      (r4, st4) \<Rightarrow> if r4 \<noteq> 0 then (-1, st4) else (0, st4))
                 else (0, st3)))"

subsection \<open>process\_tar\_ball\<close>

text \<open>
  The check of the sparse map: the loop over the list with its variables \<open>offset\<close> and
  \<open>count\<close>; the result is whether it left by \<open>break\<close> (with \<open>skip\<close> set), and \<open>count\<close>.
\<close>

fun sparse_check :: "sparse_map list \<Rightarrow> 64 word \<Rightarrow> 64 word \<Rightarrow> bool \<times> 64 word" where
  "sparse_check [] offset count = (False, count)"
| "sparse_check (m # ms) offset count =
     (if sp_offset m < offset then (True, count)
      else sparse_check ms (sp_offset m + sp_count m) (count + sp_count m))"

definition shown_name :: "string option \<Rightarrow> string" where
  "shown_name n = (case n of None \<Rightarrow> ''(null)'' | Some s \<Rightarrow> s)"

text \<open>
  The three checks of a decoded header, from \<open>skip = false\<close> to the test of \<open>skip\<close>.
  Each takes and gives \<open>skip\<close>, the header (its name is canonicalised in place by the
  first check) and the state with the diagnostics written.
\<close>

definition check_name ::
  "('w, 'n, 'z) tar_env_scheme \<Rightarrow> tar_header_decoded \<Rightarrow> 'w tar_state
     \<Rightarrow> bool \<times> tar_header_decoded \<times> 'w tar_state" where
  "check_name env hdr st =
     (case name hdr of
        None \<Rightarrow>
          (True, hdr,
           st\<lparr>stderr := stderr st @
                 [''skipping '' @ shown_name (name hdr) @ '' (invalid name)'']\<rparr>)
      | Some n \<Rightarrow>
          (case canonicalize_name env n of
             (r, n') \<Rightarrow>
               if r \<noteq> 0
               then (True, hdr\<lparr>name := Some n'\<rparr>,
                     st\<lparr>stderr := stderr st @
                           [''skipping '' @ shown_name (Some n') @ '' (invalid name)'']\<rparr>)
               else (False, hdr\<lparr>name := Some n'\<rparr>, st)))"

definition check_unknown ::
  "bool \<times> tar_header_decoded \<times> 'w tar_state \<Rightarrow> bool \<times> tar_header_decoded \<times> 'w tar_state" where
  "check_unknown c =
     (case c of
        (skip, hdr, st) \<Rightarrow>
          if \<not> skip \<and> unknown_record hdr
          then (True, hdr,
                st\<lparr>stderr := stderr st @ [shown_name (name hdr) @ '': unknown entry type'']\<rparr>)
          else (skip, hdr, st))"

definition check_sparse ::
  "bool \<times> tar_header_decoded \<times> 'w tar_state \<Rightarrow> bool \<times> tar_header_decoded \<times> 'w tar_state" where
  "check_sparse c =
     (case c of
        (skip, hdr, st) \<Rightarrow>
          if \<not> skip \<and> sparse hdr \<noteq> [] then
            (case sparse_check (sparse hdr) (sp_offset (hd (sparse hdr))) 0 of
               (broke, count) \<Rightarrow>
                 if broke \<or> count \<noteq> record_size hdr
                 then (True, hdr,
                       st\<lparr>stderr := stderr st @
                             [shown_name (name hdr) @ '': broken sparse file layout)'']\<rparr>)
                 else (False, hdr, st))
          else (skip, hdr, st))"

definition check_record ::
  "('w, 'n, 'z) tar_env_scheme \<Rightarrow> tar_header_decoded \<Rightarrow> 'w tar_state
     \<Rightarrow> bool \<times> tar_header_decoded \<times> 'w tar_state" where
  "check_record env hdr st = check_sparse (check_unknown (check_name env hdr st))"

text \<open>
  One turn of the loop \<open>for (;;)\<close>: it ends the function with a result (\<open>Inl\<close>) or goes
  on to the next turn (\<open>Inr\<close>).
\<close>

definition process_tar_record ::
  "('w, 'n, 'z) tar_env_scheme \<Rightarrow> options \<Rightarrow> 'w tar_state
     \<Rightarrow> (int \<times> 'w tar_state) + 'w tar_state" where
  "process_tar_record env opts st =
     (case read_header env (stdin st) of
        (ret, hdr0, rest) \<Rightarrow>
          if ret > 0 then Inl (0, st\<lparr>stdin := rest\<rparr>)
          else if ret < 0 then Inl (-1, st\<lparr>stdin := rest\<rparr>)
          else
            (case check_record env hdr0 (st\<lparr>stdin := rest\<rparr>) of
               (skip, hdr, st3) \<Rightarrow>
                 if skip then
                   (if dont_skip opts then Inl (-1, st3)
                    else (case skip_entry (stdin st3) (st_size (sb hdr)) of
                            None \<Rightarrow> Inl (-1, st3\<lparr>stdin := []\<rparr>)
                          | Some rest' \<Rightarrow> Inr (st3\<lparr>stdin := rest'\<rparr>)))
                 else
                   (case create_node_and_repack_data env opts hdr st3 of
                      (r, st4) \<Rightarrow> if r \<noteq> 0 then Inl (-1, st4) else Inr st4)))"

text \<open>
  The loop ends when \<open>read_header\<close> reports the end of the archive or an error; whether it
  does is up to \<open>read_header\<close>, so the loop is a partial function: \<open>None\<close> is a run that
  does not return.
\<close>

partial_function (option) process_tar_ball ::
  "('w, 'n, 'z) tar_env_scheme \<Rightarrow> options \<Rightarrow> 'w tar_state \<Rightarrow> (int \<times> 'w tar_state) option" where
  "process_tar_ball env opts st =
     (case process_tar_record env opts st of
        Inl result \<Rightarrow> Some result
      | Inr st' \<Rightarrow> process_tar_ball env opts st')"


section \<open>tar/tar2sqfs.c: main\<close>

text \<open>
  The fields of \<open>sqfs_super_t\<close> that the files of this repository assign. Sizes and
  offsets within the image are \<open>sqfs_u64\<close> in C and natural numbers here.
\<close>

record sqfs_super =
  inode_count :: "32 word"
  flags :: "16 word"
  bytes_used :: nat
  inode_table_start :: nat
  directory_table_start :: nat
  root_inode_ref :: "64 word"
  id_table_start :: nat
  id_count :: "16 word"

text \<open>
  The world of \<open>main\<close>: the bytes of the output file, the superblock, and in \<open>priv\<close> the
  objects of the library (compressor, tree, data writer, tables).
\<close>

record 'x sqfs_world =
  outfile :: "byte list"
  super :: sqfs_super
  priv :: 'x

text \<open>
  The functions of the library that \<open>main\<close> calls and the files do not define, with the
  arguments passed by value. \<open>lib\<close> gives the result of a call and the world it leaves;
  for a function that returns a pointer the result \<open>0\<close> is NULL; a \<open>void\<close> function
  has the result \<open>0\<close>.
\<close>

datatype lib_call =
    Compressor_cfg_init_options nat "32 word" "string option"
  | Sqfs_open_file "string option" "32 word"
  | Fstree_init "32 word" "string option"
  | Sqfs_compressor_create
  | Sqfs_super_init "32 word" nat
  | Write_options
  | Data_writer_create "64 word" "32 word" "64 word"
  | Sqfs_id_table_create
  | Data_writer_sync
  | Tree_node_sort_recursive
  | Fstree_gen_inode_table
  | Fstree_xattr_deduplicate
  | Sqfs_serialize_fstree
  | Data_writer_write_fragment_table
  | Write_export_table
  | Sqfs_id_table_write
  | Write_xattr
  | Fstree_gen_file_list
  | Sqfs_print_statistics

record ('x, 'n) main_env = "('x sqfs_world, 'n) tar_env" +
  args :: args_env
  lib :: "lib_call \<Rightarrow> 'x sqfs_world \<Rightarrow> int \<times> 'x sqfs_world"
  inode_tbl_size :: "'x sqfs_world \<Rightarrow> 64 word"
  super_encode :: "sqfs_super \<Rightarrow> byte list"
  sink_write_fails :: "'x sqfs_world \<Rightarrow> nat \<Rightarrow> byte list \<Rightarrow> bool"
  SQFS_FLAG_COMPRESSOR_OPTIONS :: "16 word"

subsection \<open>The byte sink, the superblock record and the padding\<close>

text \<open>
  Modelled from the spec: the output file object, \<open>sqfs_super_write\<close> and \<open>padd_sqfs\<close>
  are code of the library that is not among the files. The spec (4.2): the sink has
  \<open>write(offset, bytes)\<close> and \<open>get_size()\<close>, random access. The spec (3): the superblock
  is a fixed 96-byte record at offset 0; (4.9, steps 10 and 11): the superblock is
  rewritten at offset 0, and the image is padded to a multiple of \<open>devblksize\<close> with zero
  bytes. \<open>padd_sqfs\<close> is called with the size to pad from and appends the padding at
  the end of the file. A write can fail, which \<open>sink_write_fails\<close> decides.
\<close>

definition write_at :: "byte list \<Rightarrow> nat \<Rightarrow> byte list \<Rightarrow> byte list" where
  "write_at file off bs =
     take off file @ replicate (off - length file) 0 @ bs @ drop (off + length bs) file"

definition get_size :: "byte list \<Rightarrow> nat" where
  "get_size file = length file"

definition sqfs_super_write ::
  "('x, 'n, 'z) main_env_scheme \<Rightarrow> 'x sqfs_world \<Rightarrow> int \<times> 'x sqfs_world" where
  "sqfs_super_write env w =
     (let record = super_encode env (super w) in
      if sink_write_fails env w 0 record then (-1, w)
      else (0, w\<lparr>outfile := write_at (outfile w) 0 record\<rparr>))"

definition padd_sqfs ::
  "('x, 'n, 'z) main_env_scheme \<Rightarrow> 'x sqfs_world \<Rightarrow> nat \<Rightarrow> nat \<Rightarrow> int \<times> 'x sqfs_world" where
  "padd_sqfs env w sz blocksize =
     (let padd_sz = sz mod blocksize in
      if padd_sz = 0 then (0, w)
      else
        (let zeros = replicate (blocksize - padd_sz) 0 in
         if sink_write_fails env w (get_size (outfile w)) zeros then (-1, w)
         else (0, w\<lparr>outfile := write_at (outfile w) (get_size (outfile w)) zeros\<rparr>)))"

subsection \<open>The statements of main\<close>

text \<open>
  From \<open>fstree_init\<close> on, \<open>main\<close> is a sequence of statements, each of which either
  goes on or jumps to one of the labels at the end (\<open>goto\<close>). A statement is a function
  from the state to a result and the state it leaves: a result other than \<open>0\<close> is the
  jump to the statement's label.
\<close>

datatype label = L_out | L_out_data | L_out_cmp | L_out_fs | L_out_fd

type_synonym 's stmt = "'s \<Rightarrow> (int \<times> 's) option"

fun run_stmts :: "(label \<times> 's stmt) list \<Rightarrow> 's \<Rightarrow> ((label \<times> 's) + 's) option" where
  "run_stmts [] s = Some (Inr s)"
| "run_stmts ((l, f) # fs) s =
     (case f s of
        None \<Rightarrow> None
      | Some (r, s') \<Rightarrow> if r \<noteq> 0 then Some (Inl (l, s')) else run_stmts fs s')"

text \<open>\<open>if (f(...)) goto label\<close> for a function of the library that returns \<open>int\<close>.\<close>

definition lib_stmt ::
  "('x, 'n, 'z) main_env_scheme \<Rightarrow> lib_call \<Rightarrow> 'x sqfs_world tar_state stmt" where
  "lib_stmt env c st = (case lib env c (world st) of (r, w) \<Rightarrow> Some (r, st\<lparr>world := w\<rparr>))"

text \<open>\<open>p = f(...); if (p == NULL) goto label\<close> for one that returns a pointer.\<close>

definition ptr_stmt ::
  "('x, 'n, 'z) main_env_scheme \<Rightarrow> lib_call \<Rightarrow> 'x sqfs_world tar_state stmt" where
  "ptr_stmt env c st =
     (case lib env c (world st) of
        (p, w) \<Rightarrow> Some (if p = 0 then -1 else 0, st\<lparr>world := w\<rparr>))"

text \<open>A call of a \<open>void\<close> function.\<close>

definition void_stmt ::
  "('x, 'n, 'z) main_env_scheme \<Rightarrow> lib_call \<Rightarrow> 'x sqfs_world tar_state stmt" where
  "void_stmt env c st = (case lib env c (world st) of (r, w) \<Rightarrow> Some (0, st\<lparr>world := w\<rparr>))"

definition compressor_create_stmt ::
  "('x, 'n, 'z) main_env_scheme \<Rightarrow> 'x sqfs_world tar_state stmt" where
  "compressor_create_stmt env st =
     (case lib env Sqfs_compressor_create (world st) of
        (p, w) \<Rightarrow>
          if p = 0
          then Some (-1, st\<lparr>world := w, stderr := stderr st @ [''Error creating compressor'']\<rparr>)
          else Some (0, st\<lparr>world := w\<rparr>))"

definition super_init_stmt ::
  "('x, 'n, 'z) main_env_scheme \<Rightarrow> options \<Rightarrow> 'x sqfs_world tar_state stmt" where
  "super_init_stmt env opts st =
     lib_stmt env (Sqfs_super_init (block_size opts) (comp_id opts)) st"

definition super_write_stmt ::
  "('x, 'n, 'z) main_env_scheme \<Rightarrow> 'x sqfs_world tar_state stmt" where
  "super_write_stmt env st =
     (case sqfs_super_write env (world st) of (r, w) \<Rightarrow> Some (r, st\<lparr>world := w\<rparr>))"

text \<open>
  \<open>ret = cmp->write_options(cmp, outfile); if (ret < 0) goto out_cmp;
  if (ret > 0) super.flags |= SQFS_FLAG_COMPRESSOR_OPTIONS;\<close>
\<close>

definition write_options_stmt ::
  "('x, 'n, 'z) main_env_scheme \<Rightarrow> 'x sqfs_world tar_state stmt" where
  "write_options_stmt env st =
     (case lib env Write_options (world st) of
        (ret, w) \<Rightarrow>
          if ret < 0 then Some (-1, st\<lparr>world := w\<rparr>)
          else if ret > 0
          then Some (0, st\<lparr>world :=
                 w\<lparr>super := (super w)\<lparr>flags := flags (super w) OR SQFS_FLAG_COMPRESSOR_OPTIONS env\<rparr>\<rparr>\<rparr>)
          else Some (0, st\<lparr>world := w\<rparr>))"

definition process_tar_ball_stmt ::
  "('x, 'n, 'z) main_env_scheme \<Rightarrow> options \<Rightarrow> 'x sqfs_world tar_state stmt" where
  "process_tar_ball_stmt env opts st = process_tar_ball env opts st"

text \<open>\<open>super.inode_count = fs.inode_tbl_size - 2;\<close>\<close>

definition inode_count_stmt ::
  "('x, 'n, 'z) main_env_scheme \<Rightarrow> 'x sqfs_world tar_state stmt" where
  "inode_count_stmt env st =
     Some (0, st\<lparr>world := (world st)\<lparr>super := (super (world st))
                   \<lparr>inode_count := ucast (inode_tbl_size env (world st) - 2)\<rparr>\<rparr>\<rparr>)"

text \<open>\<open>if (exportable) { if (write_export_table(...)) goto out; }\<close>\<close>

definition export_table_stmt ::
  "('x, 'n, 'z) main_env_scheme \<Rightarrow> options \<Rightarrow> 'x sqfs_world tar_state stmt" where
  "export_table_stmt env opts st =
     (if exportable opts then lib_stmt env Write_export_table st else Some (0, st))"

text \<open>\<open>super.bytes_used = outfile->get_size(outfile);\<close>\<close>

definition bytes_used_stmt :: "'x sqfs_world tar_state stmt" where
  "bytes_used_stmt st =
     Some (0, st\<lparr>world := (world st)\<lparr>super := (super (world st))
                   \<lparr>bytes_used := get_size (outfile (world st))\<rparr>\<rparr>\<rparr>)"

text \<open>\<open>if (padd_sqfs(outfile, super.bytes_used, devblksize)) goto out;\<close>\<close>

definition padd_stmt ::
  "('x, 'n, 'z) main_env_scheme \<Rightarrow> options \<Rightarrow> 'x sqfs_world tar_state stmt" where
  "padd_stmt env opts st =
     (case padd_sqfs env (world st) (bytes_used (super (world st))) (unat (devblksize opts)) of
        (r, w) \<Rightarrow> Some (r, st\<lparr>world := w\<rparr>))"

text \<open>\<open>if (!quiet) { fstree_gen_file_list(&fs); sqfs_print_statistics(...); }\<close>\<close>

definition statistics_stmt ::
  "('x, 'n, 'z) main_env_scheme \<Rightarrow> options \<Rightarrow> 'x sqfs_world tar_state stmt" where
  "statistics_stmt env opts st =
     (if \<not> quiet opts
      then Some (0, st\<lparr>world := snd (lib env Sqfs_print_statistics
                                        (snd (lib env Fstree_gen_file_list (world st))))\<rparr>)
      else Some (0, st))"

text \<open>The statements from \<open>fstree_init\<close> to the call of \<open>write_xattr\<close>.\<close>

definition main_build ::
  "('x, 'n, 'z) main_env_scheme \<Rightarrow> options \<Rightarrow> (label \<times> 'x sqfs_world tar_state stmt) list" where
  "main_build env opts =
     [(L_out_fd, lib_stmt env (Fstree_init (block_size opts) (fs_defaults opts))),
      (L_out_fs, compressor_create_stmt env),
      (L_out_cmp, super_init_stmt env opts),
      (L_out_cmp, super_write_stmt env),
      (L_out_cmp, write_options_stmt env),
      (L_out_cmp, ptr_stmt env
         (Data_writer_create (devblksize opts) (num_jobs opts) (max_backlog opts))),
      (L_out_data, ptr_stmt env Sqfs_id_table_create),
      (L_out, process_tar_ball_stmt env opts),
      (L_out, lib_stmt env Data_writer_sync),
      (L_out, void_stmt env Tree_node_sort_recursive),
      (L_out, lib_stmt env Fstree_gen_inode_table),
      (L_out, inode_count_stmt env),
      (L_out, void_stmt env Fstree_xattr_deduplicate),
      (L_out, lib_stmt env Sqfs_serialize_fstree),
      (L_out, lib_stmt env Data_writer_write_fragment_table),
      (L_out, export_table_stmt env opts),
      (L_out, lib_stmt env Sqfs_id_table_write),
      (L_out, lib_stmt env Write_xattr)]"

text \<open>The statements from \<open>super.bytes_used = ...\<close> to the end.\<close>

definition main_finish ::
  "('x, 'n, 'z) main_env_scheme \<Rightarrow> options \<Rightarrow> (label \<times> 'x sqfs_world tar_state stmt) list" where
  "main_finish env opts =
     [(L_out, bytes_used_stmt),
      (L_out, super_write_stmt env),
      (L_out, padd_stmt env opts),
      (L_out, statistics_stmt env opts)]"

text \<open>
  \<open>main\<close>: the local variable \<open>status\<close> is initialised at its declaration and assigned
  once more before the label \<open>out\<close>; the value returned is \<open>status\<close> for a run that
  reaches the labels, by a jump or by running to the end. The \<open>destroy\<close> and \<open>cleanup\<close>
  calls at the labels release the objects and end the model's run.
\<close>

definition main_status_init :: int where
  "main_status_init = EXIT_SUCCESS"

definition main ::
  "('x, 'n, 'z) main_env_scheme \<Rightarrow> string list \<Rightarrow> 'x sqfs_world tar_state
     \<Rightarrow> (int \<times> 'x sqfs_world tar_state) outcome option" where
  "main env argv st0 =
     (case process_args (args env) argv of
        Fault f \<Rightarrow> Some (Fault f)
      | Exit status \<Rightarrow> Some (Exit status)
      | Returned (opts, gst) \<Rightarrow>
          (let st = st0\<lparr>stderr := stderr st0 @ opt_stderr gst\<rparr>;
               status = main_status_init
           in case lib env (Compressor_cfg_init_options (comp_id opts) (block_size opts)
                              (comp_extra opts)) (world st) of
                (r, w) \<Rightarrow>
                  if r \<noteq> 0 then Some (Returned (EXIT_FAILURE, st\<lparr>world := w\<rparr>))
                  else
                    (case lib env (Sqfs_open_file (filename opts) (outmode opts)) w of
                       (p, w') \<Rightarrow>
                         if p = 0
                         then Some (Returned (EXIT_FAILURE,
                                 st\<lparr>world := w', stderr := stderr st @ [shown_name (filename opts)]\<rparr>))
                         else
                           (case run_stmts (main_build env opts @ main_finish env opts)
                                   (st\<lparr>world := w'\<rparr>) of
                              None \<Rightarrow> None
                            | Some (Inl (l, s)) \<Rightarrow> Some (Returned (status, s))
                            | Some (Inr s) \<Rightarrow> Some (Returned (EXIT_SUCCESS, s))))))"


section \<open>An instance for concrete runs\<close>

text \<open>
  A small instance of what the program takes from outside, to run the definitions above
  on concrete inputs. Its \<open>read_header\<close> decodes a block of 512 bytes by its first
  byte: the byte \<open>k\<close> stands for the \<open>k\<close>-th header of a given list, any other byte or
  the end of the stream is the end of the archive, and a stream that stops within a
  block is an error. Names are canonical unless empty; the tree, the tables and the
  compressor keep no state; a call of the library succeeds and writes nothing, except
  that the data writer appends the file data it is given to the image; the superblock
  record is 96 bytes that start with the low byte of \<open>bytes_used\<close>.
\<close>

definition empty_header :: tar_header_decoded where
  "empty_header =
     \<lparr>sb = \<lparr>st_mode = 0, st_uid = 0, st_gid = 0, st_size = 0, st_mtime = 0\<rparr>,
      name = None, link_target = None, sparse = [], actual_size = 0, record_size = 0,
      unknown_record = False, xattr = []\<rparr>"

definition example_read_header ::
  "tar_header_decoded list \<Rightarrow> byte list \<Rightarrow> int \<times> tar_header_decoded \<times> byte list" where
  "example_read_header hdrs input =
     (if input = [] then (1, empty_header, [])
      else if length input < 512 then (-1, empty_header, [])
      else if unat (hd input) < length hdrs
      then (0, hdrs ! unat (hd input), drop 512 input)
      else (1, empty_header, drop 512 input))"

definition example_lib :: "lib_call \<Rightarrow> unit sqfs_world \<Rightarrow> int \<times> unit sqfs_world" where
  "example_lib c w =
     (case c of
        Sqfs_open_file n m \<Rightarrow> (1, w\<lparr>outfile := []\<rparr>)
      | Sqfs_compressor_create \<Rightarrow> (1, w)
      | Data_writer_create d j b \<Rightarrow> (1, w)
      | Sqfs_id_table_create \<Rightarrow> (1, w)
      | _ \<Rightarrow> (0, w))"

definition example_env :: "tar_header_decoded list \<Rightarrow> (unit, unit) main_env" where
  "example_env hdrs =
     \<lparr>read_header = example_read_header hdrs,
      canonicalize_name = (\<lambda>n. (if n = [] then -1 else 0, n)),
      fstree_add_generic = (\<lambda>w n s t. (Some (), w)),
      sqfs_has_xattr = (\<lambda>k. True),
      fstree_add_xattr = (\<lambda>w n k v. (0, w)),
      defaults_mtime = (\<lambda>w. 0),
      file_size = (\<lambda>w n. 0),
      sqfs_get_stdin_file = (\<lambda>sz. True),
      write_data_from_file = (\<lambda>w n body. (0, w\<lparr>outfile := outfile w @ body\<rparr>)),
      write_data_from_file_condensed = (\<lambda>w n body m. (0, w\<lparr>outfile := outfile w @ body\<rparr>)),
      args = example_args_env,
      lib = example_lib,
      inode_tbl_size = (\<lambda>w. 3),
      super_encode = (\<lambda>s. word_of_nat (bytes_used s) # replicate 95 0),
      sink_write_fails = (\<lambda>w off bs. False),
      SQFS_FLAG_COMPRESSOR_OPTIONS = 0x0400\<rparr>"

definition example_super :: sqfs_super where
  "example_super =
     \<lparr>inode_count = 0, flags = 0, bytes_used = 0, inode_table_start = 0,
      directory_table_start = 0, root_inode_ref = 0, id_table_start = 0, id_count = 0\<rparr>"

definition example_state :: "byte list \<Rightarrow> unit sqfs_world tar_state" where
  "example_state input =
     \<lparr>stdin = input, stderr = [], stdout = [],
      world = \<lparr>outfile = [], super = example_super, priv = ()\<rparr>\<rparr>"

text \<open>The options that \<open>tar2sqfs out.sqfs\<close> sets.\<close>

definition example_opts :: options where
  "example_opts =
     \<lparr>filename = Some ''out.sqfs'', block_size = 131072, devblksize = 4096,
      quiet = False, outmode = 0, num_jobs = 1, max_backlog = 10,
      comp_id = 1, comp_extra = None, fs_defaults = None, dont_skip = False,
      no_xattr = False, exportable = False, keep_time = False\<rparr>"

text \<open>
  The header that the test of the sparse decoder (tests/tar\_sparse.c) expects:
  a file of 2097152 bytes of which eight extents of 4096 bytes are in the archive, so
  that \<open>st_size\<close> and \<open>actual_size\<close> are 2097152 and \<open>record_size\<close> is 32768.
\<close>

definition sparse_test_map :: "sparse_map list" where
  "sparse_test_map =
     [\<lparr>sp_offset = 0, sp_count = 4096\<rparr>, \<lparr>sp_offset = 262144, sp_count = 4096\<rparr>,
      \<lparr>sp_offset = 524288, sp_count = 4096\<rparr>, \<lparr>sp_offset = 786432, sp_count = 4096\<rparr>,
      \<lparr>sp_offset = 1048576, sp_count = 4096\<rparr>, \<lparr>sp_offset = 1310720, sp_count = 4096\<rparr>,
      \<lparr>sp_offset = 1572864, sp_count = 4096\<rparr>, \<lparr>sp_offset = 1835008, sp_count = 4096\<rparr>,
      \<lparr>sp_offset = 2097152, sp_count = 0\<rparr>]"

definition sparse_test_header :: tar_header_decoded where
  "sparse_test_header =
     \<lparr>sb = \<lparr>st_mode = 0x81A4, st_uid = 0x3E8, st_gid = 0x3E8, st_size = 2097152,
            st_mtime = 0\<rparr>,
      name = Some ''input.bin'', link_target = None, sparse = sparse_test_map,
      actual_size = 2097152, record_size = 32768, unknown_record = False, xattr = []\<rparr>"

text \<open>A header of an unknown type, and the header of the sparse test with its first two
  extents exchanged.\<close>

definition unknown_type_header :: tar_header_decoded where
  "unknown_type_header =
     empty_header\<lparr>sb := (sb empty_header)\<lparr>st_size := 1000\<rparr>, name := Some ''x'',
                   unknown_record := True\<rparr>"

definition broken_sparse_header :: tar_header_decoded where
  "broken_sparse_header =
     sparse_test_header
       \<lparr>sparse := \<lparr>sp_offset = 262144, sp_count = 4096\<rparr> #
                  \<lparr>sp_offset = 0, sp_count = 4096\<rparr> # drop 2 sparse_test_map\<rparr>"


text \<open>
  The header of an empty regular file, and the header of a sparse file of 512 bytes in
  the archive whose first extent is the last byte that a 64-bit offset can address and
  whose second extent starts at offset 0.
\<close>

definition regular_header :: tar_header_decoded where
  "regular_header =
     empty_header\<lparr>sb := (sb empty_header)\<lparr>st_mode := 0x81A4\<rparr>, name := Some ''y''\<rparr>"

definition wrapped_sparse_header :: tar_header_decoded where
  "wrapped_sparse_header =
     \<lparr>sb = \<lparr>st_mode = 0x81A4, st_uid = 0x3E8, st_gid = 0x3E8, st_size = 512, st_mtime = 0\<rparr>,
      name = Some ''w'', link_target = None,
      sparse = [\<lparr>sp_offset = 0xFFFFFFFFFFFFFFFF, sp_count = 1\<rparr>,
                \<lparr>sp_offset = 0, sp_count = 511\<rparr>],
      actual_size = 512, record_size = 512, unknown_record = False, xattr = []\<rparr>"

text \<open>
  An archive of two records: a block for the first header of the list, the 32768 bytes
  that the sparse test has in the archive, a block for the second header, and blocks
  that end the archive, 2097152 bytes behind the first block in all.
\<close>

definition two_record_stream :: "byte list" where
  "two_record_stream =
     replicate 512 0 @ replicate 32768 1 @ (1 # replicate 511 0) @ replicate 2063872 9"

section \<open>lib/common/serialize\_fstree.c\<close>

subsection \<open>The tree and the inodes\<close>

text \<open>
  A node of the tree (\<open>tree_node_t\<close>): the fields that the serialiser reads and writes,
  named \<open>n_\<close> and the name of the field. The members of the union \<open>data\<close> are fields
  of their own (\<open>dir.children\<close>, \<open>file.user_ptr\<close>, \<open>target\<close>, \<open>devno\<close>); the code
  reads the member that the mode of the node selects. The list \<open>children\<close> is the
  chain of \<open>next\<close> pointers; the \<open>parent\<close> pointer is passed along as the inode number
  of the parent. Inode numbers are \<open>sqfs_u32\<close> in C and natural numbers here.
\<close>

datatype inode_type =
  SQFS_INODE_DIR | SQFS_INODE_FILE | SQFS_INODE_SLINK | SQFS_INODE_BDEV | SQFS_INODE_CDEV
  | SQFS_INODE_FIFO | SQFS_INODE_SOCKET | SQFS_INODE_EXT_DIR | SQFS_INODE_EXT_FILE
  | SQFS_INODE_EXT_SLINK | SQFS_INODE_EXT_BDEV | SQFS_INODE_EXT_CDEV | SQFS_INODE_EXT_FIFO
  | SQFS_INODE_EXT_SOCKET

text \<open>
  An inode (\<open>sqfs_inode_generic_t\<close>): the fields of \<open>base\<close>, the link count that every
  member of the union \<open>data\<close> has, target and device number, and in \<open>i_body\<close> what the
  directory writer and the data writer have put into an inode they made.
\<close>

record sqfs_inode =
  i_type :: inode_type
  i_mode :: "16 word"
  i_uid_idx :: "16 word"
  i_gid_idx :: "16 word"
  i_mod_time :: "32 word"
  i_inode_number :: nat
  i_nlink :: "32 word"
  i_xattr_idx :: "32 word"
  i_target :: string
  i_devno :: "32 word"
  i_body :: "byte list"

record node_attr =
  n_name :: string
  n_mode :: "32 word"
  n_uid :: "32 word"
  n_gid :: "32 word"
  n_mod_time :: "32 word"
  n_link_count :: "32 word"
  n_xattr_idx :: "32 word"
  n_inode_num :: nat
  n_inode_ref :: "64 word"
  n_user_ptr :: "sqfs_inode option"
  n_target :: string
  n_devno :: "32 word"

datatype tree_node = TreeNode (attr: node_attr) (children: "tree_node list")

definition S_IFDIR :: "32 word" where
  "S_IFDIR = 0x4000"

definition S_IFLNK :: "32 word" where
  "S_IFLNK = 0xA000"

definition S_IFBLK :: "32 word" where
  "S_IFBLK = 0x6000"

definition S_IFCHR :: "32 word" where
  "S_IFCHR = 0x2000"

definition S_IFIFO :: "32 word" where
  "S_IFIFO = 0x1000"

definition S_IFSOCK :: "32 word" where
  "S_IFSOCK = 0xC000"

definition S_ISDIR :: "32 word \<Rightarrow> bool" where
  "S_ISDIR m = (m AND S_IFMT = S_IFDIR)"

definition S_ISLNK :: "32 word \<Rightarrow> bool" where
  "S_ISLNK m = (m AND S_IFMT = S_IFLNK)"

definition is_dir :: "tree_node \<Rightarrow> bool" where
  "is_dir n = S_ISDIR (n_mode (attr n))"

subsection \<open>The writers\<close>

text \<open>
  The metadata writers and the directory writer are objects of the library that is not
  among the files. An object is modelled by the calls made on it so far; what a call
  returns and what it writes to the output file is a function of these calls, given
  from outside. \<open>im\<close> is the writer of the inode table. The directory writer writes
  into \<open>dm\<close>, the writer of the directory table, so the calls on both are one
  history.
\<close>

datatype im_call = IM_write_inode sqfs_inode | IM_flush

datatype dm_call =
    DIR_begin
  | DIR_add_entry string nat "64 word" "32 word"
  | DIR_end
  | DIR_create_inode "32 word" nat
  | DM_flush
  | DM_write_to_file

record serialize_env =
  im_ret :: "im_call list \<Rightarrow> im_call \<Rightarrow> int"
  im_emit :: "im_call list \<Rightarrow> im_call \<Rightarrow> byte list"
  im_position :: "im_call list \<Rightarrow> 64 word \<times> 32 word"
  dm_ret :: "dm_call list \<Rightarrow> dm_call \<Rightarrow> int"
  dm_emit :: "dm_call list \<Rightarrow> dm_call \<Rightarrow> byte list"
  dir_inode :: "dm_call list \<Rightarrow> sqfs_inode option"
  xattr_inode_type :: "inode_type \<Rightarrow> 32 word \<Rightarrow> inode_type"
  calloc_fails :: "node_attr \<Rightarrow> bool"
  SQFS_ERROR_ALLOC :: int
  SQFS_ERROR_INTERNAL :: int

text \<open>
  \<open>sqfs_writer_t\<close>: the superblock, the output file, the root of the tree, the two
  histories, the table of identifiers (the array \<open>ids\<close>; \<open>num_ids\<close> is its length),
  and the lines written to \<open>stderr\<close>.
\<close>

record writer =
  w_super :: sqfs_super
  w_outfile :: "byte list"
  w_root :: tree_node
  w_im :: "im_call list"
  w_dm :: "dm_call list"
  w_idtbl :: "32 word list"
  w_stderr :: "string list"

definition im_call_on :: "serialize_env \<Rightarrow> im_call \<Rightarrow> writer \<Rightarrow> int \<times> writer" where
  "im_call_on env c wr =
     (im_ret env (w_im wr) c,
      wr\<lparr>w_im := w_im wr @ [c], w_outfile := w_outfile wr @ im_emit env (w_im wr) c\<rparr>)"

definition dm_call_on :: "serialize_env \<Rightarrow> dm_call \<Rightarrow> writer \<Rightarrow> int \<times> writer" where
  "dm_call_on env c wr =
     (dm_ret env (w_dm wr) c,
      wr\<lparr>w_dm := w_dm wr @ [c], w_outfile := w_outfile wr @ dm_emit env (w_dm wr) c\<rparr>)"

subsection \<open>The table of identifiers\<close>

text \<open>
  Modelled from the spec: \<open>sqfs_id_table_id_to_index\<close> is code of lib/sqfs that is not
  among the files. The spec (3 and 4.5): the table maps a 32-bit uid or gid to a 16-bit
  dense index and preserves insertion order; \<open>id_to_index(id)\<close> is a linear lookup; on a
  miss it appends and returns the new index. An index has 16 bits, so no value is
  appended to a table of 65536 entries: the call fails.
\<close>

definition id_to_index :: "32 word list \<Rightarrow> 32 word \<Rightarrow> int \<times> 32 word list \<times> 16 word" where
  "id_to_index ids v =
     (if v \<in> set ids then (0, ids, word_of_nat (length (takeWhile (\<lambda>x. x \<noteq> v) ids)))
      else if 65536 \<le> int (length ids) then (-1, ids, 0)
      else (0, ids @ [v], word_of_nat (length ids)))"

subsection \<open>tree\_node\_to\_inode and write\_dir\_entries\<close>

text \<open>
  A result of a function of this file: a fault, or the value returned with the state
  left behind.
\<close>

datatype ('r, 's) res = Abort fault | Ret 'r 's

definition blank_inode :: sqfs_inode where
  "blank_inode =
     \<lparr>i_type = SQFS_INODE_DIR, i_mode = 0, i_uid_idx = 0, i_gid_idx = 0, i_mod_time = 0,
      i_inode_number = 0, i_nlink = 0, i_xattr_idx = 0, i_target = [], i_devno = 0,
      i_body = []\<rparr>"

text \<open>
  \<open>tree_node_to_inode\<close>: \<open>None\<close> is NULL (\<open>calloc\<close> failed); the \<open>default\<close> case of
  the \<open>switch\<close> is \<open>assert(0)\<close>.
\<close>

definition tree_node_to_inode ::
  "serialize_env \<Rightarrow> node_attr \<Rightarrow> writer \<Rightarrow> (sqfs_inode option, writer) res" where
  "tree_node_to_inode env node wr =
     (let extra = (if S_ISLNK (n_mode node) then n_target node else []) in
      if calloc_fails env node
      then Ret None (wr\<lparr>w_stderr := w_stderr wr @ [''creating inode'']\<rparr>)
      else
        (let t = n_mode node AND S_IFMT in
         if t = S_IFSOCK
         then Ret (Some (blank_inode\<lparr>i_type := SQFS_INODE_SOCKET,
                                      i_nlink := n_link_count node\<rparr>)) wr
         else if t = S_IFIFO
         then Ret (Some (blank_inode\<lparr>i_type := SQFS_INODE_FIFO,
                                      i_nlink := n_link_count node\<rparr>)) wr
         else if t = S_IFLNK
         then Ret (Some (blank_inode\<lparr>i_type := SQFS_INODE_SLINK,
                                      i_nlink := n_link_count node, i_target := extra\<rparr>)) wr
         else if t = S_IFBLK
         then Ret (Some (blank_inode\<lparr>i_type := SQFS_INODE_BDEV,
                                      i_nlink := n_link_count node,
                                      i_devno := n_devno node\<rparr>)) wr
         else if t = S_IFCHR
         then Ret (Some (blank_inode\<lparr>i_type := SQFS_INODE_CDEV,
                                      i_nlink := n_link_count node,
                                      i_devno := n_devno node\<rparr>)) wr
         else Abort AssertionFailed))"

text \<open>The loop of \<open>write_dir_entries\<close> over the children: the result is \<open>ret\<close>.\<close>

fun add_entries :: "serialize_env \<Rightarrow> tree_node list \<Rightarrow> writer \<Rightarrow> int \<times> writer" where
  "add_entries env [] wr = (0, wr)"
| "add_entries env (it # its) wr =
     (case dm_call_on env
             (DIR_add_entry (n_name (attr it)) (n_inode_num (attr it)) (n_inode_ref (attr it))
                (n_mode (attr it))) wr of
        (ret, wr') \<Rightarrow> if ret \<noteq> 0 then (ret, wr') else add_entries env its wr')"

definition recoding_failed :: "writer \<Rightarrow> writer" where
  "recoding_failed wr = wr\<lparr>w_stderr := w_stderr wr @ [''recoding directory entries'']\<rparr>"

text \<open>
  \<open>write_dir_entries\<close>: \<open>parent_inode\<close> is \<open>node->parent->inode_num\<close>, or 0 for a node
  without parent.
\<close>

definition write_dir_entries ::
  "serialize_env \<Rightarrow> nat \<Rightarrow> tree_node \<Rightarrow> writer \<Rightarrow> sqfs_inode option \<times> writer" where
  "write_dir_entries env parent_inode node wr =
     (case dm_call_on env DIR_begin wr of
        (ret, wr1) \<Rightarrow>
          if ret \<noteq> 0 then (None, recoding_failed wr1)
          else
            (case add_entries env (children node) wr1 of
               (ret, wr2) \<Rightarrow>
                 if ret \<noteq> 0 then (None, recoding_failed wr2)
                 else
                   (case dm_call_on env DIR_end wr2 of
                      (ret, wr3) \<Rightarrow>
                        if ret \<noteq> 0 then (None, recoding_failed wr3)
                        else
                          (let wr4 = wr3\<lparr>w_dm := w_dm wr3 @
                                        [DIR_create_inode (n_xattr_idx (attr node)) parent_inode]\<rparr>
                           in case dir_inode env (w_dm wr4) of
                                None \<Rightarrow> (None, recoding_failed wr4)
                              | Some inode \<Rightarrow>
                                  (Some (inode\<lparr>i_nlink := n_link_count (attr node)\<rparr>), wr4)))))"

subsection \<open>serialize\_tree\_node\<close>

text \<open>
  \<open>sqfs_inode_set_xattr_index\<close> is not among the files: it stores the index and may
  change the type of the inode to its extended form, which \<open>xattr_inode_type\<close> decides.
\<close>

definition sqfs_inode_set_xattr_index :: "serialize_env \<Rightarrow> sqfs_inode \<Rightarrow> 32 word \<Rightarrow> sqfs_inode" where
  "sqfs_inode_set_xattr_index env inode idx =
     inode\<lparr>i_type := xattr_inode_type env (i_type inode) idx, i_xattr_idx := idx\<rparr>"

definition inode_ref_of :: "64 word \<times> 32 word \<Rightarrow> 64 word" where
  "inode_ref_of pos = (case pos of (block, offset) \<Rightarrow> push_bit 16 block OR ucast offset)"

text \<open>
  \<open>serialize_tree_node\<close>: the result is \<open>ret\<close>, with the writer and the node as the
  call leaves them.
\<close>

definition serialize_tree_node ::
  "serialize_env \<Rightarrow> nat \<Rightarrow> tree_node \<Rightarrow> writer \<Rightarrow> (int, writer \<times> tree_node) res" where
  "serialize_tree_node env parent_inode n wr =
     (let a = attr n;
          made =
            (if S_ISDIR (n_mode a) then
               (case write_dir_entries env parent_inode n wr of
                  (inode, wr') \<Rightarrow> Ret (inode, SQFS_ERROR_INTERNAL env) (wr', n))
             else if S_ISREG (n_mode a) then
               Ret (n_user_ptr a, SQFS_ERROR_INTERNAL env)
                   (wr, TreeNode (a\<lparr>n_user_ptr := None\<rparr>) (children n))
             else
               (case tree_node_to_inode env a wr of
                  Abort f \<Rightarrow> Abort f
                | Ret inode wr' \<Rightarrow> Ret (inode, SQFS_ERROR_ALLOC env) (wr', n)))
      in case made of
           Abort f \<Rightarrow> Abort f
         | Ret (None, ret) (wr1, n1) \<Rightarrow> Ret ret (wr1, n1)
         | Ret (Some inode0, ret) (wr1, n1) \<Rightarrow>
             (let inode1 = inode0\<lparr>i_mode := ucast (n_mode a), i_mod_time := n_mod_time a,
                                  i_inode_number := n_inode_num a\<rparr>;
                  inode2 = sqfs_inode_set_xattr_index env inode1 (n_xattr_idx a)
              in case id_to_index (w_idtbl wr1) (n_uid a) of
                   (ret_u, ids_u, uid_idx) \<Rightarrow>
                     if ret_u \<noteq> 0 then Ret ret_u (wr1\<lparr>w_idtbl := ids_u\<rparr>, n1)
                     else
                       (case id_to_index ids_u (n_gid a) of
                          (ret_g, ids_g, gid_idx) \<Rightarrow>
                            if ret_g \<noteq> 0 then Ret ret_g (wr1\<lparr>w_idtbl := ids_g\<rparr>, n1)
                            else
                              (let inode3 = inode2\<lparr>i_uid_idx := uid_idx, i_gid_idx := gid_idx\<rparr>;
                                   wr2 = wr1\<lparr>w_idtbl := ids_g\<rparr>;
                                   n2 = TreeNode ((attr n1)\<lparr>n_inode_ref :=
                                                     inode_ref_of (im_position env (w_im wr2))\<rparr>)
                                          (children n1)
                               in case im_call_on env (IM_write_inode inode3) wr2 of
                                    (ret, wr3) \<Rightarrow> Ret ret (wr3, n2)))))"

subsection \<open>serialize\_recursive\<close>

text \<open>The third loop of \<open>serialize_recursive\<close>: \<open>serialize_tree_node\<close> on every child.\<close>

fun serialize_children ::
  "serialize_env \<Rightarrow> nat \<Rightarrow> tree_node list \<Rightarrow> writer \<Rightarrow> (int, writer \<times> tree_node list) res" where
  "serialize_children env parent_inode [] wr = Ret 0 (wr, [])"
| "serialize_children env parent_inode (it # its) wr =
     (case serialize_tree_node env parent_inode it wr of
        Abort f \<Rightarrow> Abort f
      | Ret ret (wr', it') \<Rightarrow>
          if ret \<noteq> 0 then Ret ret (wr', it' # its)
          else
            (case serialize_children env parent_inode its wr' of
               Abort f \<Rightarrow> Abort f
             | Ret ret' (wr'', its') \<Rightarrow> Ret ret' (wr'', it' # its')))"

text \<open>
  \<open>serialize_recursive\<close> with its second loop, the calls of itself on the children
  that are directories (\<open>serialize_subdirs\<close>). The first loop sets \<open>has_subdirs\<close>.
\<close>

fun serialize_recursive ::
    "serialize_env \<Rightarrow> tree_node \<Rightarrow> writer \<Rightarrow> (int, writer \<times> tree_node) res"
  and serialize_subdirs ::
    "serialize_env \<Rightarrow> tree_node list \<Rightarrow> writer \<Rightarrow> (int, writer \<times> tree_node list) res" where
  "serialize_recursive env (TreeNode a cs) wr =
     (let has_subdirs = list_ex is_dir cs in
      case (if has_subdirs then serialize_subdirs env cs wr else Ret 0 (wr, cs)) of
        Abort f \<Rightarrow> Abort f
      | Ret ret (wr1, cs1) \<Rightarrow>
          if ret \<noteq> 0 then Ret ret (wr1, TreeNode a cs1)
          else
            (case serialize_children env (n_inode_num a) cs1 wr1 of
               Abort f \<Rightarrow> Abort f
             | Ret ret' (wr2, cs2) \<Rightarrow> Ret ret' (wr2, TreeNode a cs2)))"
| "serialize_subdirs env [] wr = Ret 0 (wr, [])"
| "serialize_subdirs env (it # its) wr =
     (if is_dir it then
        (case serialize_recursive env it wr of
           Abort f \<Rightarrow> Abort f
         | Ret ret (wr', it') \<Rightarrow>
             if ret \<noteq> 0 then Ret ret (wr', it' # its)
             else
               (case serialize_subdirs env its wr' of
                  Abort f \<Rightarrow> Abort f
                | Ret ret' (wr'', its') \<Rightarrow> Ret ret' (wr'', it' # its')))
      else
        (case serialize_subdirs env its wr of
           Abort f \<Rightarrow> Abort f
         | Ret ret' (wr'', its') \<Rightarrow> Ret ret' (wr'', it # its')))"

subsection \<open>sqfs\_serialize\_fstree\<close>

definition storing_failed :: "int \<Rightarrow> writer \<Rightarrow> writer" where
  "storing_failed ret wr =
     (if ret \<noteq> 0 then wr\<lparr>w_stderr := w_stderr wr @ [''storing filesystem tree'']\<rparr> else wr)"

definition sqfs_serialize_fstree :: "serialize_env \<Rightarrow> writer \<Rightarrow> (int, writer) res" where
  "sqfs_serialize_fstree env wr0 =
     (let wr = wr0\<lparr>w_super := (w_super wr0)\<lparr>inode_table_start := get_size (w_outfile wr0)\<rparr>\<rparr> in
      case (if is_dir (w_root wr) then serialize_recursive env (w_root wr) wr
            else Ret 0 (wr, w_root wr)) of
        Abort f \<Rightarrow> Abort f
      | Ret ret (wr1, root1) \<Rightarrow>
          if ret \<noteq> 0 then Ret ret (storing_failed ret (wr1\<lparr>w_root := root1\<rparr>))
          else
            (case serialize_tree_node env 0 root1 wr1 of
               Abort f \<Rightarrow> Abort f
             | Ret ret (wr2, root2) \<Rightarrow>
                 if ret \<noteq> 0 then Ret ret (storing_failed ret (wr2\<lparr>w_root := root2\<rparr>))
                 else
                   (case im_call_on env IM_flush (wr2\<lparr>w_root := root2\<rparr>) of
                      (ret, wr3) \<Rightarrow>
                        if ret \<noteq> 0 then Ret ret (storing_failed ret wr3)
                        else
                          (case dm_call_on env DM_flush wr3 of
                             (ret, wr4) \<Rightarrow>
                               if ret \<noteq> 0 then Ret ret (storing_failed ret wr4)
                               else
                                 (let wr5 = wr4\<lparr>w_super := (w_super wr4)
                                                \<lparr>root_inode_ref := n_inode_ref (attr (w_root wr4)),
                                                 directory_table_start :=
                                                   get_size (w_outfile wr4)\<rparr>\<rparr>
                                  in case dm_call_on env DM_write_to_file wr5 of
                                       (ret, wr6) \<Rightarrow> Ret ret (storing_failed ret wr6))))))"


section \<open>lib/sqfs/id\_table\_write.c\<close>

text \<open>
  The bytes of a 32-bit value, least significant first, and the value of four bytes read
  that way. \<open>htole32\<close> and \<open>le32toh\<close> (of the C library) swap the bytes on a
  big-endian host and do nothing on a little-endian one; \<open>mem_bytes\<close> is the array
  element as it lies in the memory of the host.
\<close>

definition le_bytes :: "32 word \<Rightarrow> byte list" where
  "le_bytes x = [ucast x, ucast (drop_bit 8 x), ucast (drop_bit 16 x), ucast (drop_bit 24 x)]"

definition of_le_bytes :: "byte list \<Rightarrow> 32 word" where
  "of_le_bytes bs =
     ucast (bs ! 0) OR push_bit 8 (ucast (bs ! 1)) OR push_bit 16 (ucast (bs ! 2)) OR
     push_bit 24 (ucast (bs ! 3))"

definition bswap32 :: "32 word \<Rightarrow> 32 word" where
  "bswap32 x = of_le_bytes (rev (le_bytes x))"

definition htole32 :: "bool \<Rightarrow> 32 word \<Rightarrow> 32 word" where
  "htole32 big_endian x = (if big_endian then bswap32 x else x)"

definition le32toh :: "bool \<Rightarrow> 32 word \<Rightarrow> 32 word" where
  "le32toh big_endian x = (if big_endian then bswap32 x else x)"

definition mem_bytes :: "bool \<Rightarrow> 32 word \<Rightarrow> byte list" where
  "mem_bytes big_endian x = (if big_endian then rev (le_bytes x) else le_bytes x)"

text \<open>
  What \<open>id_table_write\<close> takes from outside: the byte order of the host, and
  \<open>sqfs_write_table\<close> of the library, which is given the output file, the superblock,
  the memory of the table, the size of an entry and the number of entries, and returns
  its result, the start of the table it wrote and the output file.
\<close>

record table_env =
  host_big_endian :: bool
  sqfs_write_table ::
    "byte list \<Rightarrow> sqfs_super \<Rightarrow> byte list \<Rightarrow> nat \<Rightarrow> nat \<Rightarrow> int \<times> nat \<times> byte list"

text \<open>
  \<open>id_table_write\<close>: the result is \<open>ret\<close>, the table, the output file and the
  superblock. \<open>id_count\<close> takes \<open>num_ids\<close>, a \<open>size_t\<close>, into 16 bits.
\<close>

definition id_table_write ::
  "table_env \<Rightarrow> 32 word list \<Rightarrow> byte list \<Rightarrow> sqfs_super
     \<Rightarrow> int \<times> 32 word list \<times> byte list \<times> sqfs_super" where
  "id_table_write env ids outfd super0 =
     (let num_ids = length ids;
          ids1 = map (htole32 (host_big_endian env)) ids;
          super1 = super0\<lparr>id_count := word_of_nat num_ids\<rparr>
      in case sqfs_write_table env outfd super1
                (concat (map (mem_bytes (host_big_endian env)) ids1)) 4 num_ids of
           (ret, start, outfd') \<Rightarrow>
             (ret, map (le32toh (host_big_endian env)) ids1, outfd',
              super1\<lparr>id_table_start := start\<rparr>))"

text \<open>Insertion into the table: a value that the table holds is not added again.\<close>

definition id_insert :: "32 word list \<Rightarrow> 32 word \<Rightarrow> 32 word list" where
  "id_insert ids v = (if v \<in> set ids then ids else ids @ [v])"

section \<open>The inode numbers\<close>

text \<open>
  Modelled from the spec: \<open>fstree_gen_inode_table\<close> is code of lib/fstree that is not
  among the files. The spec (3 and 4.4): inode numbers are dense and start at 1;
  \<open>gen_inode_table(root) -> count\<close> assigns them by a recursion that visits the
  non-directory children of a directory before it descends into its sub-directories,
  and visits the directory itself last. \<open>number_children\<close> goes through the
  children once with two counters, \<open>kl\<close> for the children that are not directories
  and \<open>kd\<close> for what lies in and below the sub-directories, which \<open>number_dir\<close> starts
  behind the last number of the former.
\<close>

fun number_dir :: "nat \<Rightarrow> tree_node \<Rightarrow> nat \<times> tree_node"
  and number_children :: "nat \<Rightarrow> nat \<Rightarrow> tree_node list \<Rightarrow> nat \<times> tree_node list" where
  "number_dir k (TreeNode a cs) =
     (case number_children k (k + length (filter (\<lambda>c. \<not> is_dir c) cs)) cs of
        (k', cs') \<Rightarrow> (Suc k', TreeNode (a\<lparr>n_inode_num := k'\<rparr>) cs'))"
| "number_children kl kd [] = (kd, [])"
| "number_children kl kd (c # cs) =
     (if is_dir c then
        (case number_dir kd c of
           (kd', c') \<Rightarrow>
             (case number_children kl kd' cs of (k', cs') \<Rightarrow> (k', c' # cs')))
      else
        (case number_children (Suc kl) kd cs of
           (k', cs') \<Rightarrow> (k', TreeNode ((attr c)\<lparr>n_inode_num := kl\<rparr>) (children c) # cs')))"

definition gen_inode_table :: "tree_node \<Rightarrow> nat \<times> tree_node" where
  "gen_inode_table root =
     (if is_dir root
      then (case number_dir 1 root of (k, root') \<Rightarrow> (k - 1, root'))
      else (1, TreeNode ((attr root)\<lparr>n_inode_num := 1\<rparr>) (children root)))"

text \<open>
  The nodes of a tree in the order in which \<open>sqfs_serialize_fstree\<close> goes through
  them: \<open>emit_below\<close> is the order of \<open>serialize_recursive\<close> on a directory, which
  first goes into the children that are directories and then through all its children;
  the root comes last.
\<close>

fun emit_below :: "tree_node \<Rightarrow> tree_node list" where
  "emit_below (TreeNode a cs) = concat (map emit_below (filter is_dir cs)) @ cs"

definition emit_order :: "tree_node \<Rightarrow> tree_node list" where
  "emit_order root = (if is_dir root then emit_below root else []) @ [root]"


section \<open>An example tree and writer\<close>

text \<open>
  Writers that accept every call: after \<open>k\<close> calls the inode writer is in block \<open>k\<close>
  at offset \<open>32 k\<close>, flushing it writes three bytes and writing the directory table to
  the file two. The tree is \<open>/bin/sh\<close>, \<open>/dev/null\<close> and \<open>/motd\<close>.
\<close>

definition example_serialize_env :: serialize_env where
  "example_serialize_env =
     \<lparr>im_ret = (\<lambda>_ _. 0),
      im_emit = (\<lambda>_ c. case c of IM_flush \<Rightarrow> [1, 2, 3] | IM_write_inode _ \<Rightarrow> []),
      im_position = (\<lambda>calls. (word_of_nat (length calls), word_of_nat (32 * length calls))),
      dm_ret = (\<lambda>_ _. 0),
      dm_emit = (\<lambda>_ c. case c of DM_write_to_file \<Rightarrow> [4, 5] | _ \<Rightarrow> []),
      dir_inode = (\<lambda>_. Some blank_inode),
      xattr_inode_type = (\<lambda>t _. t),
      calloc_fails = (\<lambda>_. False),
      SQFS_ERROR_ALLOC = - 1,
      SQFS_ERROR_INTERNAL = - 5\<rparr>"

definition example_node ::
  "string \<Rightarrow> 32 word \<Rightarrow> 32 word \<Rightarrow> 32 word \<Rightarrow> tree_node list \<Rightarrow> tree_node" where
  "example_node nm mode uid gid cs =
     TreeNode \<lparr>n_name = nm, n_mode = mode, n_uid = uid, n_gid = gid, n_mod_time = 0,
               n_link_count = 1, n_xattr_idx = 0xFFFFFFFF, n_inode_num = 0, n_inode_ref = 0,
               n_user_ptr = (if S_ISREG mode then Some blank_inode else None),
               n_target = [], n_devno = 0\<rparr> cs"

definition example_tree :: tree_node where
  "example_tree =
     example_node [] 0x41ED 0 0
       [example_node ''bin'' 0x41ED 0 0 [example_node ''sh'' 0x81ED 0 0 []],
        example_node ''dev'' 0x41ED 0 0 [example_node ''null'' 0x21B6 0 5 []],
        example_node ''motd'' 0x81A4 1000 100 []]"

definition example_writer :: writer where
  "example_writer =
     \<lparr>w_super = example_super, w_outfile = replicate 96 0,
      w_root = snd (gen_inode_table example_tree), w_im = [], w_dm = [], w_idtbl = [],
      w_stderr = []\<rparr>"

definition example_table_env :: table_env where
  "example_table_env =
     \<lparr>host_big_endian = True,
      sqfs_write_table = (\<lambda>outfd super data entry_size n. (0, length outfd, outfd @ data))\<rparr>"

section \<open>Path separators\<close>

lemma is_path_sep_unix: "is_path_sep False c = False"
  by (simp add: is_path_sep_def is_windows_path_sep_def)

lemma strlen_c_at: "c_at s (strlen s) = CHR 0x00"
proof (induction s)
  case Nil
  show ?case by (simp add: c_at_def strlen_def)
next
  case (Cons a s)
  then show ?case by (auto simp: c_at_def strlen_def split: if_splits)
qed

lemma c_at_before_strlen: "i < strlen s \<Longrightarrow> c_at s i \<noteq> CHR 0x00"
proof (induction s arbitrary: i)
  case Nil
  then show ?case by (simp add: strlen_def)
next
  case (Cons a s)
  show ?case
  proof (cases i)
    case 0
    with Cons.prems show ?thesis
      by (auto simp: c_at_def strlen_def split: if_splits)
  next
    case (Suc j)
    with Cons.prems have "a \<noteq> CHR 0x00" and "j < strlen s"
      by (auto simp: strlen_def split: if_splits)
    from Cons.IH [OF \<open>j < strlen s\<close>] have "c_at s j \<noteq> CHR 0x00" .
    then have "j < length s \<and> s ! j \<noteq> CHR 0x00"
      by (auto simp: c_at_def split: if_splits)
    with Suc show ?thesis
      by (simp add: c_at_def)
  qed
qed

lemma next_path_sep_from_unix:
  "cur \<le> strlen s \<Longrightarrow> next_path_sep_from False s cur = strlen s"
proof (induction "strlen s - cur" arbitrary: cur)
  case 0
  then have "cur = strlen s" by simp
  then show ?case
    by (subst next_path_sep_from.simps) (simp add: strlen_c_at)
next
  case (Suc d)
  then have lt: "cur < strlen s" by simp
  then have nz: "c_at s cur \<noteq> CHR 0x00" by (rule c_at_before_strlen)
  from Suc.hyps(2) have "d = strlen s - Suc cur" by simp
  moreover from lt have "Suc cur \<le> strlen s" by simp
  ultimately have "next_path_sep_from False s (Suc cur) = strlen s"
    by (rule Suc.hyps(1))
  with nz show ?case
    by (subst next_path_sep_from.simps) (simp add: is_path_sep_unix)
qed

text \<open>
  C9. On a non-Windows build the predicate \<open>__is_path_sep\<close> is false for every
  character, so for every string \<open>s\<close> the function \<open>skip_path_seps\<close> returns \<open>s\<close>
  itself (offset 0: a leading slash is not skipped) and \<open>next_path_sep\<close> returns the
  position of the terminating NUL of \<open>s\<close> (a slash is never reported).
\<close>

theorem path_sep_never_matches_unix:
  "is_path_sep False c = False \<and>
   skip_path_seps False s = 0 \<and>
   next_path_sep False s = strlen s \<and> c_at s (next_path_sep False s) = CHR 0x00"
proof -
  have "skip_path_seps False s = 0"
    unfolding skip_path_seps_def
    by (subst skip_path_seps_from.simps) (simp add: is_path_sep_unix)
  moreover have "next_path_sep False s = strlen s"
    by (simp add: next_path_sep_def next_path_sep_from_unix)
  ultimately show ?thesis
    by (simp add: is_path_sep_unix strlen_c_at)
qed

theorem path_sep_never_matches_unix_witness:
  "skip_path_seps False ''//usr/lib'' = 0 \<and> next_path_sep False ''usr/lib'' = 7"
  using path_sep_never_matches_unix [of "CHR ''/''" "''//usr/lib''"]
        path_sep_never_matches_unix [of "CHR ''/''" "''usr/lib''"]
  by (simp add: strlen_def)


section \<open>The long option table has no sentinel\<close>

lemma of_char_nat_zero: "(of_char c :: nat) = 0 \<longleftrightarrow> c = CHR 0x00"
  using of_char_eq_iff [of c "CHR 0x00", where ?'a = nat] by simp

lemma strncmp_match_take:
  "strncmp nm ptr len = 0 \<Longrightarrow> c_at nm len = CHR 0x00 \<Longrightarrow> CHR 0x00 \<notin> set nm \<Longrightarrow>
   CHR 0x00 \<notin> set (take len ptr) \<Longrightarrow> len \<le> length ptr \<Longrightarrow> nm = take len ptr"
proof (induction len arbitrary: nm ptr)
  case 0
  then show ?case by (cases nm) (auto simp: c_at_def)
next
  case (Suc n)
  from Suc.prems(5) obtain p ps where ptr: "ptr = p # ps" by (cases ptr) auto
  with Suc.prems(4) have p0: "p \<noteq> CHR 0x00" by auto
  show ?case
  proof (cases nm)
    case Nil
    with Suc.prems(1) ptr p0 show ?thesis
      by (auto simp: c_at_def of_char_nat_zero split: if_splits)
  next
    case (Cons a as)
    with Suc.prems(3) have a0: "a \<noteq> CHR 0x00" by auto
    from Suc.prems(1) Cons ptr a0 have ap: "a = p" and rec: "strncmp as ps n = 0"
      by (auto simp: c_at_def split: if_splits)
    from Suc.prems(2) Cons have "c_at as n = CHR 0x00"
      by (auto simp: c_at_def split: if_splits)
    moreover from Suc.prems(3) Cons have "CHR 0x00 \<notin> set as" by simp
    moreover from Suc.prems(4) ptr have "CHR 0x00 \<notin> set (take n ps)" by simp
    moreover from Suc.prems(5) ptr have "n \<le> length ps" by simp
    ultimately have "as = take n ps" using rec Suc.IH by blast
    with ap Cons ptr show ?thesis by simp
  qed
qed

lemma long_name_len_props:
  "long_name_len ptr \<le> length ptr \<and> CHR 0x00 \<notin> set (take (long_name_len ptr) ptr)"
  unfolding long_name_len_def
  by (auto simp: length_takeWhile_le takeWhile_eq_take [symmetric] dest: set_takeWhileD)

lemma long_lookup_runs_off:
  assumes "\<forall>e \<in> set longopts. \<exists>nm. o_name e = Some nm \<and> \<not> (strncmp nm ptr len = 0 \<and> c_at nm len = CHR 0x00)"
  shows "i \<le> length longopts \<Longrightarrow> long_lookup longopts ptr len i = Inl (OutOfBounds (length longopts))"
proof (induction "length longopts - i" arbitrary: i)
  case 0
  then have "i = length longopts" by simp
  then show ?case by (subst long_lookup.simps) (simp add: array_read_def)
next
  case (Suc d)
  then have lt: "i < length longopts" by simp
  then have "longopts ! i \<in> set longopts" by simp
  with assms obtain nm where nm: "o_name (longopts ! i) = Some nm"
      "\<not> (strncmp nm ptr len = 0 \<and> c_at nm len = CHR 0x00)" by blast
  from Suc.hyps(2) lt have "d = length longopts - Suc i" "Suc i \<le> length longopts" by simp_all
  then have "long_lookup longopts ptr len (Suc i) = Inl (OutOfBounds (length longopts))"
    by (rule Suc.hyps(1))
  with lt nm show ?case
    by (subst long_lookup.simps) (auto simp: array_read_def)
qed

lemma long_opts_names:
  "e \<in> set long_opts \<Longrightarrow> \<exists>nm. o_name e = Some nm \<and> CHR 0x00 \<notin> set nm"
  by (auto simp: long_opts_def)

text \<open>
  C10 (the code departs from the claim). The claim asks that for every command line with
  a long option whose name matches no entry of \<open>long_opts\<close> the lookup loop of
  \<open>getopt_long\<close> reads the table only within its bounds before returning \<open>?\<close>. The
  table of tar2sqfs.c has 15 entries and no entry with a NULL name, so the loop leaves
  the table: for every such command line it reads \<open>longopts[15]\<close>, one entry behind the
  end, and \<open>getopt_long\<close> does not return \<open>?\<close>.
\<close>

theorem getopt_long_unknown_reads_past_table:
  assumes ind: "optind st < length argv"
    and dashes: "c_at (argv ! optind st) 0 = CHR ''-''" "c_at (argv ! optind st) 1 = CHR ''-''"
    and more: "c_at (argv ! optind st) 2 \<noteq> CHR 0x00"
    and nomatch: "Some (take (long_name_len (drop 2 (argv ! optind st))) (drop 2 (argv ! optind st)))
                    \<notin> o_name ` set long_opts"
  shows "getopt_long argv short_opts long_opts st = Inl (OutOfBounds 15)"
proof -
  define ptr where "ptr = drop 2 (argv ! optind st)"
  define len where "len = long_name_len ptr"
  have "\<forall>e \<in> set long_opts.
          \<exists>nm. o_name e = Some nm \<and> \<not> (strncmp nm ptr len = 0 \<and> c_at nm len = CHR 0x00)"
  proof
    fix e assume e: "e \<in> set long_opts"
    then obtain nm where nm: "o_name e = Some nm" "CHR 0x00 \<notin> set nm"
      using long_opts_names by blast
    have "\<not> (strncmp nm ptr len = 0 \<and> c_at nm len = CHR 0x00)"
    proof
      assume "strncmp nm ptr len = 0 \<and> c_at nm len = CHR 0x00"
      with nm(2) long_name_len_props [of ptr] have "nm = take len ptr"
        unfolding len_def by (intro strncmp_match_take) auto
      with nm(1) e nomatch show False
        unfolding len_def ptr_def by force
    qed
    with nm(1) show "\<exists>nm. o_name e = Some nm \<and> \<not> (strncmp nm ptr len = 0 \<and> c_at nm len = CHR 0x00)"
      by blast
  qed
  then have "long_lookup long_opts ptr len 0 = Inl (OutOfBounds (length long_opts))"
    by (intro long_lookup_runs_off) auto
  moreover have "length long_opts = 15" by (simp add: long_opts_def)
  ultimately show ?thesis
    using ind dashes more unfolding getopt_long_def ptr_def len_def
    by (simp add: Let_def)
qed

theorem getopt_long_unknown_reads_past_table_witness:
  "getopt_long [''tar2sqfs'', ''--bogus'', ''out.sqfs''] short_opts long_opts getopt_init
     = Inl (OutOfBounds 15)"
  by (rule getopt_long_unknown_reads_past_table)
     (simp_all add: getopt_init_def c_at_def long_name_len_def long_opts_def)


section \<open>The block size is not checked by process\_args\<close>

lemma getopt_long_short_b:
  assumes "c_at f 0 \<noteq> CHR ''-''"
  shows "getopt_long [p, ''-b'', v, f] short_opts long_opts getopt_init
         = Inr (Some CHR ''b'', \<lparr>current = [], optind = 3, optarg = Some v, opt_stderr = []\<rparr>)"
  by (simp add: getopt_long_def getopt_def getopt_init_def Let_def c_at_def short_opts_def strchr_def)

lemma long_lookup_block_size: "long_lookup long_opts ''block-size'' 10 0 = Inr 1"
  by code_simp

lemma getopt_long_long_b:
  "getopt_long [p, ''--block-size'', v, f] short_opts long_opts getopt_init
     = Inr (Some CHR ''b'', \<lparr>current = [], optind = 3, optarg = Some v, opt_stderr = []\<rparr>)"
proof -
  have len: "long_name_len ''block-size'' = 10" by (simp add: long_name_len_def)
  have e: "array_read long_opts (Suc 0) =
             Inr \<lparr>o_name = Some ''block-size'', has_arg = required_argument, o_val = CHR ''b''\<rparr>"
    by (simp add: array_read_def long_opts_def)
  show ?thesis
    by (simp add: getopt_long_def getopt_init_def Let_def c_at_def len long_lookup_block_size e
          required_argument_def)
qed

lemma getopt_long_file:
  assumes "c_at f 0 \<noteq> CHR ''-''"
  shows "getopt_long [p, a, v, f] short_opts long_opts
           \<lparr>current = [], optind = 3, optarg = Some v, opt_stderr = []\<rparr>
         = Inr (None, \<lparr>current = [], optind = 3, optarg = Some v, opt_stderr = []\<rparr>)"
  using assms
  by (simp add: getopt_long_def getopt_def Let_def c_at_def)

lemma handle_option_b:
  "handle_option env CHR ''b'' st opts =
     Inr (opts\<lparr>block_size := word_of_int (strtol env (case optarg st of Some a \<Rightarrow> a | None \<Rightarrow> []))\<rparr>, st)"
  by (simp add: handle_option_def)

lemma process_args_b:
  assumes first: "getopt_long [p, a, v, f] short_opts long_opts getopt_init
         = Inr (Some CHR ''b'', \<lparr>current = [], optind = 3, optarg = Some v, opt_stderr = []\<rparr>)"
    and f: "c_at f 0 \<noteq> CHR ''-''"
  shows "process_args env [p, a, v, f] =
      Returned ((initial_options env)
                  \<lparr>filename := Some f, block_size := word_of_int (strtol env v),
                   max_backlog := 10, comp_id := compressor_get_default env\<rparr>,
                \<lparr>current = [], optind = 4, optarg = Some v, opt_stderr = []\<rparr>)"
proof -
  let ?st = "\<lparr>current = [], optind = 3, optarg = Some v, opt_stderr = []\<rparr>"
  let ?o0 = "(initial_options env)\<lparr>comp_id := compressor_get_default env\<rparr>"
  have "process_args_loop env [p, a, v, f] ?st (?o0\<lparr>block_size := word_of_int (strtol env v)\<rparr>)
        = Returned (?o0\<lparr>block_size := word_of_int (strtol env v)\<rparr>, ?st)"
    by (subst process_args_loop.simps) (simp add: getopt_long_file [OF f])
  then have "process_args_loop env [p, a, v, f] getopt_init ?o0
        = Returned (?o0\<lparr>block_size := word_of_int (strtol env v)\<rparr>, ?st)"
    by (subst process_args_loop.simps) (simp add: first handle_option_b)
  then show ?thesis
    by (simp add: process_args_def initial_options_def)
qed

text \<open>
  C8 (as amended). Argument processing does not reject a block size below 4096. The
  \<open>switch\<close> case of \<open>b\<close> stores \<open>(int) strtol(optarg, NULL, 0)\<close> in \<open>block_size\<close> and
  carries on, whatever the value; so for every command line
  \<open>tar2sqfs -b <value> <sqfsfile>\<close> and \<open>tar2sqfs --block-size <value> <sqfsfile>\<close> in
  which the file name does not start with a dash, \<open>process_args\<close> returns to \<open>main\<close>
  with that block size.
\<close>

theorem process_args_block_size_unchecked:
  "handle_option env CHR ''b'' st opts =
     Inr (opts\<lparr>block_size := word_of_int (strtol env (case optarg st of Some a \<Rightarrow> a | None \<Rightarrow> []))\<rparr>, st) \<and>
   (c_at f 0 \<noteq> CHR ''-'' \<longrightarrow>
    process_args env [p, ''-b'', v, f] =
      Returned ((initial_options env)
                  \<lparr>filename := Some f, block_size := word_of_int (strtol env v),
                   max_backlog := 10, comp_id := compressor_get_default env\<rparr>,
                \<lparr>current = [], optind = 4, optarg = Some v, opt_stderr = []\<rparr>) \<and>
    process_args env [p, ''--block-size'', v, f] =
      Returned ((initial_options env)
                  \<lparr>filename := Some f, block_size := word_of_int (strtol env v),
                   max_backlog := 10, comp_id := compressor_get_default env\<rparr>,
                \<lparr>current = [], optind = 4, optarg = Some v, opt_stderr = []\<rparr>))"
  using handle_option_b [of env st opts]
    process_args_b [OF getopt_long_short_b, where env = env and p = p and v = v and f = f]
    process_args_b [OF getopt_long_long_b, where env = env and p = p and v = v and f = f]
  by blast

theorem process_args_block_size_unchecked_witness:
  "process_args example_args_env [''tar2sqfs'', ''-b'', ''512'', ''out.sqfs''] =
     Returned (\<lparr>filename = Some ''out.sqfs'', block_size = 512, devblksize = 4096,
                quiet = False, outmode = 0, num_jobs = 1, max_backlog = 10,
                comp_id = 1, comp_extra = None, fs_defaults = None, dont_skip = False,
                no_xattr = False, exportable = False, keep_time = False\<rparr>,
               \<lparr>current = [], optind = 4, optarg = Some ''512'', opt_stderr = []\<rparr>) \<and>
   process_args example_args_env [''tar2sqfs'', ''--block-size'', ''512'', ''out.sqfs''] =
     Returned (\<lparr>filename = Some ''out.sqfs'', block_size = 512, devblksize = 4096,
                quiet = False, outmode = 0, num_jobs = 1, max_backlog = 10,
                comp_id = 1, comp_extra = None, fs_defaults = None, dont_skip = False,
                no_xattr = False, exportable = False, keep_time = False\<rparr>,
               \<lparr>current = [], optind = 4, optarg = Some ''512'', opt_stderr = []\<rparr>)"
  using process_args_block_size_unchecked
          [of example_args_env getopt_init "initial_options example_args_env"
              "''out.sqfs''" "''tar2sqfs''" "''512''"]
  by (simp add: c_at_def initial_options_def example_args_env_def strtol_digits_def)

text \<open>
  C8 (as stated) fails: the claim says that a block size below 4096 is rejected by
  argument processing. For \<open>tar2sqfs --block-size 1024 out.sqfs\<close> the function
  \<open>process_args\<close> returns normally with \<open>block_size = 1024\<close>.
\<close>

theorem process_args_accepts_small_block_size:
  "process_args example_args_env [''tar2sqfs'', ''--block-size'', ''1024'', ''out.sqfs''] =
     Returned (\<lparr>filename = Some ''out.sqfs'', block_size = 1024, devblksize = 4096,
                quiet = False, outmode = 0, num_jobs = 1, max_backlog = 10,
                comp_id = 1, comp_extra = None, fs_defaults = None, dont_skip = False,
                no_xattr = False, exportable = False, keep_time = False\<rparr>,
               \<lparr>current = [], optind = 4, optarg = Some ''1024'', opt_stderr = []\<rparr>)"
  by code_simp


section \<open>The exit status of main\<close>

lemmas stmt_defs = lib_stmt_def ptr_stmt_def void_stmt_def compressor_create_stmt_def
  super_init_stmt_def super_write_stmt_def write_options_stmt_def process_tar_ball_stmt_def
  inode_count_stmt_def export_table_stmt_def bytes_used_stmt_def padd_stmt_def statistics_stmt_def

text \<open>
  C1 (the code departs from the claim). The claim asks for a status other than 0
  whenever a fatal error occurs after argument processing. In \<open>main\<close> the variable
  \<open>status\<close> is initialised with \<open>EXIT_SUCCESS\<close> and never set to a failure value, so
  once the configuration is initialised and the output file is open, a run in which any
  later statement jumps to a label (the archive cannot be decoded, the data writer
  cannot be synchronised, the tree or a table cannot be written, the superblock cannot
  be rewritten, the padding fails) returns 0.
\<close>

theorem main_fatal_error_exit_status:
  assumes "process_args (args env) argv = Returned (opts, gst)"
    and "lib env (Compressor_cfg_init_options (comp_id opts) (block_size opts) (comp_extra opts))
           (world st0) = (0, w)"
    and "lib env (Sqfs_open_file (filename opts) (outmode opts)) w = (p, w')" and "p \<noteq> 0"
    and "run_stmts (main_build env opts @ main_finish env opts)
           (st0\<lparr>stderr := stderr st0 @ opt_stderr gst, world := w'\<rparr>) = Some (Inl (l, s))"
  shows "main env argv st0 = Some (Returned (0, s))"
  using assms
  by (simp add: main_def Let_def main_status_init_def EXIT_SUCCESS_def)

lemma ex_args: "process_args (args (example_env [])) [''tar2sqfs'', ''out.sqfs''] =
    Returned (\<lparr>filename = Some ''out.sqfs'', block_size = 131072, devblksize = 4096,
                quiet = False, outmode = 0, num_jobs = 1, max_backlog = 10,
                comp_id = 1, comp_extra = None, fs_defaults = None, dont_skip = False,
                no_xattr = False, exportable = False, keep_time = False\<rparr>,
               \<lparr>current = [], optind = 2, optarg = None, opt_stderr = []\<rparr>)"
  by code_simp

lemma ex_tar: "process_tar_ball (example_env []) opts (example_state [1, 2, 3]) = Some (-1, example_state [])"
  by (subst process_tar_ball.simps)
     (simp add: process_tar_record_def example_env_def example_read_header_def example_state_def)

lemma example_env_sel:
  "lib (example_env hdrs) = example_lib"
  "super_encode (example_env hdrs) = (\<lambda>s. word_of_nat (bytes_used s) # replicate 95 0)"
  "sink_write_fails (example_env hdrs) = (\<lambda>w off bs. False)"
  "args (example_env hdrs) = example_args_env"
  "inode_tbl_size (example_env hdrs) = (\<lambda>w. 3)"
  "SQFS_FLAG_COMPRESSOR_OPTIONS (example_env hdrs) = 0x0400"
  by (simp_all add: example_env_def)

lemma ex_tar_truncated:
  "process_tar_ball (example_env []) opts \<lparr>stdin = [1, 2, 3], stderr = e, stdout = out, world = w\<rparr>
     = Some (-1, \<lparr>stdin = [], stderr = e, stdout = out, world = w\<rparr>)"
  by (subst process_tar_ball.simps)
     (simp add: process_tar_record_def example_env_def example_read_header_def)

lemma ex_run:
  "run_stmts (main_build (example_env []) opts @ main_finish (example_env []) opts)
           (example_state [1, 2, 3]) =
         Some (Inl (L_out, \<lparr>stdin = [], stderr = [], stdout = [],
                 world = \<lparr>outfile = 0 # replicate 95 0, super = example_super, priv = ()\<rparr>\<rparr>))"
  by (simp add: main_build_def stmt_defs example_lib_def sqfs_super_write_def write_at_def
        example_state_def example_super_def ex_tar_truncated example_env_sel)

theorem main_fatal_error_exit_status_witness:
  "main (example_env []) [''tar2sqfs'', ''out.sqfs''] (example_state [1, 2, 3]) =
     Some (Returned (0, \<lparr>stdin = [], stderr = [], stdout = [],
             world = \<lparr>outfile = 0 # replicate 95 0, super = example_super, priv = ()\<rparr>\<rparr>))"
proof -
  let ?opts = "\<lparr>filename = Some ''out.sqfs'', block_size = 131072, devblksize = 4096,
                quiet = False, outmode = 0, num_jobs = 1, max_backlog = 10,
                comp_id = 1, comp_extra = None, fs_defaults = None, dont_skip = False,
                no_xattr = False, exportable = False, keep_time = False\<rparr>"
  let ?gst = "\<lparr>current = [], optind = 2, optarg = None, opt_stderr = []\<rparr>"
  have a: "process_args (args (example_env [])) [''tar2sqfs'', ''out.sqfs''] = Returned (?opts, ?gst)"
    by (rule ex_args)
  have b: "lib (example_env []) (Compressor_cfg_init_options (comp_id ?opts) (block_size ?opts)
             (comp_extra ?opts)) (world (example_state [1, 2, 3]))
        = (0, world (example_state [1, 2, 3]))"
    by (simp add: example_env_sel example_lib_def)
  have c: "lib (example_env []) (Sqfs_open_file (filename ?opts) (outmode ?opts))
             (world (example_state [1, 2, 3]))
        = (1, world (example_state [1, 2, 3]))"
    by (simp add: example_env_sel example_lib_def example_state_def)
  have d: "(1::int) \<noteq> 0" by simp
  have e: "run_stmts (main_build (example_env []) ?opts @ main_finish (example_env []) ?opts)
          ((example_state [1, 2, 3])\<lparr>stderr := stderr (example_state [1, 2, 3]) @ opt_stderr ?gst,
              world := world (example_state [1, 2, 3])\<rparr>) =
         Some (Inl (L_out, \<lparr>stdin = [], stderr = [], stdout = [],
                 world = \<lparr>outfile = 0 # replicate 95 0, super = example_super, priv = ()\<rparr>\<rparr>))"
    using ex_run [of ?opts] by (simp add: example_state_def)
  show ?thesis
    by (rule main_fatal_error_exit_status [OF a b c d e])
qed


section \<open>The size of the image and its padding\<close>

text \<open>
  The contract of the byte sink for what the model takes from outside (spec, 4.2: the
  sink is written to and asked for its size, never truncated): the superblock record
  has 96 bytes; no call of the library after the file is opened and none of the tree and
  data writer functions makes the output file shorter; the two calls that print the
  statistics leave file and superblock as they are.
\<close>

definition is_open_call :: "lib_call \<Rightarrow> bool" where
  "is_open_call c = (case c of Sqfs_open_file n m \<Rightarrow> True | _ \<Rightarrow> False)"

definition sink_contract :: "('x, 'n, 'z) main_env_scheme \<Rightarrow> bool" where
  "sink_contract env \<longleftrightarrow>
     (\<forall>s. length (super_encode env s) = 96) \<and>
     (\<forall>c w. \<not> is_open_call c \<longrightarrow> length (outfile w) \<le> length (outfile (snd (lib env c w)))) \<and>
     (\<forall>w. outfile (snd (lib env Fstree_gen_file_list w)) = outfile w \<and>
          super (snd (lib env Fstree_gen_file_list w)) = super w) \<and>
     (\<forall>w. outfile (snd (lib env Sqfs_print_statistics w)) = outfile w \<and>
          super (snd (lib env Sqfs_print_statistics w)) = super w) \<and>
     (\<forall>w n s t. length (outfile w) \<le> length (outfile (snd (fstree_add_generic env w n s t)))) \<and>
     (\<forall>w n k v. length (outfile w) \<le> length (outfile (snd (fstree_add_xattr env w n k v)))) \<and>
     (\<forall>w n b. length (outfile w) \<le> length (outfile (snd (write_data_from_file env w n b)))) \<and>
     (\<forall>w n b m. length (outfile w) \<le>
        length (outfile (snd (write_data_from_file_condensed env w n b m))))"

definition sink_grows :: "'x sqfs_world tar_state \<Rightarrow> 'x sqfs_world tar_state \<Rightarrow> bool" where
  "sink_grows s s' \<longleftrightarrow> length (outfile (world s)) \<le> length (outfile (world s'))"

lemma sink_grows_refl [simp]: "sink_grows s s"
  by (simp add: sink_grows_def)

lemma sink_grows_trans: "sink_grows a b \<Longrightarrow> sink_grows b c \<Longrightarrow> sink_grows a c"
  by (simp add: sink_grows_def)

lemma length_write_at: "length (write_at file off bs) = max (length file) (off + length bs)"
  by (auto simp: write_at_def)

lemma copy_xattr_grows:
  assumes "sink_contract env"
  shows "copy_xattr env opts node xs st = (r, st') \<Longrightarrow> sink_grows st st'"
proof (induction xs arbitrary: st)
  case Nil
  then show ?case by auto
next
  case (Cons x xs)
  show ?case
  proof (cases "sqfs_has_xattr env (x_key x)")
    case False
    with Cons.prems show ?thesis
      by (auto simp: sink_grows_def split: if_splits dest!: Cons.IH)
  next
    case True
    obtain ret w where aw: "fstree_add_xattr env (world st) node (x_key x) (x_value x) = (ret, w)"
      by (cases "fstree_add_xattr env (world st) node (x_key x) (x_value x)")
    from assms have g: "length (outfile (world st)) \<le> length (outfile w)"
      using aw unfolding sink_contract_def by (metis snd_conv)
    show ?thesis
    proof (cases "ret = 0")
      case True
      with Cons.prems \<open>sqfs_has_xattr env (x_key x)\<close> aw
      have "copy_xattr env opts node xs (st\<lparr>world := w\<rparr>) = (r, st')" by simp
      then have "sink_grows (st\<lparr>world := w\<rparr>) st'" by (rule Cons.IH)
      with g show ?thesis by (simp add: sink_grows_def)
    next
      case False
      with Cons.prems \<open>sqfs_has_xattr env (x_key x)\<close> aw g show ?thesis
        by (auto simp: sink_grows_def)
    qed
  qed
qed

lemma write_file_world:
  assumes "write_file env hdr fi st = (r, st')"
  shows "world st' = world st \<or>
         (\<exists>b m. world st' = snd (write_data_from_file_condensed env (world st) fi b m)) \<or>
         (\<exists>b. world st' = snd (write_data_from_file env (world st) fi b))"
proof (cases "sparse hdr \<noteq> []")
  case True
  show ?thesis
  proof (cases "read_window (stdin st) (sum_list (map sp_count (sparse hdr)))")
    case None
    with True assms show ?thesis
      by (auto simp: write_file_def Let_def split: if_splits)
  next
    case (Some bw)
    obtain body rest where bw: "bw = (body, rest)" by (cases bw)
    obtain ret w where wd:
      "write_data_from_file_condensed env (world st) fi body (sparse hdr) = (ret, w)"
      by (cases "write_data_from_file_condensed env (world st) fi body (sparse hdr)")
    then have "w = snd (write_data_from_file_condensed env (world st) fi body (sparse hdr))"
      by simp
    moreover from True Some bw wd assms have "world st' = world st \<or> world st' = w"
      by (auto simp: write_file_def Let_def split: if_splits option.splits)
    ultimately show ?thesis by blast
  qed
next
  case False
  show ?thesis
  proof (cases "read_window (stdin st) (file_size env (world st) fi)")
    case None
    with False assms show ?thesis
      by (auto simp: write_file_def Let_def split: if_splits)
  next
    case (Some bw)
    obtain body rest where bw: "bw = (body, rest)" by (cases bw)
    obtain ret w where wd: "write_data_from_file env (world st) fi body = (ret, w)"
      by (cases "write_data_from_file env (world st) fi body")
    then have "w = snd (write_data_from_file env (world st) fi body)" by simp
    moreover from False Some bw wd assms have "world st' = world st \<or> world st' = w"
      by (auto simp: write_file_def Let_def split: if_splits option.splits)
    ultimately show ?thesis by blast
  qed
qed

lemma write_file_grows:
  assumes "sink_contract env" and "write_file env hdr fi st = (r, st')"
  shows "sink_grows st st'"
proof -
  have c1: "\<And>w b m. length (outfile w) \<le>
        length (outfile (snd (write_data_from_file_condensed env w fi b m)))"
    and c2: "\<And>w b. length (outfile w) \<le> length (outfile (snd (write_data_from_file env w fi b)))"
    using assms(1) unfolding sink_contract_def by blast+
  from write_file_world [OF assms(2)] show ?thesis
    unfolding sink_grows_def using c1 [of "world st"] c2 [of "world st"] by auto
qed

lemma create_node_grows:
  assumes "sink_contract env" and "create_node_and_repack_data env opts hdr st = (r, st')"
  shows "sink_grows st st'"
proof -
  define h where "h = (if \<not> keep_time opts
                 then hdr\<lparr>sb := (sb hdr)\<lparr>st_mtime := defaults_mtime env (world st)\<rparr>\<rparr>
                 else hdr)"
  obtain nd w where ag:
    "fstree_add_generic env (world st) (name_str h) (sb h) (link_target h) = (nd, w)"
    by (cases "fstree_add_generic env (world st) (name_str h) (sb h) (link_target h)")
  from assms(1) have g: "length (outfile (world st)) \<le> length (outfile w)"
    using ag unfolding sink_contract_def by (metis snd_conv)
  show ?thesis
  proof (cases nd)
    case None
    with assms(2) ag g show ?thesis
      by (auto simp: create_node_and_repack_data_def Let_def h_def [symmetric] sink_grows_def)
  next
    case (Some node)
    have cg: "\<And>s r s'. copy_xattr env opts node (xattr h) s = (r, s') \<Longrightarrow>
                length (outfile (world s)) \<le> length (outfile (world s'))"
      using copy_xattr_grows [OF assms(1)] by (simp add: sink_grows_def)
    have wg: "\<And>s r s'. write_file env h node s = (r, s') \<Longrightarrow>
                length (outfile (world s)) \<le> length (outfile (world s'))"
      using write_file_grows [OF assms(1)] by (simp add: sink_grows_def)
    from assms(2) Some ag g show ?thesis
      unfolding create_node_and_repack_data_def Let_def h_def [symmetric] sink_grows_def
      by (auto split: if_splits prod.splits dest!: cg wg)
  qed
qed

lemma check_record_frame:
  assumes "check_record env hdr0 st0 = (skip, hdr, st3)"
  shows "world st3 = world st0 \<and> stdin st3 = stdin st0 \<and> stdout st3 = stdout st0"
proof -
  obtain skip1 h1 st1 where c1: "check_name env hdr0 st0 = (skip1, h1, st1)"
    by (cases "check_name env hdr0 st0")
  obtain skip2 h2 st2 where c2: "check_unknown (skip1, h1, st1) = (skip2, h2, st2)"
    by (cases "check_unknown (skip1, h1, st1)")
  from assms c1 c2 have c3: "check_sparse (skip2, h2, st2) = (skip, hdr, st3)"
    by (simp add: check_record_def)
  from c1 have "world st1 = world st0 \<and> stdin st1 = stdin st0 \<and> stdout st1 = stdout st0"
    unfolding check_name_def by (auto split: option.splits prod.splits if_splits)
  moreover from c2 have "world st2 = world st1 \<and> stdin st2 = stdin st1 \<and> stdout st2 = stdout st1"
    unfolding check_unknown_def by (auto split: if_splits)
  moreover from c3 have "world st3 = world st2 \<and> stdin st3 = stdin st2 \<and> stdout st3 = stdout st2"
    unfolding check_sparse_def by (auto split: prod.splits if_splits)
  ultimately show ?thesis by simp
qed

lemma process_tar_record_cases:
  assumes "process_tar_record env opts st = res"
  shows "(\<exists>r s. res = Inl (r, s) \<and> world s = world st) \<or>
         (\<exists>s. res = Inr s \<and> world s = world st) \<or>
         (\<exists>hdr st3 r st4. world st3 = world st \<and>
             create_node_and_repack_data env opts hdr st3 = (r, st4) \<and>
             (res = Inl (-1, st4) \<or> res = Inr st4))"
proof -
  obtain ret hdr0 rest where rh: "read_header env (stdin st) = (ret, hdr0, rest)"
    by (cases "read_header env (stdin st)")
  obtain skip hdr st3 where cr: "check_record env hdr0 (st\<lparr>stdin := rest\<rparr>) = (skip, hdr, st3)"
    by (cases "check_record env hdr0 (st\<lparr>stdin := rest\<rparr>)")
  from check_record_frame [OF cr] have w3: "world st3 = world st" by simp
  obtain r st4 where cn: "create_node_and_repack_data env opts hdr st3 = (r, st4)"
    by (cases "create_node_and_repack_data env opts hdr st3")
  consider "ret > 0" | "ret < 0" | "ret = 0" "skip" | "ret = 0" "\<not> skip" by fastforce
  then show ?thesis
  proof cases
    case 1
    with rh assms show ?thesis by (auto simp: process_tar_record_def)
  next
    case 2
    with rh assms show ?thesis by (auto simp: process_tar_record_def)
  next
    case 3
    with rh cr w3 assms show ?thesis
      by (auto simp: process_tar_record_def split: option.splits)
  next
    case 4
    with rh cr assms cn have "res = Inl (-1, st4) \<or> res = Inr st4"
      by (auto simp: process_tar_record_def)
    with w3 cn show ?thesis by blast
  qed
qed

lemma process_tar_record_grows:
  assumes "sink_contract env"
  shows "process_tar_record env opts st = Inl (r, st') \<Longrightarrow> sink_grows st st'"
    and "process_tar_record env opts st = Inr st' \<Longrightarrow> sink_grows st st'"
  using process_tar_record_cases [of env opts st] create_node_grows [OF assms]
  by (fastforce simp: sink_grows_def)+

lemma process_tar_ball_grows_imp:
  assumes "process_tar_ball env opts st = Some res"
  shows "sink_contract env \<longrightarrow> sink_grows st (snd res)"
proof (rule process_tar_ball.raw_induct
         [where P = "\<lambda>env opts st res. sink_contract env \<longrightarrow> sink_grows st (snd res)",
          OF _ assms])
  fix ptb :: "('a, 'b, 'c) main_env_scheme \<Rightarrow> options \<Rightarrow> 'a sqfs_world tar_state
                \<Rightarrow> (int \<times> 'a sqfs_world tar_state) option"
  fix env opts st res
  assume IH: "\<And>env opts st y. ptb env opts st = Some y \<Longrightarrow>
                sink_contract env \<longrightarrow> sink_grows st (snd y)"
    and body: "(case process_tar_record env opts st of Inl result \<Rightarrow> Some result
                | Inr st' \<Rightarrow> ptb env opts st') = Some res"
  show "sink_contract env \<longrightarrow> sink_grows st (snd res)"
  proof
    assume sc: "sink_contract env"
    show "sink_grows st (snd res)"
    proof (cases "process_tar_record env opts st")
      case (Inl a)
      with body have "a = res" by simp
      with Inl process_tar_record_grows(1) [OF sc, of opts st "fst res" "snd res"]
      show ?thesis by simp
    next
      case (Inr st')
      with body have "ptb env opts st' = Some res" by simp
      then have "sink_grows st' (snd res)" using IH sc by blast
      moreover have "sink_grows st st'"
        using Inr process_tar_record_grows(2) [OF sc] by blast
      ultimately show ?thesis by (blast intro: sink_grows_trans)
    qed
  qed
qed

lemma process_tar_ball_grows:
  "process_tar_ball env opts st = Some res \<Longrightarrow> sink_contract env \<Longrightarrow> sink_grows st (snd res)"
  using process_tar_ball_grows_imp by blast

text \<open>The statements of main.\<close>

definition stmt_grows :: "'x sqfs_world tar_state stmt \<Rightarrow> bool" where
  "stmt_grows f \<longleftrightarrow> (\<forall>s r s'. f s = Some (r, s') \<longrightarrow> sink_grows s s')"

lemma run_stmts_grows:
  assumes "\<forall>(l, f) \<in> set fs. stmt_grows f"
  shows "run_stmts fs s = Some (Inr s') \<Longrightarrow> sink_grows s s'"
  using assms
proof (induction fs arbitrary: s)
  case Nil
  then show ?case by simp
next
  case (Cons lf fs)
  obtain l f where lf: "lf = (l, f)" by (cases lf)
  with Cons.prems(1) obtain r s1 where f: "f s = Some (r, s1)" and "r = 0"
    and rest: "run_stmts fs s1 = Some (Inr s')"
    by (auto split: option.splits if_splits)
  from Cons.prems(2) lf have "stmt_grows f" by simp
  with f have "sink_grows s s1" unfolding stmt_grows_def by blast
  moreover from Cons.prems(2) have "sink_grows s1 s'"
    by (intro Cons.IH [OF rest]) simp
  ultimately show ?case by (rule sink_grows_trans)
qed

lemma run_stmts_append:
  "run_stmts (fs @ gs) s = Some (Inr s') \<longleftrightarrow>
     (\<exists>s1. run_stmts fs s = Some (Inr s1) \<and> run_stmts gs s1 = Some (Inr s'))"
proof (induction fs arbitrary: s)
  case Nil
  show ?case by simp
next
  case (Cons lf fs)
  obtain l f where lf: "lf = (l, f)" by (cases lf)
  show ?case
    using Cons.IH unfolding lf
    by (auto split: option.splits)
qed

lemma lib_grows:
  assumes "sink_contract env" and "\<not> is_open_call c"
  shows "length (outfile w) \<le> length (outfile (snd (lib env c w)))"
  using assms unfolding sink_contract_def by blast

lemma lib_stmt_grows:
  assumes "sink_contract env" and "\<not> is_open_call c"
  shows "stmt_grows (lib_stmt env c)" "stmt_grows (ptr_stmt env c)" "stmt_grows (void_stmt env c)"
  using lib_grows [OF assms]
  unfolding stmt_grows_def lib_stmt_def ptr_stmt_def void_stmt_def sink_grows_def
  by (auto split: prod.splits) (metis snd_conv)+

lemma super_write_stmt_grows:
  "stmt_grows (super_write_stmt env)"
  unfolding stmt_grows_def super_write_stmt_def sqfs_super_write_def sink_grows_def Let_def
  by (auto simp: length_write_at split: prod.splits if_splits)

lemma super_write_stmt_size:
  assumes "length (super_encode env (super (world s))) = 96"
    and "super_write_stmt env s = Some (0, s')"
  shows "96 \<le> length (outfile (world s'))"
    and "96 \<le> length (outfile (world s)) \<Longrightarrow> length (outfile (world s')) = length (outfile (world s))"
  using assms
  unfolding super_write_stmt_def sqfs_super_write_def Let_def
  by (auto simp: length_write_at split: prod.splits if_splits)

lemma main_build_grows:
  assumes "sink_contract env"
  shows "\<forall>(l, f) \<in> set (main_build env opts). stmt_grows f"
proof -
  have a: "stmt_grows (compressor_create_stmt env)"
    using lib_grows [OF assms, of Sqfs_compressor_create]
    unfolding stmt_grows_def compressor_create_stmt_def sink_grows_def
    by (auto simp: is_open_call_def split: prod.splits if_splits) (metis snd_conv)+
  have b: "stmt_grows (write_options_stmt env)"
    using lib_grows [OF assms, of Write_options]
    unfolding stmt_grows_def write_options_stmt_def sink_grows_def
    by (auto simp: is_open_call_def split: prod.splits if_splits) (metis snd_conv)+
  have c: "stmt_grows (process_tar_ball_stmt env opts)"
    using process_tar_ball_grows [OF _ assms]
    unfolding stmt_grows_def process_tar_ball_stmt_def by fastforce
  have d: "stmt_grows (inode_count_stmt env)"
    unfolding stmt_grows_def inode_count_stmt_def sink_grows_def by auto
  have e: "stmt_grows (export_table_stmt env opts)"
    using lib_stmt_grows(1) [OF assms, of Write_export_table]
    unfolding stmt_grows_def export_table_stmt_def by (auto simp: is_open_call_def)
  have f: "super_init_stmt env opts = lib_stmt env (Sqfs_super_init (block_size opts) (comp_id opts))"
    by (rule ext) (simp add: super_init_stmt_def)
  show ?thesis
    unfolding main_build_def
    by (simp add: a b c d e f super_write_stmt_grows
          lib_stmt_grows [OF assms] is_open_call_def)
qed

lemma main_build_split:
  "main_build env opts =
     [(L_out_fd, lib_stmt env (Fstree_init (block_size opts) (fs_defaults opts))),
      (L_out_fs, compressor_create_stmt env),
      (L_out_cmp, super_init_stmt env opts)] @
     (L_out_cmp, super_write_stmt env) # drop 4 (main_build env opts)"
  by (simp add: main_build_def)

lemma main_build_holds_superblock:
  assumes contract: "sink_contract env"
    and build: "run_stmts (main_build env opts) st0 = Some (Inr st1)"
  shows "96 \<le> length (outfile (world st1))"
proof -
  from build obtain sa where
    tl: "run_stmts ((L_out_cmp, super_write_stmt env) # drop 4 (main_build env opts)) sa
           = Some (Inr st1)"
    by (subst (asm) main_build_split) (auto simp only: run_stmts_append)
  then obtain sb where sw: "super_write_stmt env sa = Some (0, sb)"
    and post: "run_stmts (drop 4 (main_build env opts)) sb = Some (Inr st1)"
    by (auto split: option.splits if_splits)
  from contract have "length (super_encode env (super (world sa))) = 96"
    unfolding sink_contract_def by blast
  then have "96 \<le> length (outfile (world sb))"
    using sw by (rule super_write_stmt_size(1))
  moreover have "\<forall>(l, f) \<in> set (drop 4 (main_build env opts)). stmt_grows f"
    using main_build_grows [OF contract, of opts] by (meson in_set_dropD)
  then have "sink_grows sb st1" using post by (rule run_stmts_grows)
  ultimately show ?thesis by (simp add: sink_grows_def)
qed

lemma pad_multiple:
  assumes "0 < (d::nat)"
  shows "(n + (d - n mod d)) mod d = 0"
proof -
  have "n mod d < d" using assms by simp
  then have "n + (d - n mod d) = (n - n mod d) + d" by simp
  also have "\<dots> = d * (n div d) + d" by (simp add: minus_mod_eq_mult_div)
  finally show ?thesis by simp
qed

lemma write_at_end: "write_at file (length file) bs = file @ bs"
  by (simp add: write_at_def)

text \<open>
  C6. In a run that reaches the end of \<open>main\<close>, with collaborators that keep the
  contract of the byte sink and a device block size above 0 (argument processing admits
  none below 1024): \<open>bytes_used\<close> of the superblock is the size of the output file just
  before the superblock is rewritten and the file padded; the rewriting leaves that size
  as it is, so \<open>bytes_used\<close> is the size of the image before the padding; the padding is
  fewer than \<open>devblksize\<close> zero bytes at the end; and the size of the file at the end is a
  multiple of \<open>devblksize\<close>.
\<close>

theorem bytes_used_and_padding:
  assumes contract: "sink_contract env"
    and blk: "0 < unat (devblksize opts)"
    and build: "run_stmts (main_build env opts) st0 = Some (Inr st1)"
    and finish: "run_stmts (main_finish env opts) st1 = Some (Inr st2)"
  shows "bytes_used (super (world st2)) = length (outfile (world st1)) \<and>
         (\<exists>k < unat (devblksize opts).
            outfile (world st2) =
              write_at (outfile (world st1)) 0 (super_encode env (super (world st2))) @ replicate k 0) \<and>
         length (write_at (outfile (world st1)) 0 (super_encode env (super (world st2))))
           = bytes_used (super (world st2)) \<and>
         length (outfile (world st2)) mod unat (devblksize opts) = 0"
proof -
  define n where "n = length (outfile (world st1))"
  define d where "d = unat (devblksize opts)"
  define sa where "sa = st1\<lparr>world := (world st1)\<lparr>super := (super (world st1))\<lparr>bytes_used := n\<rparr>\<rparr>\<rparr>"
  define image where "image = write_at (outfile (world st1)) 0 (super_encode env (super (world sa)))"
  have n96: "96 \<le> n"
    unfolding n_def using contract build by (rule main_build_holds_superblock)
  have enc: "length (super_encode env (super (world sa))) = 96"
    using contract unfolding sink_contract_def by blast
  have image_len: "length image = n"
    using n96 enc by (simp add: image_def length_write_at n_def)
  from finish obtain sb sc where
    sw: "super_write_stmt env sa = Some (0, sb)"
    and pd: "padd_stmt env opts sb = Some (0, sc)"
    and stat: "statistics_stmt env opts sc = Some (0, st2)"
    unfolding main_finish_def sa_def n_def
    by (auto simp: bytes_used_stmt_def get_size_def split: option.splits if_splits)
  from sw have sb: "outfile (world sb) = image" "super (world sb) = super (world sa)"
    unfolding super_write_stmt_def sqfs_super_write_def Let_def image_def sa_def
    by (auto split: if_splits)
  have bu': "bytes_used (super (world sa)) = n"
    by (simp add: sa_def)
  have bu: "bytes_used (super (world sb)) = n"
    by (simp add: sb sa_def)
  from pd have sc: "super (world sc) = super (world sa)"
    and sc_out: "outfile (world sc) = image @ replicate (if n mod d = 0 then 0 else d - n mod d) 0"
    using sb bu unfolding padd_stmt_def padd_sqfs_def Let_def
    by (auto simp: bu' d_def get_size_def write_at_end split: if_splits)
  from stat contract have st2: "super (world st2) = super (world sc)"
    "outfile (world st2) = outfile (world sc)"
    unfolding statistics_stmt_def sink_contract_def
    by (auto split: if_splits)
  have dpos: "0 < d" using blk by (simp add: d_def)
  have k: "(if n mod d = 0 then 0 else d - n mod d) < d"
    using dpos by simp
  have "length (outfile (world st2)) mod d = 0"
    using pad_multiple [OF dpos, of n]
    by (simp add: st2 sc_out image_len)
  moreover have "super (world st2) = super (world sa)" by (simp add: st2 sc)
  moreover have "bytes_used (super (world sa)) = n" by (simp add: sa_def)
  ultimately show ?thesis
    using k image_len st2(2) sc_out
    unfolding image_def n_def [symmetric] d_def [symmetric]
    by auto
qed

lemma example_tar_empty:
  "process_tar_ball (example_env hdrs) opts \<lparr>stdin = [], stderr = e, stdout = out, world = w\<rparr>
     = Some (0, \<lparr>stdin = [], stderr = e, stdout = out, world = w\<rparr>)"
  by (subst process_tar_ball.simps)
     (simp add: process_tar_record_def example_env_def example_read_header_def)

lemma example_sink_contract: "sink_contract (example_env hdrs)"
  unfolding sink_contract_def
  by (auto simp: example_env_def example_lib_def is_open_call_def split: lib_call.splits)

theorem bytes_used_and_padding_witness:
  "run_stmts (main_build (example_env []) example_opts) (example_state []) =
     Some (Inr \<lparr>stdin = [], stderr = [], stdout = [],
                world = \<lparr>outfile = 0 # replicate 95 0,
                         super = example_super\<lparr>inode_count := 1\<rparr>, priv = ()\<rparr>\<rparr>) \<and>
   run_stmts (main_finish (example_env []) example_opts)
       \<lparr>stdin = [], stderr = [], stdout = [],
        world = \<lparr>outfile = 0 # replicate 95 0,
                 super = example_super\<lparr>inode_count := 1\<rparr>, priv = ()\<rparr>\<rparr> =
     Some (Inr \<lparr>stdin = [], stderr = [], stdout = [],
                world = \<lparr>outfile = 96 # replicate 95 0 @ replicate 4000 0,
                         super = example_super\<lparr>inode_count := 1, bytes_used := 96\<rparr>,
                         priv = ()\<rparr>\<rparr>) \<and>
   bytes_used (example_super\<lparr>inode_count := 1, bytes_used := 96\<rparr>) = length (0 # replicate 95 (0::byte)) \<and>
   length (96 # replicate 95 (0::byte) @ replicate 4000 0) mod 4096 = 0"
proof -
  let ?st1 = "\<lparr>stdin = [], stderr = [], stdout = [],
                world = \<lparr>outfile = 0 # replicate 95 0,
                         super = example_super\<lparr>inode_count := 1\<rparr>, priv = ()\<rparr>\<rparr>"
  let ?st2 = "\<lparr>stdin = [], stderr = [], stdout = [],
                world = \<lparr>outfile = 96 # replicate 95 0 @ replicate 4000 0,
                         super = example_super\<lparr>inode_count := 1, bytes_used := 96\<rparr>,
                         priv = ()\<rparr>\<rparr>"
  have blk: "0 < unat (devblksize example_opts)"
    by (simp add: example_opts_def)
  have build: "run_stmts (main_build (example_env []) example_opts) (example_state []) = Some (Inr ?st1)"
    by (simp add: main_build_def stmt_defs example_lib_def sqfs_super_write_def write_at_def
          example_state_def example_super_def example_tar_empty example_env_sel example_opts_def)
  have finish: "run_stmts (main_finish (example_env []) example_opts) ?st1 = Some (Inr ?st2)"
    by (simp add: main_finish_def stmt_defs example_lib_def sqfs_super_write_def padd_sqfs_def
          write_at_def get_size_def example_super_def example_env_sel example_opts_def
          replicate_add [symmetric])
  from bytes_used_and_padding [OF example_sink_contract blk build finish] build finish
  show ?thesis by simp
qed


section \<open>Invalid records of the archive\<close>

lemma example_env_tar_sel:
  "read_header (example_env hdrs) = example_read_header hdrs"
  "canonicalize_name (example_env hdrs) = (\<lambda>n. (if n = [] then -1 else 0, n))"
  "fstree_add_generic (example_env hdrs) = (\<lambda>w n s t. (Some (), w))"
  "sqfs_has_xattr (example_env hdrs) = (\<lambda>k. True)"
  "fstree_add_xattr (example_env hdrs) = (\<lambda>w n k v. (0, w))"
  "defaults_mtime (example_env hdrs) = (\<lambda>w. 0)"
  "file_size (example_env hdrs) = (\<lambda>w n. 0)"
  "sqfs_get_stdin_file (example_env hdrs) = (\<lambda>sz. True)"
  "write_data_from_file (example_env hdrs) = (\<lambda>w n body. (0, w\<lparr>outfile := outfile w @ body\<rparr>))"
  "write_data_from_file_condensed (example_env hdrs) =
     (\<lambda>w n body m. (0, w\<lparr>outfile := outfile w @ body\<rparr>))"
  by (simp_all add: example_env_def)

text \<open>
  The checks and the packing of the headers of the instance, and runs of the loop on
  them.
\<close>

lemma check_record_valid_sparse:
  "check_record (example_env hdrs) sparse_test_header st = (False, sparse_test_header, st)"
  by (simp add: check_record_def check_name_def check_unknown_def check_sparse_def
        example_env_def sparse_test_header_def sparse_test_map_def)

lemma check_record_broken_sparse:
  "check_record (example_env hdrs) broken_sparse_header st =
     (True, broken_sparse_header,
      st\<lparr>stderr := stderr st @ [''input.bin: broken sparse file layout)'']\<rparr>)"
  by (simp add: check_record_def check_name_def check_unknown_def check_sparse_def
        example_env_def broken_sparse_header_def sparse_test_header_def sparse_test_map_def
        shown_name_def)

lemma check_record_regular:
  "check_record (example_env hdrs) regular_header st = (False, regular_header, st)"
  by (simp add: check_record_def check_name_def check_unknown_def check_sparse_def
        example_env_def regular_header_def empty_header_def)

lemma check_record_wrapped:
  "check_record (example_env hdrs) wrapped_sparse_header st = (False, wrapped_sparse_header, st)"
  by (simp add: check_record_def check_name_def check_unknown_def check_sparse_def
        example_env_def wrapped_sparse_header_def)

lemma create_node_sparse:
  assumes "sparse hdr \<noteq> []" and "name hdr = Some nm" and "xattr hdr = []"
    and "S_ISREG (st_mode (sb hdr))"
    and "unat (sum_list (map sp_count (sparse hdr))) = length body"
    and "unat (record_size hdr) mod 512 = 0"
  shows "create_node_and_repack_data (example_env hdrs) example_opts hdr
           \<lparr>stdin = body @ rest, stderr = e, stdout = out,
            world = \<lparr>outfile = img, super = s, priv = ()\<rparr>\<rparr> =
         (0, \<lparr>stdin = rest, stderr = e, stdout = out @ [''Packing '' @ nm],
              world = \<lparr>outfile = img @ body, super = s, priv = ()\<rparr>\<rparr>)"
proof -
  let ?h = "hdr\<lparr>sb := (sb hdr)\<lparr>st_mtime := 0\<rparr>\<rparr>"
  have wf: "write_file (example_env hdrs) ?h ()
              \<lparr>stdin = body @ rest, stderr = e, stdout = out @ [''Packing '' @ nm],
               world = \<lparr>outfile = img, super = s, priv = ()\<rparr>\<rparr> =
            (0, \<lparr>stdin = rest, stderr = e, stdout = out @ [''Packing '' @ nm],
               world = \<lparr>outfile = img @ body, super = s, priv = ()\<rparr>\<rparr>)"
    using assms(1,5,6)
    by (simp add: write_file_def example_env_tar_sel read_window_def skip_padding_def)
  show ?thesis
    unfolding create_node_and_repack_data_def Let_def
    using assms(2,3,4) wf
    by (simp add: example_opts_def example_env_tar_sel name_str_def)
qed

lemma create_node_regular:
  "create_node_and_repack_data (example_env hdrs) example_opts regular_header
           \<lparr>stdin = rest, stderr = e, stdout = out,
            world = \<lparr>outfile = img, super = s, priv = ()\<rparr>\<rparr> =
         (0, \<lparr>stdin = rest, stderr = e, stdout = out @ [''Packing y''],
              world = \<lparr>outfile = img, super = s, priv = ()\<rparr>\<rparr>)"
proof -
  let ?h = "regular_header\<lparr>sb := (sb regular_header)\<lparr>st_mtime := 0\<rparr>\<rparr>"
  have h: "sparse ?h = []" "name_str ?h = ''y''" "xattr ?h = []" "S_ISREG (st_mode (sb ?h))"
    by (simp_all add: regular_header_def empty_header_def name_str_def S_ISREG_def S_IFMT_def
          S_IFREG_def)
  have wf: "write_file (example_env hdrs) ?h ()
              \<lparr>stdin = rest, stderr = e, stdout = out @ [''Packing y''],
               world = \<lparr>outfile = img, super = s, priv = ()\<rparr>\<rparr> =
            (0, \<lparr>stdin = rest, stderr = e, stdout = out @ [''Packing y''],
               world = \<lparr>outfile = img, super = s, priv = ()\<rparr>\<rparr>)"
    by (simp add: write_file_def h example_env_tar_sel read_window_def skip_padding_def)
  show ?thesis
    unfolding create_node_and_repack_data_def Let_def
    using h wf by (simp add: example_opts_def example_env_tar_sel)
qed


lemma example_tar_end:
  assumes "input \<noteq> []" and "512 \<le> length input" and "\<not> unat (hd input) < length hdrs"
  shows "process_tar_ball (example_env hdrs) opts
           \<lparr>stdin = input, stderr = e, stdout = out, world = w\<rparr>
         = Some (0, \<lparr>stdin = drop 512 input, stderr = e, stdout = out, world = w\<rparr>)"
  using assms
  by (subst process_tar_ball.simps)
     (simp add: process_tar_record_def example_env_tar_sel example_read_header_def)

lemma sparse_sizes:
  "st_size (sb broken_sparse_header) = 2097152" "record_size broken_sparse_header = 32768"
  "record_size sparse_test_header = 32768"
  "sum_list (map sp_count sparse_test_map) = 32768"
  "sparse sparse_test_header = sparse_test_map" "sparse_test_map \<noteq> []"
  "name sparse_test_header = Some ''input.bin''" "xattr sparse_test_header = []"
  "S_ISREG (st_mode (sb sparse_test_header))"
  by (simp_all add: broken_sparse_header_def sparse_test_header_def sparse_test_map_def
        S_ISREG_def S_IFMT_def S_IFREG_def)

lemma skipped_run:
  "process_tar_ball (example_env [broken_sparse_header, regular_header]) example_opts
     (example_state two_record_stream) =
   Some (0, \<lparr>stdin = [], stderr = [''input.bin: broken sparse file layout)''], stdout = [],
             world = \<lparr>outfile = [], super = example_super, priv = ()\<rparr>\<rparr>)"
proof -
  let ?env = "example_env [broken_sparse_header, regular_header]"
  have rh: "read_header ?env two_record_stream =
              (0, broken_sparse_header,
               replicate 32768 1 @ 1 # replicate 511 0 @ replicate 2063872 9)"
    by (simp add: example_env_tar_sel example_read_header_def two_record_stream_def)
  have step: "process_tar_record ?env example_opts (example_state two_record_stream) =
     Inr \<lparr>stdin = [], stderr = [''input.bin: broken sparse file layout)''], stdout = [],
          world = \<lparr>outfile = [], super = example_super, priv = ()\<rparr>\<rparr>"
    by (simp add: process_tar_record_def example_state_def rh check_record_broken_sparse
          sparse_sizes example_opts_def skip_entry_def skip_bytes_def padded_size_def)
  show ?thesis
    by (subst process_tar_ball.simps) (simp add: step example_tar_empty)
qed

lemma packed_run:
  "process_tar_ball (example_env [sparse_test_header, regular_header]) example_opts
     (example_state two_record_stream) =
   Some (0, \<lparr>stdin = replicate 2063360 9, stderr = [],
             stdout = [''Packing input.bin'', ''Packing y''],
             world = \<lparr>outfile = replicate 32768 1, super = example_super, priv = ()\<rparr>\<rparr>)"
proof -
  let ?env = "example_env [sparse_test_header, regular_header]"
  let ?st1 = "\<lparr>stdin = 1 # replicate 511 0 @ replicate 2063872 9, stderr = [],
               stdout = [''Packing input.bin''],
               world = \<lparr>outfile = replicate 32768 1, super = example_super, priv = ()\<rparr>\<rparr>"
  let ?st2 = "\<lparr>stdin = replicate 2063872 9, stderr = [],
               stdout = [''Packing input.bin'', ''Packing y''],
               world = \<lparr>outfile = replicate 32768 1, super = example_super, priv = ()\<rparr>\<rparr>"
  have rh1: "read_header ?env two_record_stream =
              (0, sparse_test_header,
               replicate 32768 1 @ 1 # replicate 511 0 @ replicate 2063872 9)"
    by (simp add: example_env_tar_sel example_read_header_def two_record_stream_def)
  have cn1: "create_node_and_repack_data ?env example_opts sparse_test_header
           \<lparr>stdin = replicate 32768 1 @ 1 # replicate 511 0 @ replicate 2063872 9,
            stderr = [], stdout = [],
            world = \<lparr>outfile = [], super = example_super, priv = ()\<rparr>\<rparr> = (0, ?st1)"
    using create_node_sparse [of sparse_test_header "''input.bin''" "replicate 32768 1"
        "[sparse_test_header, regular_header]" "1 # replicate 511 0 @ replicate 2063872 9"
        "[]" "[]" "[]" example_super]
    by (simp add: sparse_sizes)
  have step1: "process_tar_record ?env example_opts (example_state two_record_stream) = Inr ?st1"
    by (simp add: process_tar_record_def example_state_def rh1 check_record_valid_sparse cn1)
  have rh2: "read_header ?env (1 # replicate 511 0 @ replicate 2063872 9) =
              (0, regular_header, replicate 2063872 9)"
    by (simp add: example_env_tar_sel example_read_header_def)
  have step2: "process_tar_record ?env example_opts ?st1 = Inr ?st2"
    by (simp add: process_tar_record_def rh2 check_record_regular create_node_regular)
  have fin: "process_tar_ball ?env example_opts ?st2 =
     Some (0, \<lparr>stdin = replicate 2063360 9, stderr = [],
             stdout = [''Packing input.bin'', ''Packing y''],
             world = \<lparr>outfile = replicate 32768 1, super = example_super, priv = ()\<rparr>\<rparr>)"
    using example_tar_end [of "replicate 2063872 9" "[sparse_test_header, regular_header]"]
    by simp
  have "process_tar_ball ?env example_opts ?st1 = process_tar_ball ?env example_opts ?st2"
    by (subst process_tar_ball.simps) (simp add: step2)
  moreover have "process_tar_ball ?env example_opts (example_state two_record_stream) =
           process_tar_ball ?env example_opts ?st1"
    by (subst process_tar_ball.simps) (simp add: step1)
  ultimately show ?thesis using fin by simp
qed

lemma wrapped_step:
  "process_tar_record (example_env [wrapped_sparse_header]) example_opts
     (example_state (replicate 512 0 @ replicate 512 1)) =
   Inr \<lparr>stdin = [], stderr = [], stdout = [''Packing w''],
        world = \<lparr>outfile = replicate 512 1, super = example_super, priv = ()\<rparr>\<rparr>"
proof -
  let ?env = "example_env [wrapped_sparse_header]"
  have rh: "read_header ?env (replicate 512 0 @ replicate 512 1) =
              (0, wrapped_sparse_header, replicate 512 1)"
    by (simp add: example_env_tar_sel example_read_header_def)
  have cn: "create_node_and_repack_data ?env example_opts wrapped_sparse_header
           \<lparr>stdin = replicate 512 1 @ [], stderr = [], stdout = [],
            world = \<lparr>outfile = [], super = example_super, priv = ()\<rparr>\<rparr> =
           (0, \<lparr>stdin = [], stderr = [], stdout = [] @ [''Packing '' @ ''w''],
              world = \<lparr>outfile = [] @ replicate 512 1, super = example_super, priv = ()\<rparr>\<rparr>)"
    by (rule create_node_sparse)
       (simp_all add: wrapped_sparse_header_def S_ISREG_def S_IFMT_def S_IFREG_def)
  show ?thesis
    using cn by (simp add: process_tar_record_def example_state_def rh check_record_wrapped)
qed

text \<open>
  C4 (the code departs from the claim). The claim asks that the body of a record that
  is skipped is drained and that the loop goes on with the next record, and that a
  sparse map whose extents are not in ascending order of their offsets makes a record
  invalid. The body of a sparse record is \<open>record_size\<close> bytes, but a record that is
  skipped is drained by \<open>skip_entry\<close> over \<open>sb.st_size\<close>. In the archive
  \<open>two_record_stream\<close> the sparse record of the sparse test is followed by the record
  of an empty file \<open>y\<close>. When the sparse record is skipped for its broken map, 2097152
  bytes are drained where its body has 32768: the record of \<open>y\<close> is passed over with
  them, nothing is packed and the result is 0. With the map in order, both records are
  packed from the same archive. And the record whose map has the offsets
  \<open>0xFFFFFFFFFFFFFFFF\<close> and \<open>0\<close>, in this order, is not skipped but packed: the
  check compares with \<open>offset + count\<close> of the extent before, which is 0 there in
  64 bits.
\<close>

theorem skipped_sparse_record_swallows_next_record:
  "process_tar_ball (example_env [broken_sparse_header, regular_header]) example_opts
     (example_state two_record_stream) =
   Some (0, \<lparr>stdin = [], stderr = [''input.bin: broken sparse file layout)''], stdout = [],
             world = \<lparr>outfile = [], super = example_super, priv = ()\<rparr>\<rparr>) \<and>
   process_tar_ball (example_env [sparse_test_header, regular_header]) example_opts
     (example_state two_record_stream) =
   Some (0, \<lparr>stdin = replicate 2063360 9, stderr = [],
             stdout = [''Packing input.bin'', ''Packing y''],
             world = \<lparr>outfile = replicate 32768 1, super = example_super, priv = ()\<rparr>\<rparr>) \<and>
   record_size broken_sparse_header = 32768 \<and>
   st_size (sb broken_sparse_header) = 2097152 \<and>
   map sp_offset (sparse wrapped_sparse_header) = [0xFFFFFFFFFFFFFFFF, 0] \<and>
   process_tar_record (example_env [wrapped_sparse_header]) example_opts
     (example_state (replicate 512 0 @ replicate 512 1)) =
   Inr \<lparr>stdin = [], stderr = [], stdout = [''Packing w''],
        world = \<lparr>outfile = replicate 512 1, super = example_super, priv = ()\<rparr>\<rparr>"
proof -
  have "map sp_offset (sparse wrapped_sparse_header) = [0xFFFFFFFFFFFFFFFF, 0]"
    by (simp add: wrapped_sparse_header_def)
  with skipped_run packed_run sparse_sizes(1,2) wrapped_step show ?thesis
    by (intro conjI)
qed

text \<open>
  C5 (the code departs from the claim). The claim asks that a skipped record consumes
  as many body bytes as a processed one: for a sparse file \<open>record_size\<close>, rounded up
  to 512. A record that is skipped is drained by \<open>skip_entry\<close> over \<open>sb.st_size\<close>,
  which for a sparse file is the size of the file with its holes. With the header of
  the sparse test (\<open>st_size\<close> 2097152, \<open>record_size\<close> 32768) the record that is
  processed consumes 32768 body bytes, and the record with the same sizes that is
  skipped for its broken sparse map consumes 2097152.
\<close>

theorem skipped_sparse_record_drains_file_size:
  "process_tar_record (example_env [sparse_test_header]) example_opts
     (example_state (replicate 512 0 @ replicate 32768 1 @ [2, 3])) =
     Inr \<lparr>stdin = [2, 3], stderr = [], stdout = [''Packing input.bin''],
          world = \<lparr>outfile = replicate 32768 1, super = example_super, priv = ()\<rparr>\<rparr> \<and>
   process_tar_record (example_env [broken_sparse_header]) example_opts
     (example_state (replicate 512 0 @ replicate 2097152 1 @ [2, 3])) =
     Inr \<lparr>stdin = [2, 3], stderr = [''input.bin: broken sparse file layout)''], stdout = [],
          world = \<lparr>outfile = [], super = example_super, priv = ()\<rparr>\<rparr> \<and>
   padded_size (record_size broken_sparse_header) = 32768 \<and>
   record_size broken_sparse_header = record_size sparse_test_header \<and>
   sb broken_sparse_header = sb sparse_test_header"
proof -
  have valid: "check_record (example_env [sparse_test_header]) sparse_test_header st =
      (False, sparse_test_header, st)" for st :: "unit sqfs_world tar_state"
    by (simp add: check_record_def check_name_def check_unknown_def check_sparse_def
          example_env_def sparse_test_header_def sparse_test_map_def)
  have broken: "check_record (example_env [broken_sparse_header]) broken_sparse_header st =
      (True, broken_sparse_header,
       st\<lparr>stderr := stderr st @ [''input.bin: broken sparse file layout)'']\<rparr>)"
    for st :: "unit sqfs_world tar_state"
    by (simp add: check_record_def check_name_def check_unknown_def check_sparse_def
          example_env_def broken_sparse_header_def sparse_test_header_def sparse_test_map_def
          shown_name_def)
  have sizes: "st_size (sb broken_sparse_header) = 2097152" "st_size (sb sparse_test_header) = 2097152"
    "record_size broken_sparse_header = 32768"
    by (simp_all add: broken_sparse_header_def sparse_test_header_def)
  have sum: "sum_list (map sp_count sparse_test_map) = 32768"
    by (simp add: sparse_test_map_def)
  have wf: "write_file (example_env [sparse_test_header]) hdr ()
              \<lparr>stdin = replicate 32768 1 @ [2, 3], stderr = [], stdout = [''Packing input.bin''],
               world = \<lparr>outfile = [], super = example_super, priv = ()\<rparr>\<rparr> =
            (0, \<lparr>stdin = [2, 3], stderr = [], stdout = [''Packing input.bin''],
               world = \<lparr>outfile = replicate 32768 1, super = example_super, priv = ()\<rparr>\<rparr>)"
    if "sparse hdr = sparse_test_map" "record_size hdr = 32768" for hdr
  proof -
    have ne: "sparse_test_map \<noteq> []" by (simp add: sparse_test_map_def)
    show ?thesis
      by (simp add: write_file_def that ne sum example_env_tar_sel read_window_def skip_padding_def)
  qed
  have cn: "create_node_and_repack_data (example_env [sparse_test_header]) example_opts
              sparse_test_header
              \<lparr>stdin = replicate 32768 1 @ [2, 3], stderr = [], stdout = [],
               world = \<lparr>outfile = [], super = example_super, priv = ()\<rparr>\<rparr> =
            (0, \<lparr>stdin = [2, 3], stderr = [], stdout = [''Packing input.bin''],
               world = \<lparr>outfile = replicate 32768 1, super = example_super, priv = ()\<rparr>\<rparr>)"
  proof -
    let ?h = "sparse_test_header\<lparr>sb := (sb sparse_test_header)\<lparr>st_mtime := 0\<rparr>\<rparr>"
    have h: "sparse ?h = sparse_test_map" "record_size ?h = 32768" "name_str ?h = ''input.bin''"
      "xattr ?h = []" "S_ISREG (st_mode (sb ?h))" "S_ISREG (st_mode (sb sparse_test_header))"
      by (simp_all add: sparse_test_header_def name_str_def S_ISREG_def S_IFMT_def S_IFREG_def)
    show ?thesis
      unfolding create_node_and_repack_data_def Let_def
      by (simp add: example_opts_def example_env_tar_sel h wf [OF h(1) h(2)])
  qed
  have rh1: "read_header (example_env [sparse_test_header])
               (replicate 512 0 @ replicate 32768 1 @ [2, 3]) =
             (0, sparse_test_header, replicate 32768 1 @ [2, 3])"
    by (simp add: example_env_tar_sel example_read_header_def)
  have rh2: "read_header (example_env [broken_sparse_header])
               (replicate 512 0 @ replicate 2097152 1 @ [2, 3]) =
             (0, broken_sparse_header, replicate 2097152 1 @ [2, 3])"
    by (simp add: example_env_tar_sel example_read_header_def)
  have p1: "process_tar_record (example_env [sparse_test_header]) example_opts
     (example_state (replicate 512 0 @ replicate 32768 1 @ [2, 3])) =
     Inr \<lparr>stdin = [2, 3], stderr = [], stdout = [''Packing input.bin''],
          world = \<lparr>outfile = replicate 32768 1, super = example_super, priv = ()\<rparr>\<rparr>"
    by (simp add: process_tar_record_def example_state_def rh1 valid cn)
  have p2: "process_tar_record (example_env [broken_sparse_header]) example_opts
     (example_state (replicate 512 0 @ replicate 2097152 1 @ [2, 3])) =
     Inr \<lparr>stdin = [2, 3], stderr = [''input.bin: broken sparse file layout)''], stdout = [],
          world = \<lparr>outfile = [], super = example_super, priv = ()\<rparr>\<rparr>"
    by (simp add: process_tar_record_def example_state_def rh2 broken sizes example_opts_def
          skip_entry_def skip_bytes_def padded_size_def)
  have same: "record_size broken_sparse_header = record_size sparse_test_header"
    "sb broken_sparse_header = sb sparse_test_header"
    by (simp_all add: broken_sparse_header_def)
  have pad: "padded_size (record_size broken_sparse_header) = 32768"
    by (simp add: sizes padded_size_def)
  show ?thesis
    using p1 p2 same pad by blast
qed


section \<open>The table of identifiers\<close>

lemma of_le_bytes_le_bytes: "of_le_bytes (le_bytes x) = x"
proof (rule bit_word_eqI)
  fix n assume n: "n < LENGTH(32)"
  then consider "n < 8" | "8 \<le> n" "n < 16" | "16 \<le> n" "n < 24" | "24 \<le> n" "n < 32"
    by fastforce
  then show "bit (of_le_bytes (le_bytes x)) n = bit x n"
  proof cases
    case 1
    then show ?thesis by (auto simp: of_le_bytes_def le_bytes_def bit_simps)
  next
    case 2
    then show ?thesis by (auto simp: of_le_bytes_def le_bytes_def bit_simps)
  next
    case 3
    then show ?thesis by (auto simp: of_le_bytes_def le_bytes_def bit_simps)
  next
    case 4
    then show ?thesis by (auto simp: of_le_bytes_def le_bytes_def bit_simps)
  qed
qed

lemma byte_bit_bound: "bit (a :: byte) n \<Longrightarrow> n < 8"
  by (auto dest: bit_imp_le_length)

lemma le_bytes_of_le_bytes4: "le_bytes (of_le_bytes [a, b, c, d]) = [a, b, c, d]"
  unfolding of_le_bytes_def le_bytes_def
  apply simp
  apply (intro conjI bit_word_eqI)
  apply (auto simp: bit_simps dest: byte_bit_bound)
  done

lemma le_bytes_bswap32: "le_bytes (bswap32 x) = rev (le_bytes x)"
proof -
  have "rev (le_bytes x) = [ucast (drop_bit 24 x), ucast (drop_bit 16 x), ucast (drop_bit 8 x), ucast x]"
    by (simp add: le_bytes_def)
  then show ?thesis
    unfolding bswap32_def by (simp only: le_bytes_of_le_bytes4)
qed

lemma bswap32_bswap32: "bswap32 (bswap32 x) = x"
proof -
  have "bswap32 (bswap32 x) = of_le_bytes (rev (le_bytes (bswap32 x)))"
    by (simp add: bswap32_def)
  also have "\<dots> = of_le_bytes (le_bytes x)" by (simp add: le_bytes_bswap32)
  finally show ?thesis by (simp add: of_le_bytes_le_bytes)
qed

lemma mem_bytes_htole32: "mem_bytes be (htole32 be x) = le_bytes x"
  by (simp add: mem_bytes_def htole32_def le_bytes_bswap32)

lemma le32toh_htole32: "le32toh be (htole32 be x) = x"
  by (simp add: le32toh_def htole32_def bswap32_bswap32)

lemma id_to_index_result:
  assumes "id_to_index ids v = (0, ids', idx)"
  shows "ids' = id_insert ids v"
  using assms by (auto simp: id_to_index_def id_insert_def split: if_splits)

lemma first_index_found:
  "v \<in> set ids \<Longrightarrow> length (takeWhile (\<lambda>x. x \<noteq> v) ids) < length ids \<and>
     ids ! length (takeWhile (\<lambda>x. x \<noteq> v) ids) = v"
  by (induction ids) auto

lemma id_to_index_index:
  assumes "id_to_index ids v = (0, ids', idx)" and "length ids \<le> 65536"
  shows "unat idx < length ids' \<and> ids' ! unat idx = v \<and> length ids' \<le> 65536"
proof (cases "v \<in> set ids")
  case True
  define i where "i = length (takeWhile (\<lambda>x. x \<noteq> v) ids)"
  from True have lt: "i < length ids"
    unfolding i_def by (simp add: first_index_found)
  with assms(2) have "i < 2 ^ 16" by simp
  then have u: "unat (word_of_nat i :: 16 word) = i"
    by (simp add: unat_of_nat)
  from True have "ids ! i = v"
    unfolding i_def by (simp add: first_index_found)
  moreover from True assms(1) have "ids' = ids" "idx = word_of_nat i"
    by (auto simp: id_to_index_def i_def)
  ultimately show ?thesis using lt u assms(2) by simp
next
  case False
  with assms have lt: "length ids < 65536" and ids': "ids' = ids @ [v]"
    and idx: "idx = word_of_nat (length ids)"
    by (auto simp: id_to_index_def split: if_splits)
  from lt have "unat (word_of_nat (length ids) :: 16 word) = length ids"
    by (simp add: unat_of_nat)
  with lt ids' idx show ?thesis by simp
qed

lemma id_insert_distinct: "distinct ids \<Longrightarrow> distinct (id_insert ids v)"
  by (simp add: id_insert_def)

lemma id_insert_set: "set (id_insert ids v) = insert v (set ids)"
  by (auto simp: id_insert_def)

lemma foldl_id_insert_distinct: "distinct ids \<Longrightarrow> distinct (foldl id_insert ids vs)"
  by (induction vs arbitrary: ids) (simp_all add: id_insert_distinct)

lemma foldl_id_insert_set: "set (foldl id_insert ids vs) = set ids \<union> set vs"
  by (induction vs arbitrary: ids) (auto simp: id_insert_set)

lemma foldl_id_insert_prefix: "take (length ids) (foldl id_insert ids vs) = ids"
proof (induction vs arbitrary: ids)
  case Nil
  show ?case by simp
next
  case (Cons v vs)
  have "take (length ids) (foldl id_insert (id_insert ids v) vs)
        = take (length ids) (take (length (id_insert ids v)) (foldl id_insert (id_insert ids v) vs))"
    by (simp add: id_insert_def min_def)
  also have "\<dots> = take (length ids) (id_insert ids v)" by (simp only: Cons.IH)
  also have "\<dots> = ids" by (simp add: id_insert_def)
  finally show ?case by simp
qed

lemma id_table_write_eq:
  "id_table_write env ids outfd super0 =
     (case sqfs_write_table env outfd (super0\<lparr>id_count := word_of_nat (length ids)\<rparr>)
             (concat (map le_bytes ids)) 4 (length ids) of
        (ret, start, outfd') \<Rightarrow>
          (ret, ids, outfd',
           super0\<lparr>id_count := word_of_nat (length ids), id_table_start := start\<rparr>))"
proof -
  have a: "map (mem_bytes (host_big_endian env)) (map (htole32 (host_big_endian env)) ids)
           = map le_bytes ids"
    by (simp add: mem_bytes_htole32)
  have b: "map (le32toh (host_big_endian env)) (map (htole32 (host_big_endian env)) ids) = ids"
    by (simp add: le32toh_htole32 map_idI)
  show ?thesis
    unfolding id_table_write_def Let_def a b by simp
qed


section \<open>What a run of the serialiser leaves behind\<close>

text \<open>
  What serialisation leaves of a node: everything but the inode reference and the
  pointer to the inode that the data writer made.
\<close>

fun plain :: "tree_node \<Rightarrow> tree_node" where
  "plain (TreeNode a cs) = TreeNode (a\<lparr>n_inode_ref := 0, n_user_ptr := None\<rparr>) (map plain cs)"

definition node_ids :: "tree_node \<Rightarrow> 32 word list" where
  "node_ids n = [n_uid (attr n), n_gid (attr n)]"

definition inode_num :: "tree_node \<Rightarrow> nat" where
  "inode_num n = n_inode_num (attr n)"

text \<open>
  \<open>serialized env wr wr' ns\<close>: from \<open>wr\<close> to \<open>wr'\<close> the inodes of the nodes \<open>ns\<close> were
  written to the inode table, in this order and nothing else; their owners and groups
  were entered into the table of identifiers; the superblock is as it was; and the
  directory table was neither flushed nor written to the file.
\<close>

definition serialized :: "serialize_env \<Rightarrow> writer \<Rightarrow> writer \<Rightarrow> tree_node list \<Rightarrow> bool" where
  "serialized env wr wr' ns \<longleftrightarrow>
     (\<exists>inodes. w_im wr' = w_im wr @ map IM_write_inode inodes \<and>
               map i_inode_number inodes = map inode_num ns) \<and>
     w_idtbl wr' = foldl id_insert (w_idtbl wr) (concat (map node_ids ns)) \<and>
     w_super wr' = w_super wr \<and>
     (\<exists>ds. w_dm wr' = w_dm wr @ ds \<and> DM_flush \<notin> set ds \<and> DM_write_to_file \<notin> set ds) \<and>
     (\<exists>bs. w_outfile wr' = w_outfile wr @ bs)"

lemma serialized_refl: "serialized env wr wr []"
  unfolding serialized_def by (auto intro: exI [of _ "[]"])

lemma serialized_trans:
  assumes "serialized env wr wr1 ns" and "serialized env wr1 wr2 ms"
  shows "serialized env wr wr2 (ns @ ms)"
proof -
  from assms(1) obtain i1 d1 b1 where 1:
    "w_im wr1 = w_im wr @ map IM_write_inode i1" "map i_inode_number i1 = map inode_num ns"
    "w_idtbl wr1 = foldl id_insert (w_idtbl wr) (concat (map node_ids ns))"
    "w_super wr1 = w_super wr"
    "w_dm wr1 = w_dm wr @ d1" "DM_flush \<notin> set d1" "DM_write_to_file \<notin> set d1"
    "w_outfile wr1 = w_outfile wr @ b1"
    unfolding serialized_def by blast
  from assms(2) obtain i2 d2 b2 where 2:
    "w_im wr2 = w_im wr1 @ map IM_write_inode i2" "map i_inode_number i2 = map inode_num ms"
    "w_idtbl wr2 = foldl id_insert (w_idtbl wr1) (concat (map node_ids ms))"
    "w_super wr2 = w_super wr1"
    "w_dm wr2 = w_dm wr1 @ d2" "DM_flush \<notin> set d2" "DM_write_to_file \<notin> set d2"
    "w_outfile wr2 = w_outfile wr1 @ b2"
    unfolding serialized_def by blast
  have "w_im wr2 = w_im wr @ map IM_write_inode (i1 @ i2)"
    "map i_inode_number (i1 @ i2) = map inode_num (ns @ ms)"
    using 1 2 by simp_all
  moreover have "w_idtbl wr2 = foldl id_insert (w_idtbl wr) (concat (map node_ids (ns @ ms)))"
    using 1 2 by simp
  moreover have "w_dm wr2 = w_dm wr @ (d1 @ d2)" "DM_flush \<notin> set (d1 @ d2)"
    "DM_write_to_file \<notin> set (d1 @ d2)"
    using 1 2 by simp_all
  moreover have "w_outfile wr2 = w_outfile wr @ (b1 @ b2)" using 1 2 by simp
  ultimately show ?thesis
    unfolding serialized_def using 1(4) 2(4)
    by (intro conjI exI [of _ "i1 @ i2"] exI [of _ "d1 @ d2"] exI [of _ "b1 @ b2"]) simp_all
qed

lemma plain_fields:
  assumes "plain n = plain m"
  shows "inode_num n = inode_num m" "node_ids n = node_ids m" "is_dir n = is_dir m"
    "map plain (children n) = map plain (children m)"
proof -
  obtain a cs where n: "n = TreeNode a cs" by (cases n)
  obtain b ds where m: "m = TreeNode b ds" by (cases m)
  from assms n m have eq: "a\<lparr>n_inode_ref := 0, n_user_ptr := None\<rparr> = b\<lparr>n_inode_ref := 0, n_user_ptr := None\<rparr>"
    and cs: "map plain cs = map plain ds" by simp_all
  from eq have "n_inode_num a = n_inode_num b" "n_uid a = n_uid b" "n_gid a = n_gid b"
    "n_mode a = n_mode b"
    by (metis node_attr.select_convs node_attr.surjective node_attr.update_convs)+
  then show "inode_num n = inode_num m" "node_ids n = node_ids m" "is_dir n = is_dir m"
    by (simp_all add: n m inode_num_def node_ids_def is_dir_def)
  show "map plain (children n) = map plain (children m)" using cs by (simp add: n m)
qed

lemma plain_list_fields_conj:
  "map plain ns = map plain ms \<Longrightarrow>
     map inode_num ns = map inode_num ms \<and> map node_ids ns = map node_ids ms \<and>
     map is_dir ns = map is_dir ms"
proof (induction ns arbitrary: ms)
  case Nil
  then show ?case by simp
next
  case (Cons n ns)
  from Cons.prems obtain m ms' where ms: "ms = m # ms'" and p: "plain n = plain m"
    and rest: "map plain ns = map plain ms'"
    by (cases ms) auto
  from Cons.IH [OF rest] plain_fields(1-3) [OF p] ms show ?case by simp
qed

lemma plain_list_fields:
  assumes "map plain ns = map plain ms"
  shows "map inode_num ns = map inode_num ms" "map node_ids ns = map node_ids ms"
    "map is_dir ns = map is_dir ms"
  using plain_list_fields_conj [OF assms] by simp_all

lemma serialized_plain:
  assumes "map plain ns = map plain ms" and "serialized env wr wr' ns"
  shows "serialized env wr wr' ms"
  using assms(2) plain_list_fields(1,2) [OF assms(1)]
  unfolding serialized_def by simp

definition dir_frame :: "writer \<Rightarrow> writer \<Rightarrow> bool" where
  "dir_frame wr wr' \<longleftrightarrow>
     w_im wr' = w_im wr \<and> w_idtbl wr' = w_idtbl wr \<and> w_super wr' = w_super wr \<and>
     (\<exists>ds. w_dm wr' = w_dm wr @ ds \<and> DM_flush \<notin> set ds \<and> DM_write_to_file \<notin> set ds) \<and>
     (\<exists>bs. w_outfile wr' = w_outfile wr @ bs)"

lemma dir_frame_refl: "dir_frame wr wr"
  unfolding dir_frame_def by (auto intro: exI [of _ "[]"])

lemma dir_frame_trans:
  assumes "dir_frame a b" and "dir_frame b c"
  shows "dir_frame a c"
proof -
  from assms(1) obtain d1 b1 where 1: "w_im b = w_im a" "w_idtbl b = w_idtbl a" "w_super b = w_super a"
    "w_dm b = w_dm a @ d1" "DM_flush \<notin> set d1" "DM_write_to_file \<notin> set d1"
    "w_outfile b = w_outfile a @ b1"
    unfolding dir_frame_def by blast
  from assms(2) obtain d2 b2 where 2: "w_im c = w_im b" "w_idtbl c = w_idtbl b" "w_super c = w_super b"
    "w_dm c = w_dm b @ d2" "DM_flush \<notin> set d2" "DM_write_to_file \<notin> set d2"
    "w_outfile c = w_outfile b @ b2"
    unfolding dir_frame_def by blast
  have "w_dm c = w_dm a @ (d1 @ d2)" "DM_flush \<notin> set (d1 @ d2)" "DM_write_to_file \<notin> set (d1 @ d2)"
    "w_outfile c = w_outfile a @ (b1 @ b2)"
    using 1 2 by simp_all
  then show ?thesis
    unfolding dir_frame_def using 1(1-3) 2(1-3)
    by (intro conjI exI [of _ "d1 @ d2"] exI [of _ "b1 @ b2"]) simp_all
qed

lemma dir_frame_call:
  assumes "c \<noteq> DM_flush" and "c \<noteq> DM_write_to_file"
  shows "dir_frame wr (snd (dm_call_on env c wr))"
  using assms unfolding dir_frame_def dm_call_on_def
  by (auto intro: exI [of _ "[c]"])

lemma dir_frame_failed: "dir_frame wr wr' \<Longrightarrow> dir_frame wr (recoding_failed wr')"
  unfolding dir_frame_def recoding_failed_def by simp

lemma add_entries_frame: "add_entries env its wr = (ret, wr') \<Longrightarrow> dir_frame wr wr'"
proof (induction its arbitrary: wr)
  case Nil
  then show ?case by (simp add: dir_frame_refl)
next
  case (Cons it its)
  let ?c = "DIR_add_entry (n_name (attr it)) (n_inode_num (attr it)) (n_inode_ref (attr it))
                (n_mode (attr it))"
  obtain r wr1 where c: "dm_call_on env ?c wr = (r, wr1)" by (cases "dm_call_on env ?c wr")
  have f1: "dir_frame wr wr1" using dir_frame_call [of ?c wr env] c by simp
  show ?case
  proof (cases "r = 0")
    case True
    with Cons.prems c have "add_entries env its wr1 = (ret, wr')" by simp
    then have "dir_frame wr1 wr'" by (rule Cons.IH)
    with f1 show ?thesis by (rule dir_frame_trans)
  next
    case False
    with Cons.prems c have "wr' = wr1" by simp
    with f1 show ?thesis by simp
  qed
qed

lemma write_dir_entries_frame:
  assumes "write_dir_entries env p node wr = (inode, wr')"
  shows "dir_frame wr wr'"
proof -
  obtain r1 wr1 where c1: "dm_call_on env DIR_begin wr = (r1, wr1)"
    by (cases "dm_call_on env DIR_begin wr")
  have f1: "dir_frame wr wr1" using dir_frame_call [of DIR_begin wr env] c1 by simp
  obtain r2 wr2 where c2: "add_entries env (children node) wr1 = (r2, wr2)"
    by (cases "add_entries env (children node) wr1")
  have f2: "dir_frame wr wr2" using f1 add_entries_frame [OF c2] by (rule dir_frame_trans)
  obtain r3 wr3 where c3: "dm_call_on env DIR_end wr2 = (r3, wr3)"
    by (cases "dm_call_on env DIR_end wr2")
  have f3: "dir_frame wr wr3"
    using f2 dir_frame_call [of DIR_end wr2 env] c3 by (auto intro: dir_frame_trans)
  define wr4 where "wr4 = wr3\<lparr>w_dm := w_dm wr3 @
                         [DIR_create_inode (n_xattr_idx (attr node)) p]\<rparr>"
  have "dir_frame wr3 wr4"
    unfolding dir_frame_def wr4_def
    by (intro conjI exI [of _ "[DIR_create_inode (n_xattr_idx (attr node)) p]"] exI [of _ "[]"])
       simp_all
  with f3 have f4: "dir_frame wr wr4" by (rule dir_frame_trans)
  from assms c1 c2 c3 have
    "wr' = recoding_failed wr1 \<or> wr' = recoding_failed wr2 \<or> wr' = recoding_failed wr3 \<or>
     wr' = recoding_failed wr4 \<or> wr' = wr4"
    unfolding write_dir_entries_def Let_def wr4_def
    by (auto split: if_splits option.splits)
  with f1 f2 f3 f4 show ?thesis by (auto intro: dir_frame_failed)
qed

lemma tree_node_to_inode_frame:
  assumes "tree_node_to_inode env a wr = Ret inode wr'"
  shows "dir_frame wr wr'"
  using assms unfolding tree_node_to_inode_def Let_def dir_frame_def
  by (auto split: if_splits intro: exI [of _ "[]"])

text \<open>The three ways in which \<open>serialize_tree_node\<close> gets its inode.\<close>

definition make_inode ::
  "serialize_env \<Rightarrow> nat \<Rightarrow> tree_node \<Rightarrow> writer
     \<Rightarrow> (sqfs_inode option \<times> int, writer \<times> tree_node) res" where
  "make_inode env parent_inode n wr =
     (if S_ISDIR (n_mode (attr n)) then
               (case write_dir_entries env parent_inode n wr of
                  (inode, wr') \<Rightarrow> Ret (inode, SQFS_ERROR_INTERNAL env) (wr', n))
             else if S_ISREG (n_mode (attr n)) then
               Ret (n_user_ptr (attr n), SQFS_ERROR_INTERNAL env)
                   (wr, TreeNode ((attr n)\<lparr>n_user_ptr := None\<rparr>) (children n))
             else
               (case tree_node_to_inode env (attr n) wr of
                  Abort f \<Rightarrow> Abort f
                | Ret inode wr' \<Rightarrow> Ret (inode, SQFS_ERROR_ALLOC env) (wr', n)))"

lemma make_inode_frame:
  assumes "make_inode env p n wr = Ret (inode, ret) (wr1, n1)"
  shows "dir_frame wr wr1" and "plain n1 = plain n" and "attr n1 = attr n \<or> attr n1 = (attr n)\<lparr>n_user_ptr := None\<rparr>"
    and "inode = None \<Longrightarrow> ret = SQFS_ERROR_INTERNAL env \<or> ret = SQFS_ERROR_ALLOC env"
    and "children n1 = children n"
proof -
  obtain a cs where n: "n = TreeNode a cs" by (cases n)
  show "dir_frame wr wr1"
    using assms write_dir_entries_frame [of env p n wr] tree_node_to_inode_frame [of env "attr n" wr]
    unfolding make_inode_def
    by (auto split: if_splits prod.splits res.splits simp: dir_frame_refl)
  show "plain n1 = plain n"
    using assms unfolding make_inode_def n
    by (auto split: if_splits prod.splits res.splits)
  show "attr n1 = attr n \<or> attr n1 = (attr n)\<lparr>n_user_ptr := None\<rparr>"
    using assms unfolding make_inode_def n
    by (auto split: if_splits prod.splits res.splits)
  show "ret = SQFS_ERROR_INTERNAL env \<or> ret = SQFS_ERROR_ALLOC env" if "inode = None"
    using assms unfolding make_inode_def
    by (auto split: if_splits prod.splits res.splits)
  show "children n1 = children n"
    using assms unfolding make_inode_def n
    by (auto split: if_splits prod.splits res.splits)
qed

lemma serialize_tree_node_make:
  "serialize_tree_node env parent_inode n wr =
     (case make_inode env parent_inode n wr of
           Abort f \<Rightarrow> Abort f
         | Ret (None, ret) (wr1, n1) \<Rightarrow> Ret ret (wr1, n1)
         | Ret (Some inode0, ret) (wr1, n1) \<Rightarrow>
             (let a = attr n;
                  inode1 = inode0\<lparr>i_mode := ucast (n_mode a), i_mod_time := n_mod_time a,
                                  i_inode_number := n_inode_num a\<rparr>;
                  inode2 = sqfs_inode_set_xattr_index env inode1 (n_xattr_idx a)
              in case id_to_index (w_idtbl wr1) (n_uid a) of
                   (ret_u, ids_u, uid_idx) \<Rightarrow>
                     if ret_u \<noteq> 0 then Ret ret_u (wr1\<lparr>w_idtbl := ids_u\<rparr>, n1)
                     else
                       (case id_to_index ids_u (n_gid a) of
                          (ret_g, ids_g, gid_idx) \<Rightarrow>
                            if ret_g \<noteq> 0 then Ret ret_g (wr1\<lparr>w_idtbl := ids_g\<rparr>, n1)
                            else
                              (let inode3 = inode2\<lparr>i_uid_idx := uid_idx, i_gid_idx := gid_idx\<rparr>;
                                   wr2 = wr1\<lparr>w_idtbl := ids_g\<rparr>;
                                   n2 = TreeNode ((attr n1)\<lparr>n_inode_ref :=
                                                     inode_ref_of (im_position env (w_im wr2))\<rparr>)
                                          (children n1)
                               in case im_call_on env (IM_write_inode inode3) wr2 of
                                    (ret, wr3) \<Rightarrow> Ret ret (wr3, n2)))))"
  unfolding serialize_tree_node_def make_inode_def Let_def
  by (simp split: res.splits prod.splits option.splits)

lemma serialize_tree_node_ok:
  assumes alloc: "SQFS_ERROR_ALLOC env \<noteq> 0" and internal: "SQFS_ERROR_INTERNAL env \<noteq> 0"
    and run: "serialize_tree_node env p n wr = Ret 0 (wr', n')"
  shows "serialized env wr wr' [n]"
    and "plain n' = plain n"
    and "n_inode_ref (attr n') = inode_ref_of (im_position env (w_im wr))"
    and "\<exists>inode. w_im wr' = w_im wr @ [IM_write_inode inode] \<and> i_inode_number inode = inode_num n"
    and "children n' = children n"
proof -
  obtain mk where mk: "make_inode env p n wr = mk" by simp
  from run have "\<exists>inode0 ret wr1 n1. mk = Ret (Some inode0, ret) (wr1, n1)"
  proof (cases mk)
    case (Abort f)
    with run mk show ?thesis by (simp add: serialize_tree_node_make)
  next
    case (Ret x y)
    obtain inode ret where x: "x = (inode, ret)" by (cases x)
    obtain wr1 n1 where y: "y = (wr1, n1)" by (cases y)
    show ?thesis
    proof (cases inode)
      case None
      with Ret x y mk run have "ret = 0" by (simp add: serialize_tree_node_make)
      moreover from make_inode_frame(4) [of env p n wr inode ret wr1 n1] Ret x y mk None
      have "ret = SQFS_ERROR_INTERNAL env \<or> ret = SQFS_ERROR_ALLOC env" by simp
      ultimately show ?thesis using alloc internal by auto
    next
      case (Some inode0)
      with Ret x y show ?thesis by simp
    qed
  qed
  then obtain inode0 ret wr1 n1 where made: "make_inode env p n wr = Ret (Some inode0, ret) (wr1, n1)"
    using mk by blast
  note fr = make_inode_frame [OF made]
  define a where "a = attr n"
  obtain ret_u ids_u uid_idx where u: "id_to_index (w_idtbl wr1) (n_uid a) = (ret_u, ids_u, uid_idx)"
    by (cases "id_to_index (w_idtbl wr1) (n_uid a)")
  obtain ret_g ids_g gid_idx where g: "id_to_index ids_u (n_gid a) = (ret_g, ids_g, gid_idx)"
    by (cases "id_to_index ids_u (n_gid a)")
  define inode3 where "inode3 =
     (sqfs_inode_set_xattr_index env
        (inode0\<lparr>i_mode := ucast (n_mode a), i_mod_time := n_mod_time a,
                 i_inode_number := n_inode_num a\<rparr>) (n_xattr_idx a))
       \<lparr>i_uid_idx := uid_idx, i_gid_idx := gid_idx\<rparr>"
  define wr2 where "wr2 = wr1\<lparr>w_idtbl := ids_g\<rparr>"
  define n2 where "n2 = TreeNode ((attr n1)\<lparr>n_inode_ref := inode_ref_of (im_position env (w_im wr2))\<rparr>)
                          (children n1)"
  from run made u g have zeros: "ret_u = 0" "ret_g = 0"
    and res: "im_call_on env (IM_write_inode inode3) wr2 = (0, wr')" "n' = n2"
    unfolding serialize_tree_node_make Let_def a_def [symmetric] inode3_def wr2_def n2_def
    by (auto split: if_splits prod.splits)
  have ids: "ids_g = id_insert (id_insert (w_idtbl wr1) (n_uid a)) (n_gid a)"
    using u g zeros id_to_index_result by metis
  from fr(1) obtain ds bs where f: "w_im wr1 = w_im wr" "w_idtbl wr1 = w_idtbl wr"
    "w_super wr1 = w_super wr" "w_dm wr1 = w_dm wr @ ds" "DM_flush \<notin> set ds"
    "DM_write_to_file \<notin> set ds" "w_outfile wr1 = w_outfile wr @ bs"
    unfolding dir_frame_def by blast
  from res(1) have wr': "w_im wr' = w_im wr @ [IM_write_inode inode3]"
    "w_idtbl wr' = ids_g" "w_super wr' = w_super wr" "w_dm wr' = w_dm wr @ ds"
    "w_outfile wr' = w_outfile wr @ (bs @ im_emit env (w_im wr) (IM_write_inode inode3))"
    unfolding im_call_on_def wr2_def using f by auto
  have num: "i_inode_number inode3 = inode_num n"
    by (simp add: inode3_def sqfs_inode_set_xattr_index_def inode_num_def a_def)
  show "serialized env wr wr' [n]"
    unfolding serialized_def
  proof (intro conjI)
    show "\<exists>inodes. w_im wr' = w_im wr @ map IM_write_inode inodes \<and>
            map i_inode_number inodes = map inode_num [n]"
      using wr'(1) num by (intro exI [of _ "[inode3]"]) simp
    show "w_idtbl wr' = foldl id_insert (w_idtbl wr) (concat (map node_ids [n]))"
      using wr'(2) ids f(2) by (simp add: node_ids_def a_def)
    show "w_super wr' = w_super wr" by (rule wr'(3))
    show "\<exists>ds. w_dm wr' = w_dm wr @ ds \<and> DM_flush \<notin> set ds \<and> DM_write_to_file \<notin> set ds"
      using wr'(4) f(5,6) by blast
    show "\<exists>bs. w_outfile wr' = w_outfile wr @ bs"
      using wr'(5) by blast
  qed
  obtain b cs where n1: "n1 = TreeNode b cs" by (cases n1)
  have "plain n2 = plain n1" by (simp add: n2_def n1)
  with fr(2) res(2) show "plain n' = plain n" by simp
  show "n_inode_ref (attr n') = inode_ref_of (im_position env (w_im wr))"
    by (simp add: res(2) n2_def wr2_def f(1))
  show "\<exists>inode. w_im wr' = w_im wr @ [IM_write_inode inode] \<and> i_inode_number inode = inode_num n"
    using wr'(1) num by blast
  show "children n' = children n"
    using fr(5) by (simp add: res(2) n2_def)
qed

lemma serialize_children_ok:
  assumes alloc: "SQFS_ERROR_ALLOC env \<noteq> 0" and internal: "SQFS_ERROR_INTERNAL env \<noteq> 0"
  shows "serialize_children env p cs wr = Ret 0 (wr', cs') \<Longrightarrow>
           serialized env wr wr' cs \<and> map plain cs' = map plain cs"
proof (induction cs arbitrary: wr wr' cs')
  case Nil
  then show ?case by (simp add: serialized_refl)
next
  case (Cons it its)
  from Cons.prems obtain wr1 it' its' where
    1: "serialize_tree_node env p it wr = Ret 0 (wr1, it')"
    and 2: "serialize_children env p its wr1 = Ret 0 (wr', its')"
    and cs': "cs' = it' # its'"
    by (auto split: res.splits prod.splits if_splits)
  from serialize_tree_node_ok(1,2) [OF alloc internal 1]
  have a: "serialized env wr wr1 [it]" "plain it' = plain it" .
  from Cons.IH [OF 2] have b: "serialized env wr1 wr' its" "map plain its' = map plain its"
    by simp_all
  from serialized_trans [OF a(1) b(1)] a(2) b(2) cs' show ?case by simp
qed


text \<open>
  The references that the nodes take: \<open>inode_refs env im inodes\<close> are the positions of
  the inode writer, as references, at the moments at which it is given the inodes one
  after the other, \<open>im\<close> being its history before the first.
\<close>

definition node_ref :: "tree_node \<Rightarrow> 64 word" where
  "node_ref n = n_inode_ref (attr n)"

fun inode_refs :: "serialize_env \<Rightarrow> im_call list \<Rightarrow> sqfs_inode list \<Rightarrow> 64 word list" where
  "inode_refs env im [] = []"
| "inode_refs env im (i # rest) =
     inode_ref_of (im_position env im) # inode_refs env (im @ [IM_write_inode i]) rest"

text \<open>
  The positions themselves, as \<open>sqfs_meta_writer_get_position\<close> gives them: the block
  and the offset in it.
\<close>

fun inode_positions ::
  "serialize_env \<Rightarrow> im_call list \<Rightarrow> sqfs_inode list \<Rightarrow> (64 word \<times> 32 word) list" where
  "inode_positions env im [] = []"
| "inode_positions env im (i # rest) =
     im_position env im # inode_positions env (im @ [IM_write_inode i]) rest"

lemma inode_refs_positions:
  "inode_refs env im inodes =
     map (\<lambda>(block, offset). push_bit 16 block OR ucast offset) (inode_positions env im inodes)"
  by (induction inodes arbitrary: im) (simp_all add: inode_ref_of_def split: prod.splits)

lemma inode_refs_append:
  "inode_refs env im (xs @ ys) =
     inode_refs env im xs @ inode_refs env (im @ map IM_write_inode xs) ys"
  by (induction xs arbitrary: im) simp_all

definition refs_ok :: "serialize_env \<Rightarrow> writer \<Rightarrow> writer \<Rightarrow> tree_node list \<Rightarrow> bool" where
  "refs_ok env wr wr' ns \<longleftrightarrow>
     (\<exists>inodes. w_im wr' = w_im wr @ map IM_write_inode inodes \<and>
               map node_ref ns = inode_refs env (w_im wr) inodes)"

lemma refs_ok_refl: "refs_ok env wr wr []"
  unfolding refs_ok_def by (intro exI [of _ "[]"]) simp

lemma refs_ok_trans:
  assumes "refs_ok env wr wr1 ns" and "refs_ok env wr1 wr2 ms"
  shows "refs_ok env wr wr2 (ns @ ms)"
proof -
  from assms(1) obtain i1 where 1: "w_im wr1 = w_im wr @ map IM_write_inode i1"
    "map node_ref ns = inode_refs env (w_im wr) i1"
    unfolding refs_ok_def by blast
  from assms(2) obtain i2 where 2: "w_im wr2 = w_im wr1 @ map IM_write_inode i2"
    "map node_ref ms = inode_refs env (w_im wr1) i2"
    unfolding refs_ok_def by blast
  show ?thesis
    unfolding refs_ok_def using 1 2
    by (intro exI [of _ "i1 @ i2"]) (simp add: inode_refs_append)
qed

lemma serialize_tree_node_refs:
  assumes "SQFS_ERROR_ALLOC env \<noteq> 0" and "SQFS_ERROR_INTERNAL env \<noteq> 0"
    and "serialize_tree_node env p n wr = Ret 0 (wr', n')"
  shows "refs_ok env wr wr' [n']"
proof -
  from serialize_tree_node_ok(3,4) [OF assms]
  obtain inode where "n_inode_ref (attr n') = inode_ref_of (im_position env (w_im wr))"
    "w_im wr' = w_im wr @ [IM_write_inode inode]" by blast
  then show ?thesis
    unfolding refs_ok_def by (intro exI [of _ "[inode]"]) (simp add: node_ref_def)
qed

lemma serialize_children_refs:
  assumes alloc: "SQFS_ERROR_ALLOC env \<noteq> 0" and internal: "SQFS_ERROR_INTERNAL env \<noteq> 0"
  shows "serialize_children env p cs wr = Ret 0 (wr', cs') \<Longrightarrow>
           refs_ok env wr wr' cs' \<and> map children cs' = map children cs"
proof (induction cs arbitrary: wr wr' cs')
  case Nil
  then show ?case by (simp add: refs_ok_refl)
next
  case (Cons it its)
  from Cons.prems obtain wr1 it' its' where
    1: "serialize_tree_node env p it wr = Ret 0 (wr1, it')"
    and 2: "serialize_children env p its wr1 = Ret 0 (wr', its')"
    and cs': "cs' = it' # its'"
    by (auto split: res.splits prod.splits if_splits)
  note a = serialize_tree_node_refs [OF alloc internal 1]
    serialize_tree_node_ok(5) [OF alloc internal 1]
  from Cons.IH [OF 2] have b: "refs_ok env wr1 wr' its'" "map children its' = map children its"
    by simp_all
  from refs_ok_trans [OF a(1) b(1)] a(2) b(2) cs' show ?case by simp
qed

lemma emit_below_children: "children n = children m \<Longrightarrow> emit_below n = emit_below m"
  by (cases n; cases m) simp

lemma emit_subdirs_children:
  "map children cs' = map children cs \<Longrightarrow> map is_dir cs' = map is_dir cs \<Longrightarrow>
     concat (map emit_below (filter is_dir cs')) = concat (map emit_below (filter is_dir cs))"
proof (induction cs arbitrary: cs')
  case Nil
  then show ?case by simp
next
  case (Cons c cs)
  from Cons.prems obtain c' cs'' where cs': "cs' = c' # cs''" by (cases cs') auto
  with Cons.prems have "children c' = children c" "is_dir c' = is_dir c"
    "map children cs'' = map children cs" "map is_dir cs'' = map is_dir cs" by simp_all
  with Cons.IH [of cs''] emit_below_children [of c' c] cs' show ?case by simp
qed

definition codes_ok :: "serialize_env \<Rightarrow> bool" where
  "codes_ok env \<longleftrightarrow> SQFS_ERROR_ALLOC env \<noteq> 0 \<and> SQFS_ERROR_INTERNAL env \<noteq> 0"

lemma serialize_recursive_ok_aux:
  shows "codes_ok env \<longrightarrow> (\<forall>wr' n'. serialize_recursive env n wr = Ret 0 (wr', n') \<longrightarrow>
           serialized env wr wr' (emit_below n) \<and> plain n' = plain n)"
    and "codes_ok env \<longrightarrow> (\<forall>wr' cs'. serialize_subdirs env cs wr = Ret 0 (wr', cs') \<longrightarrow>
           serialized env wr wr' (concat (map emit_below (filter is_dir cs))) \<and>
           map plain cs' = map plain cs)"
proof (induction env n wr and env cs wr rule: serialize_recursive_serialize_subdirs.induct)
  case (1 env a cs wr)
  show ?case
  proof (intro impI allI)
    fix wr' n'
    assume ok: "codes_ok env"
      and run: "serialize_recursive env (TreeNode a cs) wr = Ret 0 (wr', n')"
    from ok have alloc: "SQFS_ERROR_ALLOC env \<noteq> 0" and internal: "SQFS_ERROR_INTERNAL env \<noteq> 0"
      by (simp_all add: codes_ok_def)
    define sub where "sub = (if list_ex is_dir cs then serialize_subdirs env cs wr else Ret 0 (wr, cs))"
    from run obtain wr1 cs1 cs2 where
      s1: "sub = Ret 0 (wr1, cs1)"
      and s2: "serialize_children env (n_inode_num a) cs1 wr1 = Ret 0 (wr', cs2)"
      and n': "n' = TreeNode a cs2"
      unfolding sub_def
      by (auto simp: Let_def split: res.splits prod.splits if_splits)
    have sub_ok: "serialized env wr wr1 (concat (map emit_below (filter is_dir cs))) \<and>
                  map plain cs1 = map plain cs"
    proof (cases "list_ex is_dir cs")
      case True
      with s1 have "serialize_subdirs env cs wr = Ret 0 (wr1, cs1)" by (simp add: sub_def)
      with 1 [OF refl True] ok show ?thesis by blast
    next
      case False
      then have "filter is_dir cs = []" by (auto simp: list_ex_iff filter_empty_conv)
      moreover from False s1 have "wr1 = wr" "cs1 = cs" by (simp_all add: sub_def)
      ultimately show ?thesis by (simp add: serialized_refl)
    qed
    from serialize_children_ok [OF alloc internal s2]
    have ch: "serialized env wr1 wr' cs1" "map plain cs2 = map plain cs1" by simp_all
    from sub_ok ch(1) have "serialized env wr1 wr' cs" by (auto intro: serialized_plain)
    with sub_ok have "serialized env wr wr' (concat (map emit_below (filter is_dir cs)) @ cs)"
      by (auto intro: serialized_trans)
    moreover have "plain n' = plain (TreeNode a cs)" using n' ch(2) sub_ok by simp
    ultimately show "serialized env wr wr' (emit_below (TreeNode a cs)) \<and>
                     plain n' = plain (TreeNode a cs)" by simp
  qed
next
  case (2 env wr)
  show ?case by (simp add: serialized_refl)
next
  case (3 env it its wr)
  show ?case
  proof (intro impI allI)
    fix wr' cs'
    assume ok: "codes_ok env"
      and run: "serialize_subdirs env (it # its) wr = Ret 0 (wr', cs')"
    show "serialized env wr wr' (concat (map emit_below (filter is_dir (it # its)))) \<and>
          map plain cs' = map plain (it # its)"
    proof (cases "is_dir it")
      case True
      with run obtain wr1 it' its' where
        r1: "serialize_recursive env it wr = Ret 0 (wr1, it')"
        and r2: "serialize_subdirs env its wr1 = Ret 0 (wr', its')"
        and cs': "cs' = it' # its'"
        by (auto split: res.splits prod.splits if_splits)
      from "3.IH"(1) [OF True] ok r1
      have a: "serialized env wr wr1 (emit_below it)" "plain it' = plain it" by blast+
      from "3.IH"(2) [OF True r1 refl] ok r2
      have b: "serialized env wr1 wr' (concat (map emit_below (filter is_dir its)))"
        "map plain its' = map plain its" by auto
      from serialized_trans [OF a(1) b(1)] a(2) b(2) cs' True show ?thesis by simp
    next
      case False
      with run obtain its' where
        r2: "serialize_subdirs env its wr = Ret 0 (wr', its')"
        and cs': "cs' = it # its'"
        by (auto split: res.splits prod.splits if_splits)
      from "3.IH"(3) [OF False] ok r2
      have b: "serialized env wr wr' (concat (map emit_below (filter is_dir its)))"
        "map plain its' = map plain its" by blast+
      with cs' False show ?thesis by simp
    qed
  qed
qed

lemma serialize_recursive_ok:
  assumes "codes_ok env" and "serialize_recursive env n wr = Ret 0 (wr', n')"
  shows "serialized env wr wr' (emit_below n)" and "plain n' = plain n"
  using serialize_recursive_ok_aux(1) [of env n wr] assms by blast+


lemma serialize_recursive_refs_aux:
  shows "codes_ok env \<longrightarrow> (\<forall>wr' n'. serialize_recursive env n wr = Ret 0 (wr', n') \<longrightarrow>
           refs_ok env wr wr' (emit_below n'))"
    and "codes_ok env \<longrightarrow> (\<forall>wr' cs'. serialize_subdirs env cs wr = Ret 0 (wr', cs') \<longrightarrow>
           refs_ok env wr wr' (concat (map emit_below (filter is_dir cs'))) \<and>
           map plain cs' = map plain cs)"
proof (induction env n wr and env cs wr rule: serialize_recursive_serialize_subdirs.induct)
  case (1 env a cs wr)
  show ?case
  proof (intro impI allI)
    fix wr' n'
    assume ok: "codes_ok env"
      and run: "serialize_recursive env (TreeNode a cs) wr = Ret 0 (wr', n')"
    from ok have alloc: "SQFS_ERROR_ALLOC env \<noteq> 0" and internal: "SQFS_ERROR_INTERNAL env \<noteq> 0"
      by (simp_all add: codes_ok_def)
    define sub where "sub = (if list_ex is_dir cs then serialize_subdirs env cs wr else Ret 0 (wr, cs))"
    from run obtain wr1 cs1 cs2 where
      s1: "sub = Ret 0 (wr1, cs1)"
      and s2: "serialize_children env (n_inode_num a) cs1 wr1 = Ret 0 (wr', cs2)"
      and n': "n' = TreeNode a cs2"
      unfolding sub_def
      by (auto simp: Let_def split: res.splits prod.splits if_splits)
    have sub_ok: "refs_ok env wr wr1 (concat (map emit_below (filter is_dir cs1)))"
    proof (cases "list_ex is_dir cs")
      case True
      with s1 have "serialize_subdirs env cs wr = Ret 0 (wr1, cs1)" by (simp add: sub_def)
      with 1 [OF refl True] ok show ?thesis by blast
    next
      case False
      then have "filter is_dir cs = []" by (auto simp: list_ex_iff filter_empty_conv)
      moreover from False s1 have "wr1 = wr" "cs1 = cs" by (simp_all add: sub_def)
      ultimately show ?thesis by (simp add: refs_ok_refl)
    qed
    from serialize_children_refs [OF alloc internal s2]
    have ch: "refs_ok env wr1 wr' cs2" "map children cs2 = map children cs1" by simp_all
    from serialize_children_ok [OF alloc internal s2]
    have "map plain cs2 = map plain cs1" by simp
    then have "map is_dir cs2 = map is_dir cs1" by (rule plain_list_fields(3))
    with ch(2) have "concat (map emit_below (filter is_dir cs2))
                     = concat (map emit_below (filter is_dir cs1))"
      by (rule emit_subdirs_children)
    with refs_ok_trans [OF sub_ok ch(1)] n'
    show "refs_ok env wr wr' (emit_below n')" by simp
  qed
next
  case (2 env wr)
  show ?case by (simp add: refs_ok_refl)
next
  case (3 env it its wr)
  show ?case
  proof (intro impI allI)
    fix wr' cs'
    assume ok: "codes_ok env"
      and run: "serialize_subdirs env (it # its) wr = Ret 0 (wr', cs')"
    show "refs_ok env wr wr' (concat (map emit_below (filter is_dir cs'))) \<and>
          map plain cs' = map plain (it # its)"
    proof (cases "is_dir it")
      case True
      with run obtain wr1 it' its' where
        r1: "serialize_recursive env it wr = Ret 0 (wr1, it')"
        and r2: "serialize_subdirs env its wr1 = Ret 0 (wr', its')"
        and cs': "cs' = it' # its'"
        by (auto split: res.splits prod.splits if_splits)
      from "3.IH"(1) [OF True] ok r1
      have a: "refs_ok env wr wr1 (emit_below it')" by blast
      from serialize_recursive_ok(2) [OF ok r1] have p: "plain it' = plain it" .
      then have d: "is_dir it'" using True plain_fields(3) by blast
      from "3.IH"(2) [OF True r1 refl] ok r2
      have b: "refs_ok env wr1 wr' (concat (map emit_below (filter is_dir its')))"
        "map plain its' = map plain its" by auto
      from refs_ok_trans [OF a b(1)] p b(2) cs' d show ?thesis by simp
    next
      case False
      with run obtain its' where
        r2: "serialize_subdirs env its wr = Ret 0 (wr', its')"
        and cs': "cs' = it # its'"
        by (auto split: res.splits prod.splits if_splits)
      from "3.IH"(3) [OF False] ok r2
      have b: "refs_ok env wr wr' (concat (map emit_below (filter is_dir its')))"
        "map plain its' = map plain its" by blast+
      with cs' False show ?thesis by simp
    qed
  qed
qed

lemma serialize_recursive_refs:
  assumes "codes_ok env" and "serialize_recursive env n wr = Ret 0 (wr', n')"
  shows "refs_ok env wr wr' (emit_below n')"
  using serialize_recursive_refs_aux(1) [of env n wr] assms by blast


lemma sqfs_serialize_fstree_trace:
  assumes ok: "codes_ok env" and run: "sqfs_serialize_fstree env wr = Ret 0 wr'"
  shows "\<exists>inodes ds out.
     w_im wr' = w_im wr @ map IM_write_inode inodes @ [IM_flush] \<and>
     map i_inode_number inodes = map inode_num (emit_order (w_root wr)) \<and>
     map node_ref (emit_order (w_root wr')) = inode_refs env (w_im wr) inodes \<and>
     w_dm wr' = w_dm wr @ ds @ [DM_flush, DM_write_to_file] \<and>
     DM_flush \<notin> set ds \<and> DM_write_to_file \<notin> set ds \<and>
     w_outfile wr' =
       w_outfile wr @ out @ im_emit env (w_im wr @ map IM_write_inode inodes) IM_flush @
       dm_emit env (w_dm wr @ ds) DM_flush @
       dm_emit env (w_dm wr @ ds @ [DM_flush]) DM_write_to_file \<and>
     w_super wr' = (w_super wr)
       \<lparr>inode_table_start := length (w_outfile wr),
        root_inode_ref := node_ref (w_root wr'),
        directory_table_start :=
          length (w_outfile wr @ out @ im_emit env (w_im wr @ map IM_write_inode inodes) IM_flush @
                  dm_emit env (w_dm wr @ ds) DM_flush)\<rparr> \<and>
     w_idtbl wr' = foldl id_insert (w_idtbl wr) (concat (map node_ids (emit_order (w_root wr)))) \<and>
     plain (w_root wr') = plain (w_root wr)"
proof -
  from ok have alloc: "SQFS_ERROR_ALLOC env \<noteq> 0" and internal: "SQFS_ERROR_INTERNAL env \<noteq> 0"
    by (simp_all add: codes_ok_def)
  define wra where
    "wra = wr\<lparr>w_super := (w_super wr)\<lparr>inode_table_start := get_size (w_outfile wr)\<rparr>\<rparr>"
  define rec where
    "rec = (if is_dir (w_root wra) then serialize_recursive env (w_root wra) wra
            else Ret 0 (wra, w_root wra))"
  have wra: "w_im wra = w_im wr" "w_dm wra = w_dm wr" "w_outfile wra = w_outfile wr"
    "w_idtbl wra = w_idtbl wr" "w_root wra = w_root wr"
    "w_super wra = (w_super wr)\<lparr>inode_table_start := length (w_outfile wr)\<rparr>"
    by (simp_all add: wra_def get_size_def)
  from run obtain wr1 root1 wr2 root2 where
    r1: "rec = Ret 0 (wr1, root1)"
    and r2: "serialize_tree_node env 0 root1 wr1 = Ret 0 (wr2, root2)"
    and fin: "w_im wr' = w_im wr2 @ [IM_flush]"
      "w_dm wr' = w_dm wr2 @ [DM_flush, DM_write_to_file]"
      "w_outfile wr' = w_outfile wr2 @ im_emit env (w_im wr2) IM_flush @
          dm_emit env (w_dm wr2) DM_flush @ dm_emit env (w_dm wr2 @ [DM_flush]) DM_write_to_file"
      "w_super wr' = (w_super wr2)
          \<lparr>root_inode_ref := n_inode_ref (attr root2),
           directory_table_start :=
             length (w_outfile wr2 @ im_emit env (w_im wr2) IM_flush @
                     dm_emit env (w_dm wr2) DM_flush)\<rparr>"
      "w_idtbl wr' = w_idtbl wr2" "w_root wr' = root2"
    unfolding sqfs_serialize_fstree_def Let_def wra_def [symmetric] rec_def [symmetric]
    by (auto split: res.splits prod.splits if_splits
        simp: im_call_on_def dm_call_on_def storing_failed_def get_size_def)
  let ?root = "w_root wr"
  have a: "serialized env wra wr1 (if is_dir ?root then emit_below ?root else [])"
    "plain root1 = plain ?root"
    "refs_ok env wra wr1 (if is_dir ?root then emit_below root1 else [])"
  proof -
    show "serialized env wra wr1 (if is_dir ?root then emit_below ?root else [])"
      using r1 serialize_recursive_ok(1) [OF ok, of ?root wra wr1 root1]
      by (auto simp: rec_def wra(5) serialized_refl split: if_splits)
    show "plain root1 = plain ?root"
      using r1 serialize_recursive_ok(2) [OF ok, of ?root wra wr1 root1]
      by (auto simp: rec_def wra(5) split: if_splits)
    show "refs_ok env wra wr1 (if is_dir ?root then emit_below root1 else [])"
      using r1 serialize_recursive_refs [OF ok, of ?root wra wr1 root1]
      by (auto simp: rec_def wra(5) refs_ok_refl split: if_splits)
  qed
  note b = serialize_tree_node_ok(1,2,5) [OF alloc internal r2]
    serialize_tree_node_refs [OF alloc internal r2]
  have p2: "plain root2 = plain ?root" using b(2) a(2) by simp
  have d2: "is_dir root2 = is_dir ?root" using p2 by (rule plain_fields(3))
  have "serialized env wr1 wr2 [?root]"
    using b(1) a(2) by (auto intro: serialized_plain [of "[root1]"])
  with a(1) have "serialized env wra wr2 (emit_order ?root)"
    unfolding emit_order_def by (rule serialized_trans)
  then obtain inodes ds out where s:
    "w_im wr2 = w_im wr @ map IM_write_inode inodes"
    "map i_inode_number inodes = map inode_num (emit_order ?root)"
    "w_idtbl wr2 = foldl id_insert (w_idtbl wr) (concat (map node_ids (emit_order ?root)))"
    "w_super wr2 = (w_super wr)\<lparr>inode_table_start := length (w_outfile wr)\<rparr>"
    "w_dm wr2 = w_dm wr @ ds" "DM_flush \<notin> set ds" "DM_write_to_file \<notin> set ds"
    "w_outfile wr2 = w_outfile wr @ out"
    unfolding serialized_def wra by blast
  have "emit_below root2 = emit_below root1" using b(3) by (rule emit_below_children)
  with a(3) d2 have "refs_ok env wra wr1 (if is_dir root2 then emit_below root2 else [])"
    by (cases "is_dir (w_root wr)") simp_all
  from refs_ok_trans [OF this b(4)] have "refs_ok env wra wr2 (emit_order root2)"
    by (simp add: emit_order_def)
  then obtain inodes' where r:
    "w_im wr2 = w_im wr @ map IM_write_inode inodes'"
    "map node_ref (emit_order root2) = inode_refs env (w_im wr) inodes'"
    unfolding refs_ok_def wra by blast
  from s(1) r(1) have "map IM_write_inode inodes' = map IM_write_inode inodes" by simp
  then have "inodes' = inodes" by (simp add: map_injective inj_on_def)
  with r(2) have refs: "map node_ref (emit_order root2) = inode_refs env (w_im wr) inodes"
    by simp
  show ?thesis
    using fin s refs p2
    by (intro exI [of _ inodes] exI [of _ ds] exI [of _ out]) (simp add: node_ref_def)
qed


section \<open>Inode numbers and the order of the inodes\<close>

text \<open>
  \<open>unnumbered\<close> is a tree without its inode numbers. \<open>parent_gt\<close>: below a
  directory, every directory has a greater inode number than each of its children.
  \<open>before xs x y\<close>: in the list \<open>xs\<close>, \<open>x\<close> stands before the first \<open>y\<close>.
  \<open>children_first xs\<close>: in the list \<open>xs\<close> of inode numbers, below a directory, the
  number of every child stands before the number of its parent.
\<close>

fun unnumbered :: "tree_node \<Rightarrow> tree_node" where
  "unnumbered (TreeNode a cs) = TreeNode (a\<lparr>n_inode_num := 0\<rparr>) (map unnumbered cs)"

fun parent_gt :: "tree_node \<Rightarrow> bool" where
  "parent_gt (TreeNode a cs) =
     (\<forall>c \<in> set cs. inode_num c < n_inode_num a \<and> (is_dir c \<longrightarrow> parent_gt c))"

definition before :: "nat list \<Rightarrow> nat \<Rightarrow> nat \<Rightarrow> bool" where
  "before xs x y \<longleftrightarrow> x \<in> set (takeWhile (\<lambda>z. z \<noteq> y) xs) \<and> y \<in> set xs"

fun children_first :: "nat list \<Rightarrow> tree_node \<Rightarrow> bool" where
  "children_first xs (TreeNode a cs) =
     (\<forall>c \<in> set cs. before xs (inode_num c) (n_inode_num a) \<and>
                    (is_dir c \<longrightarrow> children_first xs c))"

definition below_nums :: "tree_node list \<Rightarrow> nat list" where
  "below_nums cs = map inode_num (concat (map emit_below (filter is_dir cs)) @ cs)"

lemma below_nums_Nil: "below_nums [] = []"
  by (simp add: below_nums_def)

lemma below_nums_dir:
  assumes "is_dir c"
  shows "set (below_nums (c # cs)) = set (below_nums [c]) \<union> set (below_nums cs)"
    and "distinct (below_nums (c # cs)) \<longleftrightarrow>
           distinct (below_nums [c]) \<and> distinct (below_nums cs) \<and>
           set (below_nums [c]) \<inter> set (below_nums cs) = {}"
  using assms by (auto simp: below_nums_def)

lemma below_nums_leaf:
  assumes "\<not> is_dir c"
  shows "set (below_nums (c # cs)) = insert (inode_num c) (set (below_nums cs))"
    and "distinct (below_nums (c # cs)) \<longleftrightarrow>
           inode_num c \<notin> set (below_nums cs) \<and> distinct (below_nums cs)"
  using assms by (auto simp: below_nums_def)

lemma below_nums_single:
  assumes "is_dir c"
  shows "below_nums [c] = map inode_num (emit_below c) @ [inode_num c]"
  using assms by (simp add: below_nums_def)

lemma emit_below_nums: "map inode_num (emit_below (TreeNode a cs)) = below_nums cs"
  by (simp add: below_nums_def)


lemma is_dir_attr: "n_mode (attr n') = n_mode (attr n) \<Longrightarrow> is_dir n' = is_dir n"
  by (simp add: is_dir_def)

lemma number_aux:
  shows "\<forall>k' t'. number_dir k t = (k', t') \<longrightarrow>
           k < k' \<and> inode_num t' = k' - 1 \<and>
           set (map inode_num (emit_below t')) = {k..<k' - 1} \<and>
           distinct (map inode_num (emit_below t')) \<and>
           parent_gt t' \<and> unnumbered t' = unnumbered t \<and> is_dir t' = is_dir t"
    and "\<forall>k' cs'. number_children kl kd cs = (k', cs') \<longrightarrow>
           kl + length (filter (\<lambda>c. \<not> is_dir c) cs) \<le> kd \<longrightarrow>
           kd \<le> k' \<and>
           set (below_nums cs') = {kl..<kl + length (filter (\<lambda>c. \<not> is_dir c) cs)} \<union> {kd..<k'} \<and>
           distinct (below_nums cs') \<and>
           (\<forall>c' \<in> set cs'. is_dir c' \<longrightarrow> parent_gt c') \<and>
           map unnumbered cs' = map unnumbered cs \<and> map is_dir cs' = map is_dir cs"
proof (induction k t and kl kd cs rule: number_dir_number_children.induct)
  case (1 k a cs)
  show ?case
  proof (intro allI impI)
    fix k' t'
    assume run: "number_dir k (TreeNode a cs) = (k', t')"
    define nl where "nl = length (filter (\<lambda>c. \<not> is_dir c) cs)"
    obtain k1 cs' where nc: "number_children k (k + nl) cs = (k1, cs')"
      by (cases "number_children k (k + nl) cs")
    with run have res: "k' = Suc k1" "t' = TreeNode (a\<lparr>n_inode_num := k1\<rparr>) cs'"
      by (simp_all add: nl_def)
    from 1 nc have ih: "k + nl \<le> k1"
      "set (below_nums cs') = {k..<k + nl} \<union> {k + nl..<k1}"
      "distinct (below_nums cs')"
      "\<forall>c' \<in> set cs'. is_dir c' \<longrightarrow> parent_gt c'"
      "map unnumbered cs' = map unnumbered cs"
      unfolding nl_def by simp_all
    from ih(1) have un: "{k..<k + nl} \<union> {k + nl..<k1} = {k..<k1}" by auto
    have "\<forall>c' \<in> set cs'. inode_num c' < k1"
    proof
      fix c' assume "c' \<in> set cs'"
      then have "inode_num c' \<in> set (below_nums cs')" by (simp add: below_nums_def)
      with ih(2) un show "inode_num c' < k1" by simp
    qed
    with ih(4) have pg: "parent_gt t'" by (simp add: res inode_num_def)
    have dir: "is_dir t' = is_dir (TreeNode a cs)" by (simp add: res is_dir_def)
    have eb: "map inode_num (emit_below t') = below_nums cs'" by (simp add: res below_nums_def)
    have num: "inode_num t' = k' - 1" by (simp add: res inode_num_def)
    have unn: "unnumbered t' = unnumbered (TreeNode a cs)" using ih(5) by (simp add: res)
    have lt: "k < k'" using ih(1) by (simp add: res)
    have st: "set (below_nums cs') = {k..<k' - 1}" using ih(2) un by (simp add: res)
    show "k < k' \<and> inode_num t' = k' - 1 \<and>
           set (map inode_num (emit_below t')) = {k..<k' - 1} \<and>
           distinct (map inode_num (emit_below t')) \<and>
           parent_gt t' \<and> unnumbered t' = unnumbered (TreeNode a cs) \<and>
           is_dir t' = is_dir (TreeNode a cs)"
      unfolding eb using lt num st ih(3) pg unn dir by (intro conjI)
  qed
next
  case (2 kl kd)
  show ?case by (simp add: below_nums_Nil)
next
  case (3 kl kd c cs)
  show ?case
  proof (intro allI impI)
    fix k' cs'
    assume run: "number_children kl kd (c # cs) = (k', cs')"
      and room: "kl + length (filter (\<lambda>c. \<not> is_dir c) (c # cs)) \<le> kd"
    define nl where "nl = length (filter (\<lambda>c. \<not> is_dir c) cs)"
    show "kd \<le> k' \<and>
           set (below_nums cs') =
             {kl..<kl + length (filter (\<lambda>c. \<not> is_dir c) (c # cs))} \<union> {kd..<k'} \<and>
           distinct (below_nums cs') \<and>
           (\<forall>c' \<in> set cs'. is_dir c' \<longrightarrow> parent_gt c') \<and>
           map unnumbered cs' = map unnumbered (c # cs) \<and> map is_dir cs' = map is_dir (c # cs)"
    proof (cases "is_dir c")
      case True
      obtain kd' c' where nd: "number_dir kd c = (kd', c')" by (cases "number_dir kd c")
      obtain k1 cs1 where nc: "number_children kl kd' cs = (k1, cs1)"
        by (cases "number_children kl kd' cs")
      from run True nd nc have res: "k' = k1" "cs' = c' # cs1" by simp_all
      from "3.IH"(1) [OF True] nd have a: "kd < kd'" "inode_num c' = kd' - 1"
        "set (map inode_num (emit_below c')) = {kd..<kd' - 1}"
        "distinct (map inode_num (emit_below c'))"
        "parent_gt c'" "unnumbered c' = unnumbered c" "is_dir c'"
        using True by simp_all
      from room True a(1) have room': "kl + nl \<le> kd'" by (simp add: nl_def)
      from "3.IH"(2) [OF True nd [symmetric]] nc room' have b: "kd' \<le> k1"
        "set (below_nums cs1) = {kl..<kl + nl} \<union> {kd'..<k1}"
        "distinct (below_nums cs1)"
        "\<forall>c' \<in> set cs1. is_dir c' \<longrightarrow> parent_gt c'"
        "map unnumbered cs1 = map unnumbered cs" "map is_dir cs1 = map is_dir cs"
        unfolding nl_def by simp_all
      have single: "set (below_nums [c']) = {kd..<kd'}" "distinct (below_nums [c'])"
        using a by (auto simp: below_nums_single [OF a(7)])
      from room True have "kl + nl \<le> kd" by (simp add: nl_def)
      then have disj: "{kd..<kd'} \<inter> ({kl..<kl + nl} \<union> {kd'..<k1}) = {}" by auto
      have st: "{kd..<kd'} \<union> ({kl..<kl + nl} \<union> {kd'..<k1}) = {kl..<kl + nl} \<union> {kd..<k1}"
        using a(1) b(1) by auto
      have s1: "set (below_nums cs') = {kl..<kl + nl} \<union> {kd..<k1}"
        unfolding res below_nums_dir(1) [OF a(7), of cs1] single(1) b(2) by (rule st)
      have d1: "distinct (below_nums cs')"
        unfolding res below_nums_dir(2) [OF a(7), of cs1] single(1) b(2)
        using single(2) b(3) disj by simp
      have n1: "length (filter (\<lambda>c. \<not> is_dir c) (c # cs)) = nl" using True by (simp add: nl_def)
      have "kd \<le> k'" using a(1) b(1) by (simp add: res)
      moreover have "\<forall>x \<in> set cs'. is_dir x \<longrightarrow> parent_gt x" using a(5) b(4) by (simp add: res)
      moreover have "map unnumbered cs' = map unnumbered (c # cs)" using a(6) b(5) by (simp add: res)
      moreover have "map is_dir cs' = map is_dir (c # cs)" using a(7) True b(6) by (simp add: res)
      ultimately show ?thesis unfolding n1 using s1 d1 by (simp add: res(1))
    next
      case False
      obtain k1 cs1 where nc: "number_children (Suc kl) kd cs = (k1, cs1)"
        by (cases "number_children (Suc kl) kd cs")
      define c' where "c' = TreeNode ((attr c)\<lparr>n_inode_num := kl\<rparr>) (children c)"
      from run False nc have res: "k' = k1" "cs' = c' # cs1" by (simp_all add: c'_def)
      have c': "\<not> is_dir c'" "inode_num c' = kl" "unnumbered c' = unnumbered c"
        using False by (cases c; simp add: c'_def is_dir_def inode_num_def)+
      from room False have room': "Suc kl + nl \<le> kd" by (simp add: nl_def)
      from "3.IH"(3) [OF False] nc room' have b: "kd \<le> k1"
        "set (below_nums cs1) = {Suc kl..<Suc kl + nl} \<union> {kd..<k1}"
        "distinct (below_nums cs1)"
        "\<forall>c' \<in> set cs1. is_dir c' \<longrightarrow> parent_gt c'"
        "map unnumbered cs1 = map unnumbered cs" "map is_dir cs1 = map is_dir cs"
        unfolding nl_def by simp_all
      have st: "insert kl ({Suc kl..<Suc kl + nl} \<union> {kd..<k1}) = {kl..<Suc (kl + nl)} \<union> {kd..<k1}"
        by auto
      have notin: "kl \<notin> {Suc kl..<Suc kl + nl} \<union> {kd..<k1}" using room' by auto
      have s1: "set (below_nums cs') = {kl..<kl + Suc nl} \<union> {kd..<k1}"
        unfolding res below_nums_leaf(1) [OF c'(1), of cs1] c'(2) b(2) using st by simp
      have d1: "distinct (below_nums cs')"
        unfolding res below_nums_leaf(2) [OF c'(1), of cs1] c'(2) b(2)
        using b(3) notin by simp
      have n1: "length (filter (\<lambda>c. \<not> is_dir c) (c # cs)) = Suc nl"
        using False by (simp add: nl_def)
      have "kd \<le> k'" using b(1) by (simp add: res)
      moreover have "\<forall>x \<in> set cs'. is_dir x \<longrightarrow> parent_gt x" using c'(1) b(4) by (simp add: res)
      moreover have "map unnumbered cs' = map unnumbered (c # cs)" using c'(3) b(5) by (simp add: res)
      moreover have "map is_dir cs' = map is_dir (c # cs)" using c'(1) False b(6) by (simp add: res)
      ultimately show ?thesis unfolding n1 using s1 d1 by (simp add: res(1))
    qed
  qed
qed


lemma number_dir_ok:
  assumes "number_dir k t = (k', t')"
  shows "k < k'" "inode_num t' = k' - 1" "set (map inode_num (emit_below t')) = {k..<k' - 1}"
    "distinct (map inode_num (emit_below t'))" "parent_gt t'" "unnumbered t' = unnumbered t"
    "is_dir t' = is_dir t"
  using number_aux(1) [of k t] assms by blast+

lemma gen_inode_table_conj:
  assumes "gen_inode_table t = (cnt, root)"
  shows "distinct (map inode_num (emit_order root)) \<and>
         set (map inode_num (emit_order root)) = {1..cnt} \<and>
         (is_dir root \<longrightarrow> parent_gt root) \<and>
         unnumbered root = unnumbered t \<and> inode_num root = cnt"
proof (cases "is_dir t")
  case True
  obtain k root' where nd: "number_dir 1 t = (k, root')" by (cases "number_dir 1 t")
  with assms True have res: "cnt = k - 1" "root = root'" by (simp_all add: gen_inode_table_def)
  note n = number_dir_ok [OF nd]
  from n(7) True have d: "is_dir root" by (simp add: res)
  have eo: "map inode_num (emit_order root) = map inode_num (emit_below root') @ [k - 1]"
    using d n(2) by (simp add: emit_order_def res)
  have "{1..<k - 1} \<union> {k - 1} = {1..k - 1}" using n(1) by auto
  then have 1: "set (map inode_num (emit_order root)) = {1..cnt}"
    unfolding eo using n(3) by (simp add: res(1))
  have 2: "distinct (map inode_num (emit_order root))"
    unfolding eo using n(3,4) by simp
  have 3: "is_dir root \<longrightarrow> parent_gt root" using n(5) by (simp add: res)
  have 4: "unnumbered root = unnumbered t" using n(6) by (simp add: res)
  have 5: "inode_num root = cnt" using n(2) by (simp add: res)
  from 1 2 3 4 5 show ?thesis by (intro conjI)
next
  case False
  with assms have res: "cnt = 1" "root = TreeNode ((attr t)\<lparr>n_inode_num := 1\<rparr>) (children t)"
    by (auto simp: gen_inode_table_def)
  from False have d: "\<not> is_dir root" by (simp add: res is_dir_def)
  then have 3: "is_dir root \<longrightarrow> parent_gt root" by simp
  have eo: "emit_order root = [root]" using d by (simp add: emit_order_def)
  have 5: "inode_num root = cnt" by (simp add: res inode_num_def)
  then have 1: "set (map inode_num (emit_order root)) = {1..cnt}"
    unfolding eo by (simp add: res(1))
  have 2: "distinct (map inode_num (emit_order root))" unfolding eo by simp
  have 4: "unnumbered root = unnumbered t" by (cases t) (simp add: res)
  from 1 2 3 4 5 show ?thesis by (intro conjI)
qed

lemma gen_inode_table_ok:
  assumes "gen_inode_table t = (cnt, root)"
  shows "distinct (map inode_num (emit_order root))"
    and "set (map inode_num (emit_order root)) = {1..cnt}"
    and "is_dir root \<longrightarrow> parent_gt root"
    and "unnumbered root = unnumbered t"
    and "inode_num root = cnt"
  using gen_inode_table_conj [OF assms] by simp_all

lemma before_appendI:
  assumes "distinct (as @ bs)" and "x \<in> set as" and "y \<in> set bs"
  shows "before (as @ bs) x y"
proof -
  from assms(1,3) have "\<And>z. z \<in> set as \<Longrightarrow> z \<noteq> y" by auto
  then have "takeWhile (\<lambda>z. z \<noteq> y) (as @ bs) = as @ takeWhile (\<lambda>z. z \<noteq> y) bs"
    by (rule takeWhile_append2)
  with assms(2,3) show ?thesis by (simp add: before_def)
qed

lemma children_first_segment:
  "distinct xs \<Longrightarrow> xs = as @ map inode_num (emit_below d) @ bs \<Longrightarrow> inode_num d \<in> set bs
     \<Longrightarrow> children_first xs d"
proof (induction d arbitrary: as bs)
  case (TreeNode a cs)
  have "before xs (inode_num c) (n_inode_num a) \<and> (is_dir c \<longrightarrow> children_first xs c)"
    if c: "c \<in> set cs" for c
  proof
    from c have "inode_num c \<in> set (as @ map inode_num (emit_below (TreeNode a cs)))" by simp
    moreover from TreeNode.prems(3) have "n_inode_num a \<in> set bs" by (simp add: inode_num_def)
    moreover from TreeNode.prems(1,2)
    have "distinct ((as @ map inode_num (emit_below (TreeNode a cs))) @ bs)" by simp
    ultimately have "before ((as @ map inode_num (emit_below (TreeNode a cs))) @ bs)
                       (inode_num c) (n_inode_num a)"
      by (intro before_appendI)
    with TreeNode.prems(2) show "before xs (inode_num c) (n_inode_num a)" by simp
    show "is_dir c \<longrightarrow> children_first xs c"
    proof
      assume "is_dir c"
      with c have "c \<in> set (filter is_dir cs)" by simp
      then obtain ps qs where sp: "filter is_dir cs = ps @ c # qs" by (auto dest: split_list)
      define as' where "as' = as @ map inode_num (concat (map emit_below ps))"
      define bs' where "bs' = map inode_num (concat (map emit_below qs)) @ map inode_num cs @ bs"
      have "xs = as' @ map inode_num (emit_below c) @ bs'"
        using TreeNode.prems(2) by (simp add: sp as'_def bs'_def)
      moreover have "inode_num c \<in> set bs'" using c by (simp add: bs'_def)
      ultimately show "children_first xs c"
        using TreeNode.IH [OF c TreeNode.prems(1)] by blast
    qed
  qed
  then show ?case by simp
qed

lemma emit_order_children_first:
  assumes "distinct (map inode_num (emit_order root))" and "is_dir root"
  shows "children_first (map inode_num (emit_order root)) root"
proof -
  have "map inode_num (emit_order root) = [] @ map inode_num (emit_below root) @ [inode_num root]"
    using assms(2) by (simp add: emit_order_def)
  moreover have "inode_num root \<in> set [inode_num root]" by simp
  ultimately show ?thesis using assms(1) by (rule children_first_segment [rotated])
qed

lemma emit_order_last: "last (map inode_num (emit_order root)) = inode_num root"
  by (simp add: emit_order_def)


section \<open>The serialiser: inode numbers, order, and the table of identifiers\<close>

lemma remdups_append_mem: "v \<in> set ys \<Longrightarrow> remdups (xs @ v # ys) = remdups (xs @ ys)"
  by (induction xs) auto

lemma foldl_id_insert_remdups:
  "distinct ids \<Longrightarrow> foldl id_insert ids vs = rev (remdups (rev (ids @ vs)))"
proof (induction vs arbitrary: ids)
  case Nil
  then show ?case by (simp add: distinct_remdups_id)
next
  case (Cons v vs)
  from Cons.prems have "distinct (id_insert ids v)" by (rule id_insert_distinct)
  then have ih: "foldl id_insert (id_insert ids v) vs = rev (remdups (rev (id_insert ids v @ vs)))"
    by (rule Cons.IH)
  show ?case
  proof (cases "v \<in> set ids")
    case True
    then have e: "id_insert ids v = ids" by (simp add: id_insert_def)
    from True have "remdups (rev vs @ v # rev ids) = remdups (rev vs @ rev ids)"
      by (intro remdups_append_mem) simp
    with ih show ?thesis by (simp add: e)
  next
    case False
    then have e: "id_insert ids v = ids @ [v]" by (simp add: id_insert_def)
    from ih show ?thesis by (simp add: e)
  qed
qed

lemma node_ids_set:
  "set (concat (map node_ids ns)) = (\<Union>n \<in> set ns. {n_uid (attr n), n_gid (attr n)})"
  by (induction ns) (auto simp: node_ids_def)

lemma example_codes_ok: "codes_ok example_serialize_env"
  by (simp add: codes_ok_def example_serialize_env_def)

lemma example_run_ok:
  "\<exists>wr'. sqfs_serialize_fstree example_serialize_env example_writer = Ret 0 wr'"
proof -
  have "(case sqfs_serialize_fstree example_serialize_env example_writer of
            Ret r _ \<Rightarrow> r = 0 | Abort _ \<Rightarrow> False)"
    by code_simp
  then show ?thesis by (auto split: res.splits)
qed

lemma example_numbers:
  "map inode_num (emit_order (snd (gen_inode_table example_tree))) = [2, 4, 3, 5, 1, 6]"
  by code_simp

lemma example_count: "gen_inode_table example_tree = (6, snd (gen_inode_table example_tree))"
proof -
  have "fst (gen_inode_table example_tree) = 6" by code_simp
  then show ?thesis by (metis prod.collapse)
qed

lemma example_root_is_dir: "is_dir (snd (gen_inode_table example_tree))"
  by code_simp

text \<open>
  C2. The inode numbers that \<open>gen_inode_table\<close> assigns are a permutation of 1 to the
  count it returns: over the nodes of the tree they are distinct and they are the set
  \<open>{1..cnt}\<close>; every directory has a greater number than each of its children; and the
  tree is otherwise as it was. On such a tree, a run of \<open>sqfs_serialize_fstree\<close> that
  succeeds gives the inode writer the inodes of all nodes, in the order \<open>emit_order\<close>, and
  then flushes it: in this order the inode of every node stands before the inode of its
  parent, and the inode of the root is the last.
\<close>

theorem inode_numbers_and_emission_order:
  assumes "gen_inode_table t = (cnt, root)"
  shows "distinct (map inode_num (emit_order root)) \<and>
         set (map inode_num (emit_order root)) = {1..cnt} \<and>
         length (emit_order root) = cnt \<and>
         (is_dir root \<longrightarrow> parent_gt root) \<and>
         unnumbered root = unnumbered t \<and>
         (\<forall>env wr wr'. codes_ok env \<longrightarrow> w_root wr = root \<longrightarrow>
              sqfs_serialize_fstree env wr = Ret 0 wr' \<longrightarrow>
            (\<exists>inodes. w_im wr' = w_im wr @ map IM_write_inode inodes @ [IM_flush] \<and>
                map i_inode_number inodes = map inode_num (emit_order root) \<and>
                (is_dir root \<longrightarrow> children_first (map i_inode_number inodes) root) \<and>
                last (map i_inode_number inodes) = inode_num root))"
proof -
  note g = gen_inode_table_ok [OF assms]
  have len: "length (emit_order root) = cnt"
    using distinct_card [OF g(1)] g(2) by simp
  have run: "\<exists>inodes. w_im wr' = w_im wr @ map IM_write_inode inodes @ [IM_flush] \<and>
                map i_inode_number inodes = map inode_num (emit_order root) \<and>
                (is_dir root \<longrightarrow> children_first (map i_inode_number inodes) root) \<and>
                last (map i_inode_number inodes) = inode_num root"
    if "codes_ok env" "w_root wr = root" "sqfs_serialize_fstree env wr = Ret 0 wr'"
    for env wr wr'
  proof -
    from sqfs_serialize_fstree_trace [OF that(1,3)] that(2)
    obtain inodes where i: "w_im wr' = w_im wr @ map IM_write_inode inodes @ [IM_flush]"
      "map i_inode_number inodes = map inode_num (emit_order root)"
      by auto
    have "is_dir root \<longrightarrow> children_first (map i_inode_number inodes) root"
      unfolding i(2) using emit_order_children_first [OF g(1)] by simp
    moreover have "last (map i_inode_number inodes) = inode_num root"
      unfolding i(2) by (rule emit_order_last)
    ultimately show ?thesis using i by blast
  qed
  from g(1,2) len g(3,4) run show ?thesis by blast
qed

theorem inode_numbers_and_emission_order_witness:
  "gen_inode_table example_tree = (6, snd (gen_inode_table example_tree)) \<and>
   map inode_num (emit_order (snd (gen_inode_table example_tree))) = [2, 4, 3, 5, 1, 6] \<and>
   distinct [2, 4, 3, 5, 1, 6 :: nat] \<and> set [2, 4, 3, 5, 1, 6] = {1..6 :: nat} \<and>
   (\<exists>wr' inodes.
      sqfs_serialize_fstree example_serialize_env example_writer = Ret 0 wr' \<and>
      w_im wr' = map IM_write_inode inodes @ [IM_flush] \<and>
      map i_inode_number inodes = [2, 4, 3, 5, 1, 6])"
proof -
  let ?root = "snd (gen_inode_table example_tree)"
  note t = inode_numbers_and_emission_order [OF example_count]
  from example_run_ok obtain wr' where
    run: "sqfs_serialize_fstree example_serialize_env example_writer = Ret 0 wr'" ..
  have root: "w_root example_writer = ?root" by (simp add: example_writer_def)
  from t example_codes_ok root run
  obtain inodes where i: "w_im wr' = w_im example_writer @ map IM_write_inode inodes @ [IM_flush]"
    "map i_inode_number inodes = map inode_num (emit_order ?root)"
    by blast
  have im: "w_im example_writer = []" by (simp add: example_writer_def)
  from t have "distinct (map inode_num (emit_order ?root))"
    "set (map inode_num (emit_order ?root)) = {1..6}"
    by blast+
  with i run example_count show ?thesis
    unfolding example_numbers im by auto
qed

text \<open>
  C3. A run of \<open>sqfs_serialize_fstree\<close> that succeeds: \<open>inode_table_start\<close> is the size
  that the output file had when the run began. The inode writer was given the inodes of
  the nodes below the root, then the inode of the root, and was then flushed; the
  directory writer was flushed after that, not before, and then told to write to the
  file, which is its last call. \<open>directory_table_start\<close> is the size of the file after
  both flushes, and what the directory writer writes to the file is appended there. The
  reference of every node is \<open>(block << 16) | offset\<close> of the position \<open>(block, offset)\<close>
  at which the inode writer stood just before the call that wrote the inode of the
  node, and \<open>root_inode_ref\<close> is the reference of the root.
\<close>

theorem serialize_fstree_order:
  assumes "codes_ok env" and "sqfs_serialize_fstree env wr = Ret 0 wr'"
  shows "\<exists>inodes ds out.
     inode_table_start (w_super wr') = length (w_outfile wr) \<and>
     w_im wr' = w_im wr @ map IM_write_inode inodes @ [IM_flush] \<and>
     map i_inode_number inodes =
       map inode_num (if is_dir (w_root wr) then emit_below (w_root wr) else []) @
       [inode_num (w_root wr)] \<and>
     w_dm wr' = w_dm wr @ ds @ [DM_flush, DM_write_to_file] \<and>
     DM_flush \<notin> set ds \<and> DM_write_to_file \<notin> set ds \<and>
     w_outfile wr' =
       w_outfile wr @ out @ im_emit env (w_im wr @ map IM_write_inode inodes) IM_flush @
       dm_emit env (w_dm wr @ ds) DM_flush @
       dm_emit env (w_dm wr @ ds @ [DM_flush]) DM_write_to_file \<and>
     directory_table_start (w_super wr') =
       length (w_outfile wr @ out @ im_emit env (w_im wr @ map IM_write_inode inodes) IM_flush @
               dm_emit env (w_dm wr @ ds) DM_flush) \<and>
     map (\<lambda>n. n_inode_ref (attr n)) (emit_order (w_root wr')) =
       map (\<lambda>(block, offset). push_bit 16 block OR ucast offset)
         (inode_positions env (w_im wr) inodes) \<and>
     root_inode_ref (w_super wr') = n_inode_ref (attr (w_root wr')) \<and>
     plain (w_root wr') = plain (w_root wr)"
proof -
  from sqfs_serialize_fstree_trace [OF assms]
  obtain inodes ds out where t:
    "w_im wr' = w_im wr @ map IM_write_inode inodes @ [IM_flush]"
    "map i_inode_number inodes = map inode_num (emit_order (w_root wr))"
    "map node_ref (emit_order (w_root wr')) = inode_refs env (w_im wr) inodes"
    "w_dm wr' = w_dm wr @ ds @ [DM_flush, DM_write_to_file]"
    "DM_flush \<notin> set ds" "DM_write_to_file \<notin> set ds"
    "w_outfile wr' =
       w_outfile wr @ out @ im_emit env (w_im wr @ map IM_write_inode inodes) IM_flush @
       dm_emit env (w_dm wr @ ds) DM_flush @
       dm_emit env (w_dm wr @ ds @ [DM_flush]) DM_write_to_file"
    "w_super wr' = (w_super wr)
       \<lparr>inode_table_start := length (w_outfile wr),
        root_inode_ref := node_ref (w_root wr'),
        directory_table_start :=
          length (w_outfile wr @ out @ im_emit env (w_im wr @ map IM_write_inode inodes) IM_flush @
                  dm_emit env (w_dm wr @ ds) DM_flush)\<rparr>"
    "plain (w_root wr') = plain (w_root wr)"
    by blast
  have sup: "inode_table_start (w_super wr') = length (w_outfile wr)"
    "directory_table_start (w_super wr') =
       length (w_outfile wr @ out @ im_emit env (w_im wr @ map IM_write_inode inodes) IM_flush @
               dm_emit env (w_dm wr @ ds) DM_flush)"
    "root_inode_ref (w_super wr') = n_inode_ref (attr (w_root wr'))"
    unfolding t(8) by (simp_all add: node_ref_def)
  have nums: "map i_inode_number inodes =
       map inode_num (if is_dir (w_root wr) then emit_below (w_root wr) else []) @
       [inode_num (w_root wr)]"
    unfolding t(2) by (simp add: emit_order_def)
  have nr: "node_ref = (\<lambda>n. n_inode_ref (attr n))" by (rule ext) (simp add: node_ref_def)
  have refs: "map (\<lambda>n. n_inode_ref (attr n)) (emit_order (w_root wr')) =
       map (\<lambda>(block, offset). push_bit 16 block OR ucast offset)
         (inode_positions env (w_im wr) inodes)"
    using t(3) unfolding nr inode_refs_positions .
  from sup(1) t(1) nums t(4,5,6,7) sup(2) refs sup(3) t(9) show ?thesis
    by (intro exI [of _ inodes] exI [of _ ds] exI [of _ out] conjI)
qed

theorem serialize_fstree_order_witness:
  "codes_ok example_serialize_env \<and>
   (\<exists>wr' inodes ds out.
      sqfs_serialize_fstree example_serialize_env example_writer = Ret 0 wr' \<and>
      inode_table_start (w_super wr') = 96 \<and>
      w_im wr' = map IM_write_inode inodes @ [IM_flush] \<and>
      map i_inode_number inodes = [2, 4, 3, 5, 1, 6] \<and>
      w_dm wr' = ds @ [DM_flush, DM_write_to_file] \<and>
      w_outfile wr' = replicate 96 0 @ out @ [1, 2, 3] @ [4, 5] \<and>
      directory_table_start (w_super wr') = 96 + length out + 3 \<and>
      map (\<lambda>n. n_inode_ref (attr n)) (emit_order (w_root wr')) =
        [0, 0x10020, 0x20040, 0x30060, 0x40080, 0x500A0] \<and>
      root_inode_ref (w_super wr') = 0x500A0)"
proof -
  from example_run_ok obtain wr' where
    run: "sqfs_serialize_fstree example_serialize_env example_writer = Ret 0 wr'" ..
  have w: "w_im example_writer = []" "w_dm example_writer = []"
    "w_outfile example_writer = replicate 96 0"
    "w_root example_writer = snd (gen_inode_table example_tree)"
    by (simp_all add: example_writer_def)
  have e: "im_emit example_serialize_env h IM_flush = [1, 2, 3]"
    "dm_emit example_serialize_env g DM_flush = []"
    "dm_emit example_serialize_env g DM_write_to_file = [4, 5]" for h g
    by (simp_all add: example_serialize_env_def)
  have n: "map inode_num (if is_dir (snd (gen_inode_table example_tree))
                          then emit_below (snd (gen_inode_table example_tree)) else []) @
           [inode_num (snd (gen_inode_table example_tree))] = [2, 4, 3, 5, 1, 6]"
    using example_numbers by (simp add: emit_order_def)
  from serialize_fstree_order [OF example_codes_ok run]
  obtain inodes ds out where raw:
    "inode_table_start (w_super wr') = length (w_outfile example_writer)"
    "w_im wr' = w_im example_writer @ map IM_write_inode inodes @ [IM_flush]"
    "map i_inode_number inodes =
       map inode_num (if is_dir (w_root example_writer)
                      then emit_below (w_root example_writer) else []) @
       [inode_num (w_root example_writer)]"
    "w_dm wr' = w_dm example_writer @ ds @ [DM_flush, DM_write_to_file]"
    "w_outfile wr' =
       w_outfile example_writer @ out @
       im_emit example_serialize_env (w_im example_writer @ map IM_write_inode inodes) IM_flush @
       dm_emit example_serialize_env (w_dm example_writer @ ds) DM_flush @
       dm_emit example_serialize_env (w_dm example_writer @ ds @ [DM_flush]) DM_write_to_file"
    "directory_table_start (w_super wr') =
       length (w_outfile example_writer @ out @
               im_emit example_serialize_env
                 (w_im example_writer @ map IM_write_inode inodes) IM_flush @
               dm_emit example_serialize_env (w_dm example_writer @ ds) DM_flush)"
    "map (\<lambda>n. n_inode_ref (attr n)) (emit_order (w_root wr')) =
       map (\<lambda>(block, offset). push_bit 16 block OR ucast offset)
         (inode_positions example_serialize_env (w_im example_writer) inodes)"
    "root_inode_ref (w_super wr') = n_inode_ref (attr (w_root wr'))"
    by blast
  have t: "inode_table_start (w_super wr') = 96"
    "w_im wr' = map IM_write_inode inodes @ [IM_flush]"
    "map i_inode_number inodes = [2, 4, 3, 5, 1, 6]"
    "w_dm wr' = ds @ [DM_flush, DM_write_to_file]"
    "w_outfile wr' = replicate 96 0 @ out @ [1, 2, 3] @ [4, 5]"
    "directory_table_start (w_super wr') = 96 + length out + 3"
    "map (\<lambda>n. n_inode_ref (attr n)) (emit_order (w_root wr')) =
       map (\<lambda>(block, offset). push_bit 16 block OR ucast offset)
         (inode_positions example_serialize_env [] inodes)"
    "root_inode_ref (w_super wr') = n_inode_ref (attr (w_root wr'))"
  proof -
    show "inode_table_start (w_super wr') = 96" using raw(1) by (simp add: w)
    show "w_im wr' = map IM_write_inode inodes @ [IM_flush]" using raw(2) by (simp add: w)
    show "map i_inode_number inodes = [2, 4, 3, 5, 1, 6]" using raw(3) unfolding w n .
    show "w_dm wr' = ds @ [DM_flush, DM_write_to_file]" using raw(4) by (simp add: w)
    show "w_outfile wr' = replicate 96 0 @ out @ [1, 2, 3] @ [4, 5]"
      using raw(5) unfolding w e by simp
    show "directory_table_start (w_super wr') = 96 + length out + 3"
      using raw(6) unfolding w e by simp
    show "map (\<lambda>n. n_inode_ref (attr n)) (emit_order (w_root wr')) =
       map (\<lambda>(block, offset). push_bit 16 block OR ucast offset)
         (inode_positions example_serialize_env [] inodes)"
      using raw(7) unfolding w .
    show "root_inode_ref (w_super wr') = n_inode_ref (attr (w_root wr'))" by (rule raw(8))
  qed
  from t(3) obtain i1 i2 i3 i4 i5 i6 where inodes: "inodes = [i1, i2, i3, i4, i5, i6]"
    by (auto simp: map_eq_Cons_conv)
  have pos: "inode_positions example_serialize_env [] inodes =
               [(0, 0), (1, 32), (2, 64), (3, 96), (4, 128), (5, 160)]"
    by (simp add: inodes example_serialize_env_def)
  have refs: "map (\<lambda>n. n_inode_ref (attr n)) (emit_order (w_root wr')) =
                [0, 0x10020, 0x20040, 0x30060, 0x40080, 0x500A0]"
    unfolding t(7) pos by simp
  have "n_inode_ref (attr (w_root wr')) =
          last (map (\<lambda>n. n_inode_ref (attr n)) (emit_order (w_root wr')))"
    by (simp add: emit_order_def)
  then have root: "root_inode_ref (w_super wr') = 0x500A0"
    unfolding t(8) refs by simp
  from example_codes_ok run t(1-6) refs root show ?thesis
    by (intro conjI exI [of _ wr'] exI [of _ inodes] exI [of _ ds] exI [of _ out])
qed

text \<open>
  The table of identifiers after a run of \<open>sqfs_serialize_fstree\<close> that succeeds on a
  table without duplicates: it holds what it held and behind it the owners and groups of
  the nodes, each value once, in the order in which they first come in the order of the
  inodes. \<open>id_table_write\<close> hands the table to \<open>sqfs_write_table\<close> as entries of 4
  bytes, least significant byte first whatever the byte order of the host, with a
  superblock whose \<open>id_count\<close> is already assigned, and leaves the table as it was.
\<close>

lemma id_table_of_run:
  assumes "codes_ok env" and "sqfs_serialize_fstree env wr = Ret 0 wr'"
    and "distinct (w_idtbl wr)"
  shows "w_idtbl wr' =
           rev (remdups (rev (w_idtbl wr @ concat (map node_ids (emit_order (w_root wr)))))) \<and>
         distinct (w_idtbl wr') \<and>
         set (w_idtbl wr') =
           set (w_idtbl wr) \<union> (\<Union>n \<in> set (emit_order (w_root wr)). {n_uid (attr n), n_gid (attr n)}) \<and>
         id_table_write tenv (w_idtbl wr') outfd super0 =
           (case sqfs_write_table tenv outfd
                   (super0\<lparr>id_count := word_of_nat (length (w_idtbl wr'))\<rparr>)
                   (concat (map le_bytes (w_idtbl wr'))) 4 (length (w_idtbl wr')) of
              (ret, start, outfd') \<Rightarrow>
                (ret, w_idtbl wr', outfd',
                 super0\<lparr>id_count := word_of_nat (length (w_idtbl wr')),
                        id_table_start := start\<rparr>))"
proof -
  from sqfs_serialize_fstree_trace [OF assms(1,2)]
  have tbl: "w_idtbl wr' =
               foldl id_insert (w_idtbl wr) (concat (map node_ids (emit_order (w_root wr))))"
    by blast
  have 1: "w_idtbl wr' =
           rev (remdups (rev (w_idtbl wr @ concat (map node_ids (emit_order (w_root wr))))))"
    unfolding tbl using assms(3) by (rule foldl_id_insert_remdups)
  have 2: "distinct (w_idtbl wr')"
    unfolding tbl using assms(3) by (rule foldl_id_insert_distinct)
  have 3: "set (w_idtbl wr') =
           set (w_idtbl wr) \<union> (\<Union>n \<in> set (emit_order (w_root wr)). {n_uid (attr n), n_gid (attr n)})"
    unfolding tbl foldl_id_insert_set node_ids_set ..
  note 4 = id_table_write_eq [of tenv "w_idtbl wr'" outfd super0]
  from 1 2 3 4 show ?thesis by blast
qed

lemma id_table_of_example_run:
  "\<exists>wr'. sqfs_serialize_fstree example_serialize_env example_writer = Ret 0 wr' \<and>
      w_idtbl wr' = [0, 5, 1000, 100] \<and>
      id_table_write example_table_env (w_idtbl wr') [] example_super =
        (0, [0, 5, 1000, 100], [0, 0, 0, 0, 5, 0, 0, 0, 232, 3, 0, 0, 100, 0, 0, 0],
         example_super\<lparr>id_count := 4, id_table_start := 0\<rparr>)"
proof -
  from example_run_ok obtain wr' where
    run: "sqfs_serialize_fstree example_serialize_env example_writer = Ret 0 wr'" ..
  have d: "distinct (w_idtbl example_writer)" by (simp add: example_writer_def)
  have ids: "rev (remdups (rev (w_idtbl example_writer @
               concat (map node_ids (emit_order (w_root example_writer)))))) = [0, 5, 1000, 100]"
    by code_simp
  have bytes: "concat (map le_bytes [0, 5, 1000, 100]) =
                 [0, 0, 0, 0, 5, 0, 0, 0, 232, 3, 0, 0, 100, 0, 0, 0]"
    by code_simp
  note t = id_table_of_run
    [OF example_codes_ok run d, of example_table_env "[]" example_super]
  from t have a: "w_idtbl wr' = [0, 5, 1000, 100]" unfolding ids by blast
  from t have "id_table_write example_table_env (w_idtbl wr') [] example_super =
           (case sqfs_write_table example_table_env []
                   (example_super\<lparr>id_count := word_of_nat (length (w_idtbl wr'))\<rparr>)
                   (concat (map le_bytes (w_idtbl wr'))) 4 (length (w_idtbl wr')) of
              (ret, start, outfd') \<Rightarrow>
                (ret, w_idtbl wr', outfd',
                 example_super\<lparr>id_count := word_of_nat (length (w_idtbl wr')),
                        id_table_start := start\<rparr>))"
    by blast
  then have "id_table_write example_table_env (w_idtbl wr') [] example_super =
        (0, [0, 5, 1000, 100], [0, 0, 0, 0, 5, 0, 0, 0, 232, 3, 0, 0, 100, 0, 0, 0],
         example_super\<lparr>id_count := 4, id_table_start := 0\<rparr>)"
    unfolding a bytes by (simp add: example_table_env_def)
  with a run show ?thesis by blast
qed

text \<open>
  The calls of \<open>sqfs_id_table_id_to_index\<close> for a list of values, one after the other:
  the table they leave, or \<open>None\<close> when one of them fails.
\<close>

fun id_to_index_all :: "32 word list \<Rightarrow> 32 word list \<Rightarrow> 32 word list option" where
  "id_to_index_all ids [] = Some ids"
| "id_to_index_all ids (v # vs) =
     (case id_to_index ids v of
        (ret, ids', idx) \<Rightarrow> if ret \<noteq> 0 then None else id_to_index_all ids' vs)"

lemma word_of_nat_fresh:
  assumes "n < 2 ^ 32"
  shows "(word_of_nat n :: 32 word) \<notin> set (map word_of_nat [0..<n])"
proof
  assume "(word_of_nat n :: 32 word) \<in> set (map word_of_nat [0..<n])"
  then obtain k where k: "k < n" "(word_of_nat k :: 32 word) = word_of_nat n" by auto
  from k(2) have "unat (word_of_nat k :: 32 word) = unat (word_of_nat n :: 32 word)" by simp
  with k(1) assms show False by (simp add: unat_of_nat)
qed

lemma id_to_index_next:
  assumes "n < 65536"
  shows "id_to_index (map word_of_nat [0..<n]) (word_of_nat n) =
           (0, map word_of_nat [0..<Suc n], word_of_nat n)"
proof -
  from assms have "n < 2 ^ 32" by simp
  then have "(word_of_nat n :: 32 word) \<notin> set (map word_of_nat [0..<n])"
    by (rule word_of_nat_fresh)
  with assms show ?thesis by (simp add: id_to_index_def)
qed

lemma id_to_index_all_upto:
  "n \<le> 65536 \<Longrightarrow> k \<le> n \<Longrightarrow>
     id_to_index_all (map word_of_nat [0..<k]) (map word_of_nat [k..<n]) =
       Some (map word_of_nat [0..<n])"
proof (induction "n - k" arbitrary: k)
  case 0
  then show ?case by simp
next
  case (Suc d)
  then have lt: "k < n" and k: "k < 65536" by simp_all
  from Suc.hyps(2) lt have "d = n - Suc k" "Suc k \<le> n" by simp_all
  with Suc.hyps(1) Suc.prems(1)
  have ih: "id_to_index_all (map word_of_nat [0..<Suc k]) (map word_of_nat [Suc k..<n]) =
              Some (map word_of_nat [0..<n])"
    by blast
  have "[k..<n] = k # [Suc k..<n]" using lt by (rule upt_conv_Cons)
  then have "id_to_index_all (map word_of_nat [0..<k]) (map word_of_nat [k..<n]) =
             id_to_index_all (map word_of_nat [0..<Suc k]) (map word_of_nat [Suc k..<n])"
    using id_to_index_next [OF k] by simp
  with ih show ?case by simp
qed

text \<open>
  C7 (the code departs from the claim). The claim asks that \<open>id_table_write\<close> sets
  \<open>id_count\<close> to the number of entries. \<open>super->id_count = tbl->num_ids\<close> assigns a
  \<open>size_t\<close> to a field of 16 bits. The table takes 65536 values, one for every index
  of 16 bits: the calls for the values 0 to 65535, one after the other from the empty
  table, all succeed and leave a table of 65536 entries. For that table
  \<open>id_table_write\<close> writes all 65536 entries, 262144 bytes, and leaves \<open>id_count\<close>
  0.
\<close>

theorem id_count_wraps_at_65536:
  "id_to_index_all [] (map word_of_nat [0..<65536]) = Some (map word_of_nat [0..<65536]) \<and>
   length (map word_of_nat [0..<65536] :: 32 word list) = 65536 \<and>
   id_table_write example_table_env (map word_of_nat [0..<65536]) []
       (example_super\<lparr>id_count := 7\<rparr>) =
     (0, map word_of_nat [0..<65536], concat (map le_bytes (map word_of_nat [0..<65536])),
      example_super\<lparr>id_count := 0, id_table_start := 0\<rparr>) \<and>
   length (concat (map le_bytes (map word_of_nat [0..<65536]))) = 262144"
proof -
  have 1: "id_to_index_all [] (map word_of_nat [0..<65536]) = Some (map word_of_nat [0..<65536])"
    using id_to_index_all_upto [of 65536 0] by simp
  have 2: "length (map word_of_nat [0..<65536] :: 32 word list) = 65536" by simp
  have 3: "id_table_write example_table_env (map word_of_nat [0..<65536]) []
       (example_super\<lparr>id_count := 7\<rparr>) =
     (0, map word_of_nat [0..<65536], concat (map le_bytes (map word_of_nat [0..<65536])),
      example_super\<lparr>id_count := 0, id_table_start := 0\<rparr>)"
    by (simp add: id_table_write_eq example_table_env_def)
  have 4: "length (concat (map le_bytes (map word_of_nat [0..<65536]))) = 262144"
    by (simp add: length_concat comp_def le_bytes_def sum_list_triv)
  from 1 2 3 4 show ?thesis by (intro conjI)
qed

end
